(* ===== verification/Kmsvc_Prelude.thy ===== *)
theory Kmsvc_Prelude
  imports Main "HOL-Library.Word" "HOL-Library.AList" "HOL-Library.Sublist"
begin

text \<open>
  The vocabulary every component shares: Go's error values and their wrapping, the
  early-return idiom on fallible state transformers, and the parts of the Go standard
  library the program relies on (\<^verbatim>\<open>strconv\<close>, \<^verbatim>\<open>strings\<close>, \<^verbatim>\<open>time.Duration\<close>).
  Strings are byte strings, as in Go: a \<^typ>\<open>char\<close> is one byte. Signed Go integers are
  \<^typ>\<open>int\<close> with their range stated where it matters; unsigned 32-bit values, whose
  wrap-around matters, are words.
\<close>

type_synonym u8 = "8 word"
type_synonym u32 = "32 word"

named_theorems go_defs \<open>definitions of Go library functions that proofs unfold\<close>

section \<open>Errors\<close>

text \<open>
  An error is a text, possibly wrapping another error (\<^verbatim>\<open>fmt.Errorf\<close> with \<^verbatim>\<open>%w\<close>), or one of
  the two sentinels of package \<^verbatim>\<open>context\<close> that the program compares with.
\<close>

datatype go_error =
    ErrText string
  | ErrWrap string go_error
  | DeadlineExceeded
  | Canceled

fun Error :: "go_error \<Rightarrow> string" where
  "Error (ErrText s) = s"
| "Error (ErrWrap s e) = s"
| "Error DeadlineExceeded = ''context deadline exceeded''"
| "Error Canceled = ''context canceled''"

fun errors_Is :: "go_error \<Rightarrow> go_error \<Rightarrow> bool" where
  "errors_Is (ErrWrap s e) t = (ErrWrap s e = t \<or> errors_Is e t)"
| "errors_Is e t = (e = t)"

text \<open>\<open>wrapf p e\<close> is \<^verbatim>\<open>fmt.Errorf("p: %w", e)\<close>.\<close>

definition wrapf :: "string \<Rightarrow> go_error \<Rightarrow> go_error" where
  "wrapf p e = ErrWrap (p @ '': '' @ Error e) e"

lemma Error_wrapf [simp]: "Error (wrapf p e) = p @ '': '' @ Error e"
  by (simp add: wrapf_def)

text \<open>A wrapped context error is still recognised by \<open>errors_Is\<close>, however deep it is.\<close>

lemma errors_Is_wrapf_deadline [simp]:
  "errors_Is (wrapf p e) DeadlineExceeded = errors_Is e DeadlineExceeded"
  by (simp add: wrapf_def)

section \<open>Fallible state transformers\<close>

text \<open>
  A Go call that returns \<^verbatim>\<open>(v, err)\<close> and changes the state is a value of type
  \<open>'a res \<times> 's\<close>. \<open>on_ok m f k\<close> is the idiom
  \<^verbatim>\<open>v, err := m; if err != nil { return f(err) }; k(v)\<close>.
\<close>

type_synonym 'a res = "go_error + 'a"

definition on_ok :: "'a res \<times> 's \<Rightarrow> (go_error \<Rightarrow> go_error) \<Rightarrow> ('a \<Rightarrow> 's \<Rightarrow> 'b res \<times> 's) \<Rightarrow> 'b res \<times> 's" where
  "on_ok m f k = (case fst m of Inl e \<Rightarrow> (Inl (f e), snd m) | Inr v \<Rightarrow> k v (snd m))"

lemma on_ok_Inl [simp]: "on_ok (Inl e, s) f k = (Inl (f e), s)"
  by (simp add: on_ok_def)

lemma on_ok_Inr [simp]: "on_ok (Inr v, s) f k = k v s"
  by (simp add: on_ok_def)

text \<open>For evaluation: the continuation is looked at only when there is a value.\<close>

lemma on_ok_unfold [code_unfold]:
  "on_ok m f k = (case m of (r, s) \<Rightarrow> (case r of Inl e \<Rightarrow> (Inl (f e), s) | Inr v \<Rightarrow> k v s))"
  by (cases m) (simp add: on_ok_def split: sum.splits)

lemma on_ok_success:
  assumes "fst (on_ok m f k) = Inr w"
  obtains v where "fst m = Inr v" and "on_ok m f k = k v (snd m)"
  using assms by (cases "fst m") (auto simp: on_ok_def)

lemma on_okE:
  assumes "on_ok m w k = (Inr v, s')"
  obtains u s1 where "m = (Inr u, s1)" and "k u s1 = (Inr v, s')"
  using assms by (cases m) (auto simp: on_ok_def split: sum.splits)

lemma run_eqI: "fst m = Inr v \<Longrightarrow> m = (Inr v, snd m)"
  by (cases m) simp

text \<open>An invariant of the state survives the idiom if both parts keep it.\<close>

lemma on_ok_inv:
  assumes "P (snd m)" and "\<And>v s. fst m = Inr v \<Longrightarrow> P s \<Longrightarrow> P (snd (k v s))"
  shows "P (snd (on_ok m f k))"
  using assms by (cases "fst m") (auto simp: on_ok_def)

section \<open>Package strconv\<close>

definition digit :: "int \<Rightarrow> char" where
  "digit d = char_of (48 + d)"

text \<open>\<open>FormatUint\<close> prints a number that is not negative.\<close>

function FormatUint :: "int \<Rightarrow> string" where
  "FormatUint n = (if n < 10 then [digit n] else FormatUint (n div 10) @ [digit (n mod 10)])"
  by auto

termination
  by (relation "measure nat") auto

declare FormatUint.simps [simp del]

definition FormatInt :: "int \<Rightarrow> string" where
  "FormatInt n = (if n < 0 then ''-'' @ FormatUint (- n) else FormatUint n)"

definition is_digit :: "char \<Rightarrow> bool" where
  "is_digit c = (48 \<le> (of_char c :: int) \<and> (of_char c :: int) \<le> 57)"

definition digit_val :: "char \<Rightarrow> int" where
  "digit_val c = of_char c - 48"

datatype num_error = ErrSyntax | ErrRange

text \<open>
  The loop of \<^verbatim>\<open>strconv.ParseUint\<close> for base 10: it stops at the first byte that is no digit
  (syntax error) or at the first prefix that exceeds the largest value (range error).
\<close>

fun parse_digits :: "int \<Rightarrow> int \<Rightarrow> string \<Rightarrow> num_error + int" where
  "parse_digits maxv n [] = Inr n"
| "parse_digits maxv n (c # cs) =
     (if \<not> is_digit c then Inl ErrSyntax
      else let n1 = 10 * n + digit_val c in
        if maxv < n1 then Inl ErrRange else parse_digits maxv n1 cs)"

definition ParseUint :: "nat \<Rightarrow> string \<Rightarrow> num_error + int" where
  "ParseUint bits s = (if s = [] then Inl ErrSyntax else parse_digits (2 ^ bits - 1) 0 s)"

text \<open>
  \<^verbatim>\<open>strconv.ParseInt(s, 10, bits)\<close>: the value and the error. A syntax error gives 0, a
  range error the nearest value of the type, and callers that drop the error use that value.
\<close>

definition ParseInt :: "nat \<Rightarrow> string \<Rightarrow> int \<times> num_error option" where
  "ParseInt bits s =
     (let neg = (s \<noteq> [] \<and> hd s = CHR ''-'');
          body = (if s \<noteq> [] \<and> (hd s = CHR ''-'' \<or> hd s = CHR ''+'') then tl s else s);
          cutoff = (2::int) ^ (bits - 1) in
      case ParseUint bits body of
        Inl ErrSyntax \<Rightarrow> (0, Some ErrSyntax)
      | Inl ErrRange \<Rightarrow> (if neg then - cutoff else cutoff - 1, Some ErrRange)
      | Inr un \<Rightarrow>
          if \<not> neg \<and> cutoff \<le> un then (cutoff - 1, Some ErrRange)
          else if neg \<and> cutoff < un then (- cutoff, Some ErrRange)
          else (if neg then - un else un, None))"

definition int_in_bits :: "nat \<Rightarrow> int \<Rightarrow> bool" where
  "int_in_bits bits n = (- (2 ^ (bits - 1)) \<le> n \<and> n < 2 ^ (bits - 1))"

lemma int_in_bits_mono: "int_in_bits b n \<Longrightarrow> b \<le> b' \<Longrightarrow> int_in_bits b' n"
proof -
  assume n: "int_in_bits b n" and "b \<le> b'"
  then have "(2::int) ^ (b - 1) \<le> 2 ^ (b' - 1)" by (intro power_increasing) auto
  with n show "int_in_bits b' n" unfolding int_in_bits_def by linarith
qed

lemma of_char_digit: "0 \<le> d \<Longrightarrow> d < 10 \<Longrightarrow> (of_char (digit d) :: int) = 48 + d"
  by (simp add: digit_def)

lemma digit_is_digit [simp]: "0 \<le> d \<Longrightarrow> d < 10 \<Longrightarrow> is_digit (digit d)"
  by (simp add: is_digit_def of_char_digit)

lemma digit_val_digit [simp]: "0 \<le> d \<Longrightarrow> d < 10 \<Longrightarrow> digit_val (digit d) = d"
  by (simp add: digit_val_def of_char_digit)

lemma FormatUint_nonempty [simp]: "FormatUint n \<noteq> []"
  by (subst FormatUint.simps) simp

lemma FormatUint_digits: "0 \<le> n \<Longrightarrow> \<forall>c \<in> set (FormatUint n). is_digit c"
proof (induction n rule: FormatUint.induct)
  case (1 n)
  then show ?case
    by (cases "n < 10") (auto simp: FormatUint.simps [of n])
qed

lemma parse_digits_append:
  "parse_digits maxv n (xs @ ys) =
     (case parse_digits maxv n xs of Inl e \<Rightarrow> Inl e | Inr m \<Rightarrow> parse_digits maxv m ys)"
  by (induction xs arbitrary: n) (auto simp: Let_def)

lemma parse_digits_FormatUint: "0 \<le> n \<Longrightarrow> n \<le> maxv \<Longrightarrow> parse_digits maxv 0 (FormatUint n) = Inr n"
proof (induction n rule: FormatUint.induct)
  case (1 n)
  show ?case
  proof (cases "n < 10")
    case True
    with "1.prems" show ?thesis by (simp add: FormatUint.simps [of n] Let_def)
  next
    case False
    with "1" have "parse_digits maxv 0 (FormatUint (n div 10)) = Inr (n div 10)" by simp
    with False "1.prems" show ?thesis
      by (simp add: FormatUint.simps [of n] parse_digits_append Let_def)
  qed
qed

lemma ParseUint_FormatUint: "0 \<le> n \<Longrightarrow> n < 2 ^ bits \<Longrightarrow> ParseUint bits (FormatUint n) = Inr n"
  by (simp add: ParseUint_def parse_digits_FormatUint)

lemma hd_FormatUint_digit: "0 \<le> n \<Longrightarrow> is_digit (hd (FormatUint n))"
  using FormatUint_digits [of n] by (simp add: hd_in_set)

lemma not_digit_sign: "\<not> is_digit CHR ''-''" "\<not> is_digit CHR ''+''"
  by (simp_all add: is_digit_def)

lemma hd_FormatUint_no_sign [simp]:
  "0 \<le> n \<Longrightarrow> hd (FormatUint n) \<noteq> CHR ''-''" "0 \<le> n \<Longrightarrow> hd (FormatUint n) \<noteq> CHR ''+''"
  using hd_FormatUint_digit [of n] not_digit_sign by metis+

lemma ParseInt_FormatInt:
  assumes "int_in_bits bits n" and "0 < bits"
  shows "ParseInt bits (FormatInt n) = (n, None)"
proof -
  have "(2::int) ^ (bits - 1) < 2 ^ bits" using assms(2) by simp
  then have "\<bar>n\<bar> < 2 ^ bits" using assms(1) unfolding int_in_bits_def by linarith
  then have pu: "ParseUint bits (FormatUint \<bar>n\<bar>) = Inr \<bar>n\<bar>"
    by (intro ParseUint_FormatUint) simp_all
  show ?thesis
  proof (cases "n < 0")
    case True
    with pu assms show ?thesis
      by (auto simp: ParseInt_def FormatInt_def int_in_bits_def Let_def)
  next
    case False
    with pu assms show ?thesis
      by (auto simp: ParseInt_def FormatInt_def int_in_bits_def Let_def)
  qed
qed

lemma FormatInt_nonempty [simp]: "FormatInt n \<noteq> []"
  by (simp add: FormatInt_def)

lemma FormatInt_inject:
  assumes "FormatInt m = FormatInt n" shows "m = n"
proof -
  obtain bits :: nat where b: "\<bar>m\<bar> < 2 ^ bits" "\<bar>n\<bar> < 2 ^ bits"
  proof -
    define k where "k = nat (max \<bar>m\<bar> \<bar>n\<bar>)"
    have "int k < 2 ^ k" by simp
    then have "\<bar>m\<bar> < 2 ^ k" "\<bar>n\<bar> < 2 ^ k" unfolding k_def by linarith+
    then show ?thesis by (rule that)
  qed
  then have "int_in_bits (Suc bits) m" "int_in_bits (Suc bits) n"
    by (auto simp: int_in_bits_def)
  then have "ParseInt (Suc bits) (FormatInt m) = (m, None)"
    "ParseInt (Suc bits) (FormatInt n) = (n, None)" by (auto intro!: ParseInt_FormatInt)
  with assms show ?thesis by (metis Pair_inject)
qed

lemma FormatInt_eq_iff [simp]: "FormatInt m = FormatInt n \<longleftrightarrow> m = n"
  using FormatInt_inject by blast

text \<open>The bytes of a printed integer are digits and the minus sign only.\<close>

lemma FormatInt_bytes: "c \<in> set (FormatInt n) \<Longrightarrow> is_digit c \<or> c = CHR ''-''"
  using FormatUint_digits [of n] FormatUint_digits [of "- n"] by (auto simp: FormatInt_def split: if_splits)

text \<open>
  \<^verbatim>\<open>strconv.Quote\<close>, the verb \<^verbatim>\<open>%q\<close>: bytes from 128 on are taken as parts of printable
  UTF-8 characters and copied.
\<close>

definition hex_digit :: "int \<Rightarrow> char" where
  "hex_digit d = char_of (if d < 10 then 48 + d else 87 + d)"

definition quote_byte :: "char \<Rightarrow> string" where
  "quote_byte c =
     (let n = (of_char c :: int) in
      if n = 34 \<or> n = 92 then [CHR 0x5C, c]
      else if n = 7 then [CHR 0x5C, CHR ''a'']
      else if n = 8 then [CHR 0x5C, CHR ''b'']
      else if n = 12 then [CHR 0x5C, CHR ''f'']
      else if n = 10 then [CHR 0x5C, CHR ''n'']
      else if n = 13 then [CHR 0x5C, CHR ''r'']
      else if n = 9 then [CHR 0x5C, CHR ''t'']
      else if n = 11 then [CHR 0x5C, CHR ''v'']
      else if n < 32 \<or> n = 127 then [CHR 0x5C, CHR ''x'', hex_digit (n div 16), hex_digit (n mod 16)]
      else [c])"

definition Quote :: "string \<Rightarrow> string" where
  "Quote s = [CHR 0x22] @ concat (map quote_byte s) @ [CHR 0x22]"

text \<open>The text of a \<^verbatim>\<open>strconv.NumError\<close>.\<close>

definition NumError :: "string \<Rightarrow> string \<Rightarrow> num_error \<Rightarrow> go_error" where
  "NumError f s e = ErrText (''strconv.'' @ f @ '': parsing '' @ Quote s @ '': '' @
     (case e of ErrSyntax \<Rightarrow> ''invalid syntax'' | ErrRange \<Rightarrow> ''value out of range''))"

section \<open>Package strings\<close>

definition HasPrefix :: "string \<Rightarrow> string \<Rightarrow> bool" where
  "HasPrefix s p = (take (length p) s = p)"

definition TrimPrefix :: "string \<Rightarrow> string \<Rightarrow> string" where
  "TrimPrefix s p = (if HasPrefix s p then drop (length p) s else s)"

fun Contains :: "string \<Rightarrow> string \<Rightarrow> bool" where
  "Contains [] p = (p = [])"
| "Contains (c # cs) p = (HasPrefix (c # cs) p \<or> Contains cs p)"

lemma HasPrefix_append [simp]: "HasPrefix (p @ s) p"
  by (simp add: HasPrefix_def)

lemma TrimPrefix_append [simp]: "TrimPrefix (p @ s) p = s"
  by (simp add: TrimPrefix_def)

lemma Contains_iff: "Contains s p \<longleftrightarrow> (\<exists>a b. s = a @ p @ b)"
proof (induction s)
  case Nil
  then show ?case by simp
next
  case (Cons c cs)
  have pre: "HasPrefix (c # cs) p \<longleftrightarrow> (\<exists>b. c # cs = p @ b)"
    unfolding HasPrefix_def by (metis append_eq_conv_conj append_take_drop_id)
  show ?case
  proof
    assume "Contains (c # cs) p"
    then consider "\<exists>b. c # cs = p @ b" | "\<exists>a b. cs = a @ p @ b"
      using Cons.IH pre by auto
    then show "\<exists>a b. c # cs = a @ p @ b"
      by cases (metis append_Nil, metis append_Cons)
  next
    assume "\<exists>a b. c # cs = a @ p @ b"
    then obtain a b where ab: "c # cs = a @ p @ b" by blast
    show "Contains (c # cs) p"
    proof (cases a)
      case Nil
      with ab have "HasPrefix (c # cs) p" unfolding pre by auto
      then show ?thesis by simp
    next
      case (Cons d ds)
      with ab Cons.IH show ?thesis by auto
    qed
  qed
qed

text \<open>
  Splitting at a separator is unambiguous when the first parts do not contain it: the
  lemma behind every key-injectivity proof.
\<close>

lemma append_sep_eq_iff:
  assumes "c \<notin> set a" and "c \<notin> set a'"
  shows "a @ c # b = a' @ c # b' \<longleftrightarrow> a = a' \<and> b = b'"
  using assms
proof (induction a arbitrary: a')
  case Nil
  then show ?case by (cases a') auto
next
  case (Cons x xs)
  then show ?case by (cases a') auto
qed

section \<open>Conversions between 32-bit integers\<close>

lemma sint_u32_small:
  assumes "unat (w :: u32) < 2 ^ 31"
  shows "sint w = int (unat w)"
proof -
  have u: "int (unat w) = uint w" by simp
  have "int (unat w) < int (2 ^ 31)" using assms by (simp only: of_nat_less_iff)
  then have "uint w < 2 ^ 31" unfolding u by simp
  moreover have "- (2 ^ 31) \<le> uint w" by (rule order_trans [of _ 0]) simp_all
  ultimately have "sint w = uint w"
    by (simp add: sint_uint signed_take_bit_int_eq_self_iff)
  then show ?thesis using u by simp
qed

lemma unat_u32_of_int: "0 \<le> n \<Longrightarrow> n < 2 ^ 32 \<Longrightarrow> unat (word_of_int n :: u32) = nat n"
  by (simp add: unsigned_of_int take_bit_int_eq_self)

section \<open>Numbers of type float64\<close>

text \<open>
  \<^verbatim>\<open>float64(n)\<close> of an integer is an integer again: \<open>n\<close> rounded to 53 significant bits, ties
  to even.
\<close>

function bit_len :: "int \<Rightarrow> nat" where
  "bit_len n = (if n \<le> 0 then 0 else Suc (bit_len (n div 2)))"
  by auto

termination
  by (relation "measure nat") auto

declare bit_len.simps [simp del]

definition round53 :: "int \<Rightarrow> int" where
  "round53 a =
     (let e = bit_len a - 53; q = a div 2 ^ e; r = a mod 2 ^ e; half = 2 ^ (e - 1) in
      if half < r \<or> (r = half \<and> odd q) then (q + 1) * 2 ^ e else q * 2 ^ e)"

definition float64 :: "int \<Rightarrow> int" where
  "float64 n = (if \<bar>n\<bar> \<le> 2 ^ 53 then n else sgn n * round53 \<bar>n\<bar>)"

lemma float64_exact: "\<bar>n\<bar> \<le> 2 ^ 53 \<Longrightarrow> float64 n = n"
  by (simp add: float64_def)

text \<open>
  A finite \<^verbatim>\<open>float64\<close> in general is a pair \<open>(m, e)\<close> for \<open>m * 2 ^ e\<close>. Every operation is the exact
  one followed by one rounding to 53 bits, which is what IEEE 754 asks for as long as no
  exponent leaves its range. The numbers of this program, quotients of 64-bit integers and
  of durations, stay between \<open>2 ^ -100\<close> and \<open>2 ^ 110\<close>. In a quotient the bit below the last computed one
  says whether anything was cut off, so that the rounding sees on which side of a tie the
  exact value lies.
\<close>

type_synonym f64 = "int \<times> int"

definition f64_of_int :: "int \<Rightarrow> f64" where
  "f64_of_int n = (float64 n, 0)"

definition f64_scale :: "f64 \<Rightarrow> int \<Rightarrow> int" where
  "f64_scale x e = fst x * 2 ^ nat (snd x - e)"

definition f64_add :: "f64 \<Rightarrow> f64 \<Rightarrow> f64" where
  "f64_add x y = (let e = min (snd x) (snd y) in (float64 (f64_scale x e + f64_scale y e), e))"

definition f64_less :: "f64 \<Rightarrow> f64 \<Rightarrow> bool" where
  "f64_less x y = (let e = min (snd x) (snd y) in f64_scale x e < f64_scale y e)"

definition f64_div :: "f64 \<Rightarrow> f64 \<Rightarrow> f64" where
  "f64_div x y =
     (let n = \<bar>fst x\<bar>; d = \<bar>fst y\<bar>;
          s = 56 + bit_len d - bit_len n;
          q = n * 2 ^ s div d; cut = n * 2 ^ s mod d;
          m = 2 * q + (if cut = 0 then 0 else 1) in
      (sgn (fst x) * sgn (fst y) * float64 m, snd x - snd y - int s - 1))"

definition f64_mul :: "f64 \<Rightarrow> f64 \<Rightarrow> f64" where
  "f64_mul x y = (float64 (fst x * fst y), snd x + snd y)"

lemma round53_nonneg: "0 \<le> a \<Longrightarrow> 0 \<le> round53 a"
  by (simp add: round53_def Let_def pos_imp_zdiv_nonneg_iff)

lemma sgn_float64: "0 < n \<Longrightarrow> 0 \<le> float64 n" "n < 0 \<Longrightarrow> float64 n \<le> 0" "float64 0 = 0"
  using round53_nonneg [of "\<bar>n\<bar>"] by (auto simp: float64_def)

lemma f64_less_sign:
  assumes "fst x \<le> 0" and "0 < fst y"
  shows "f64_less x y"
proof -
  have "f64_scale x e \<le> 0" and "0 < f64_scale y e" for e
    using assms by (simp_all add: f64_scale_def mult_nonpos_nonneg)
  then show ?thesis unfolding f64_less_def Let_def by (rule le_less_trans)
qed

section \<open>Package time\<close>

text \<open>A \<^verbatim>\<open>time.Duration\<close> and a point in time count nanoseconds.\<close>

type_synonym duration = int
type_synonym time = int

abbreviation Millisecond :: duration where "Millisecond \<equiv> 1000000"
abbreviation Second :: duration where "Second \<equiv> 1000000000"
abbreviation Minute :: duration where "Minute \<equiv> 60 * Second"

definition UnixMilli :: "time \<Rightarrow> int" where
  "UnixMilli t = t div Millisecond"

text \<open>\<^verbatim>\<open>t.Sub(u)\<close> saturates at the ends of the 64-bit range; \<^verbatim>\<open>d.Seconds()\<close> adds whole and partial seconds.\<close>

definition time_Sub :: "time \<Rightarrow> time \<Rightarrow> duration" where
  "time_Sub t u = max (- (2 ^ 63)) (min (2 ^ 63 - 1) (t - u))"

definition Seconds :: "duration \<Rightarrow> f64" where
  "Seconds d = (let sec = sgn d * (\<bar>d\<bar> div Second); nsec = sgn d * (\<bar>d\<bar> mod Second) in
     f64_add (f64_of_int sec) (f64_div (f64_of_int nsec) (f64_of_int Second)))"

lemma UnixMilli_mono: "s \<le> t \<Longrightarrow> UnixMilli s \<le> UnixMilli t"
  by (simp add: UnixMilli_def zdiv_mono1)

end
