(* ===== verification/Redis_Keys.thy ===== *)
theory Redis_Keys
  imports Kmsvc_Prelude
begin

text \<open>
  Package \<^verbatim>\<open>internal/redis\<close>, file \<^verbatim>\<open>keys.go\<close>: the names of every Redis key and channel the
  program uses. The main lemma, \<open>render_inject\<close>, says that two logical keys whose
  components (but the last one) contain no colon never share a name, across all twelve
  families.
\<close>

definition InFlightKey :: "string \<Rightarrow> string \<Rightarrow> string" where
  "InFlightKey queue receiptHandle = ''kmsvc:inflight:'' @ queue @ '':'' @ receiptHandle"

definition PendingKey :: "string \<Rightarrow> string \<Rightarrow> int \<Rightarrow> string" where
  "PendingKey queue shardID part =
     ''kmsvc:pending:'' @ queue @ '':'' @ shardID @ '':'' @ FormatInt part"

definition WatermarkKey :: "string \<Rightarrow> string \<Rightarrow> int \<Rightarrow> string" where
  "WatermarkKey queue shardID part =
     ''kmsvc:watermark:'' @ queue @ '':'' @ shardID @ '':'' @ FormatInt part"

definition VisIndexKey :: "string \<Rightarrow> string" where
  "VisIndexKey queue = ''kmsvc:vis_index:'' @ queue"

definition DedupKey :: "string \<Rightarrow> string \<Rightarrow> string \<Rightarrow> string" where
  "DedupKey queue groupID dedupID = ''kmsvc:dedup:'' @ queue @ '':'' @ groupID @ '':'' @ dedupID"

definition FIFOLockKey :: "string \<Rightarrow> string \<Rightarrow> string" where
  "FIFOLockKey queue groupID = ''kmsvc:fifo_lock:'' @ queue @ '':'' @ groupID"

definition QueueMetaKey :: "string \<Rightarrow> string" where
  "QueueMetaKey queue = ''kmsvc:queue:'' @ queue"

definition ShardMapKey :: "string \<Rightarrow> string" where
  "ShardMapKey queue = ''kmsvc:shardmap:'' @ queue"

definition ShardMapChannel :: "string \<Rightarrow> string" where
  "ShardMapChannel queue = ''kmsvc:shardmap_invalidate:'' @ queue"

definition QueueMetaChannel :: "string \<Rightarrow> string" where
  "QueueMetaChannel queue = ''kmsvc:queuemeta_invalidate:'' @ queue"

definition RedeliverKey :: "string \<Rightarrow> string" where
  "RedeliverKey queue = ''kmsvc:redeliver:'' @ queue"

definition QueueLockKey :: "string \<Rightarrow> string" where
  "QueueLockKey queue = ''kmsvc:queue_lock:'' @ queue"

lemmas key_defs = InFlightKey_def PendingKey_def WatermarkKey_def VisIndexKey_def DedupKey_def
  FIFOLockKey_def QueueMetaKey_def ShardMapKey_def ShardMapChannel_def QueueMetaChannel_def
  RedeliverKey_def QueueLockKey_def

section \<open>Families of keys\<close>

text \<open>Every key is \<^verbatim>\<open>kmsvc:<family>:<rest>\<close>, and no family name contains a colon.\<close>

datatype logical_key =
    KInFlight string string
  | KPending string string int
  | KWatermark string string int
  | KVisIndex string
  | KDedup string string string
  | KFIFOLock string string
  | KQueueMeta string
  | KShardMap string
  | KShardMapChannel string
  | KQueueMetaChannel string
  | KRedeliver string
  | KQueueLock string

fun render :: "logical_key \<Rightarrow> string" where
  "render (KInFlight q h) = InFlightKey q h"
| "render (KPending q s p) = PendingKey q s p"
| "render (KWatermark q s p) = WatermarkKey q s p"
| "render (KVisIndex q) = VisIndexKey q"
| "render (KDedup q g d) = DedupKey q g d"
| "render (KFIFOLock q g) = FIFOLockKey q g"
| "render (KQueueMeta q) = QueueMetaKey q"
| "render (KShardMap q) = ShardMapKey q"
| "render (KShardMapChannel q) = ShardMapChannel q"
| "render (KQueueMetaChannel q) = QueueMetaChannel q"
| "render (KRedeliver q) = RedeliverKey q"
| "render (KQueueLock q) = QueueLockKey q"

fun family :: "logical_key \<Rightarrow> string" where
  "family (KInFlight q h) = ''inflight''"
| "family (KPending q s p) = ''pending''"
| "family (KWatermark q s p) = ''watermark''"
| "family (KVisIndex q) = ''vis_index''"
| "family (KDedup q g d) = ''dedup''"
| "family (KFIFOLock q g) = ''fifo_lock''"
| "family (KQueueMeta q) = ''queue''"
| "family (KShardMap q) = ''shardmap''"
| "family (KShardMapChannel q) = ''shardmap_invalidate''"
| "family (KQueueMetaChannel q) = ''queuemeta_invalidate''"
| "family (KRedeliver q) = ''redeliver''"
| "family (KQueueLock q) = ''queue_lock''"

fun key_body :: "logical_key \<Rightarrow> string" where
  "key_body (KInFlight q h) = q @ CHR '':'' # h"
| "key_body (KPending q s p) = q @ CHR '':'' # s @ CHR '':'' # FormatInt p"
| "key_body (KWatermark q s p) = q @ CHR '':'' # s @ CHR '':'' # FormatInt p"
| "key_body (KDedup q g d) = q @ CHR '':'' # g @ CHR '':'' # d"
| "key_body (KFIFOLock q g) = q @ CHR '':'' # g"
| "key_body (KVisIndex q) = q"
| "key_body (KQueueMeta q) = q"
| "key_body (KShardMap q) = q"
| "key_body (KShardMapChannel q) = q"
| "key_body (KQueueMetaChannel q) = q"
| "key_body (KRedeliver q) = q"
| "key_body (KQueueLock q) = q"

text \<open>The components that must not contain the separator: all but the last.\<close>

definition colon_free :: "string \<Rightarrow> bool" where
  "colon_free s = (CHR '':'' \<notin> set s)"

fun separable :: "logical_key \<Rightarrow> bool" where
  "separable (KInFlight q h) = colon_free q"
| "separable (KPending q s p) = (colon_free q \<and> colon_free s)"
| "separable (KWatermark q s p) = (colon_free q \<and> colon_free s)"
| "separable (KDedup q g d) = (colon_free q \<and> colon_free g)"
| "separable (KFIFOLock q g) = colon_free q"
| "separable k = True"

lemma render_eq: "render k = ''kmsvc:'' @ family k @ CHR '':'' # key_body k"
  by (cases k) (simp_all add: key_defs)

lemma family_colon_free: "CHR '':'' \<notin> set (family k)"
  by (cases k) simp_all

lemma render_family_body: "render k = render k' \<longleftrightarrow> family k = family k' \<and> key_body k = key_body k'"
  unfolding render_eq by (simp add: append_sep_eq_iff family_colon_free)

lemma family_body_inject:
  assumes "separable k" and "separable k'" and "family k = family k'" and "key_body k = key_body k'"
  shows "k = k'"
  using assms by (cases k; cases k') (simp_all add: append_sep_eq_iff colon_free_def)

lemma render_inject: "separable k \<Longrightarrow> separable k' \<Longrightarrow> render k = render k' \<longleftrightarrow> k = k'"
  using render_family_body family_body_inject by blast

text \<open>
  Keys of different families differ whatever their components are. These inequalities let
  the simplifier separate the store entries an operation touches.
\<close>

lemma family_neq_render: "family k \<noteq> family k' \<Longrightarrow> render k \<noteq> render k'"
  by (simp add: render_family_body)

lemma key_families_distinct [simp]:
  "InFlightKey q h \<noteq> PendingKey q' s p" "InFlightKey q h \<noteq> WatermarkKey q' s p"
  "InFlightKey q h \<noteq> VisIndexKey q'" "InFlightKey q h \<noteq> DedupKey q' g d"
  "InFlightKey q h \<noteq> FIFOLockKey q' g" "InFlightKey q h \<noteq> QueueMetaKey q'"
  "InFlightKey q h \<noteq> ShardMapKey q'" "InFlightKey q h \<noteq> RedeliverKey q'"
  "PendingKey q s p \<noteq> WatermarkKey q' s' p'" "PendingKey q s p \<noteq> VisIndexKey q'"
  "PendingKey q s p \<noteq> DedupKey q' g d" "PendingKey q s p \<noteq> FIFOLockKey q' g"
  "PendingKey q s p \<noteq> QueueMetaKey q'" "PendingKey q s p \<noteq> ShardMapKey q'"
  "PendingKey q s p \<noteq> RedeliverKey q'"
  "WatermarkKey q s p \<noteq> VisIndexKey q'" "WatermarkKey q s p \<noteq> DedupKey q' g d"
  "WatermarkKey q s p \<noteq> FIFOLockKey q' g" "WatermarkKey q s p \<noteq> QueueMetaKey q'"
  "WatermarkKey q s p \<noteq> ShardMapKey q'" "WatermarkKey q s p \<noteq> RedeliverKey q'"
  "VisIndexKey q \<noteq> DedupKey q' g d" "VisIndexKey q \<noteq> FIFOLockKey q' g"
  "VisIndexKey q \<noteq> QueueMetaKey q'" "VisIndexKey q \<noteq> ShardMapKey q'"
  "VisIndexKey q \<noteq> RedeliverKey q'"
  "DedupKey q g d \<noteq> FIFOLockKey q' g'" "DedupKey q g d \<noteq> QueueMetaKey q'"
  "DedupKey q g d \<noteq> ShardMapKey q'" "DedupKey q g d \<noteq> RedeliverKey q'"
  "FIFOLockKey q g \<noteq> QueueMetaKey q'" "FIFOLockKey q g \<noteq> ShardMapKey q'"
  "FIFOLockKey q g \<noteq> RedeliverKey q'"
  "QueueMetaKey q \<noteq> ShardMapKey q'" "QueueMetaKey q \<noteq> RedeliverKey q'"
  "ShardMapKey q \<noteq> RedeliverKey q'"
  by (simp_all add: key_defs)

lemmas key_families_distinct_sym [simp] = key_families_distinct [symmetric]

lemma key_inject [simp]:
  "VisIndexKey q = VisIndexKey q' \<longleftrightarrow> q = q'"
  "QueueMetaKey q = QueueMetaKey q' \<longleftrightarrow> q = q'"
  "ShardMapKey q = ShardMapKey q' \<longleftrightarrow> q = q'"
  "RedeliverKey q = RedeliverKey q' \<longleftrightarrow> q = q'"
  "InFlightKey q h = InFlightKey q h' \<longleftrightarrow> h = h'"
  "FIFOLockKey q g = FIFOLockKey q g' \<longleftrightarrow> g = g'"
  by (simp_all add: key_defs)

section \<open>Properties\<close>



text \<open>
  The hypothesis on message groups in C11 is needed, and the program does not enforce
  it: a \<^verbatim>\<open>MessageGroupId\<close> may contain colons, and then sends of different groups share one
  deduplication key.
\<close>

theorem DedupKey_group_collision:
  "DedupKey q (a @ '':'' @ b) c = DedupKey q a (b @ '':'' @ c)"
  by (simp add: DedupKey_def)
end
