(* ===== verification/Redis_Server.thy ===== *)
theory Redis_Server
  imports Kmsvc_Prelude "HOL-Library.Char_ord" "HOL-Library.List_Lexorder" "HOL-Library.Product_Lexorder" "HOL-Library.Multiset"
begin

text \<open>
  The Redis server and its client library are not part of the repository. The model takes
  them as a parameter \<open>R :: 's redis\<close>, a record of the commands the program issues over an
  opaque server state, and the properties assume only what the Redis documentation says
  about those commands: the laws of the locale \<open>redis_server\<close>, stated over two
  observations of the server, the key space \<open>ks\<close> and the server clock (milliseconds).

  Every command touches one key, so its documented effect is a function of the entry stored
  there (the \<open>cmd_\<close> definitions). Keys may carry an expiry deadline, and an expired
  entry is as good as absent.

  A client call is a round trip (\<open>round_trip\<close>): the request may be lost, or the reply may be
  lost after the command has run, and in both cases the caller sees an error. Time may pass
  on every round trip. \<open>redis_quiet\<close> extends the contract with the absence of other
  writers between two round trips of one caller.
\<close>

section \<open>Stored values\<close>

datatype rvalue =
    RStr string
  | RHash "(string \<times> string) list"
  | RZSet "(string \<times> int) list"
  | RList "string list"

text \<open>An entry is a value with the deadline at which it expires, if it has one.\<close>

type_synonym entry = "rvalue \<times> int option"
type_synonym keyspace = "string \<Rightarrow> entry option"

definition alive :: "int \<Rightarrow> entry option \<Rightarrow> entry option" where
  "alive t e = (case e of Some (v, Some d) \<Rightarrow> if d \<le> t then None else e | _ \<Rightarrow> e)"

definition live :: "int \<Rightarrow> entry option \<Rightarrow> bool" where
  "live t e = (alive t e \<noteq> None)"

definition as_str :: "int \<Rightarrow> entry option \<Rightarrow> string option" where
  "as_str t e = (case alive t e of Some (RStr v, _) \<Rightarrow> Some v | _ \<Rightarrow> None)"

definition as_hash :: "int \<Rightarrow> entry option \<Rightarrow> (string \<times> string) list" where
  "as_hash t e = (case alive t e of Some (RHash h, _) \<Rightarrow> h | _ \<Rightarrow> [])"

definition as_zset :: "int \<Rightarrow> entry option \<Rightarrow> (string \<times> int) list" where
  "as_zset t e = (case alive t e of Some (RZSet z, _) \<Rightarrow> z | _ \<Rightarrow> [])"

definition as_list :: "int \<Rightarrow> entry option \<Rightarrow> string list" where
  "as_list t e = (case alive t e of Some (RList l, _) \<Rightarrow> l | _ \<Rightarrow> [])"

definition deadline :: "entry option \<Rightarrow> int option" where
  "deadline e = (case e of Some (_, d) \<Rightarrow> d | None \<Rightarrow> None)"

lemmas view_defs = as_str_def as_hash_def as_zset_def as_list_def

lemma alive_simps [simp]:
  "alive t None = None"
  "alive t (Some (v, None)) = Some (v, None)"
  "alive t (Some (v, Some d)) = (if d \<le> t then None else Some (v, Some d))"
  by (simp_all add: alive_def)

lemma alive_cases: "alive t e = None \<or> alive t e = e"
  by (auto simp: alive_def split: option.splits prod.splits)

lemma alive_alive [simp]: "alive t (alive t e) = alive t e"
  by (auto simp: alive_def split: option.splits prod.splits)

lemma alive_antimono: "alive t' e \<noteq> None \<Longrightarrow> t \<le> t' \<Longrightarrow> alive t e = alive t' e"
  by (auto simp: alive_def split: option.splits prod.splits if_splits)

lemma as_zset_later:
  assumes "t \<le> t'" shows "as_zset t' e = [] \<or> as_zset t' e = as_zset t e"
proof (cases "alive t' e")
  case None
  then show ?thesis by (simp add: as_zset_def)
next
  case (Some a)
  with alive_antimono [of t' e t] assms show ?thesis by (simp add: as_zset_def)
qed

text \<open>The members of a sorted set by score, equal scores by member bytes.\<close>

definition zorder :: "(string \<times> int) list \<Rightarrow> (string \<times> int) list" where
  "zorder z = map (\<lambda>(s, m). (m, s)) (sort (map (\<lambda>(m, s). (s, m)) z))"

lemma set_zorder [simp]: "set (zorder z) = set z"
  by (force simp: zorder_def)

lemma length_zorder [simp]: "length (zorder z) = length z"
  by (simp add: zorder_def)

lemma zorder_filter_length: "length (filter P (zorder z)) = length (filter P z)"
proof -
  have "mset (zorder z) = mset z"
    by (simp add: zorder_def multiset.map_comp comp_def case_prod_beta)
  then have "size (filter_mset P (mset (zorder z))) = size (filter_mset P (mset z))" by simp
  then show ?thesis by (metis mset_filter size_mset)
qed

lemma zorder_Nil [simp]: "zorder [] = []"
  by (simp add: zorder_def)

lemma zorder_Nil_iff [simp]: "zorder z = [] \<longleftrightarrow> z = []"
  by (metis length_zorder length_0_conv)

lemma zorder_sorted: "sorted (map snd (zorder z))"
proof -
  have "sorted (map fst (sort (map (\<lambda>(m, s). (s, m)) z)))"
    by (rule sorted_map_mono [where f = fst]) (auto simp: less_eq_prod_def mono_on_def)
  then show ?thesis by (simp add: zorder_def comp_def case_prod_beta)
qed

section \<open>Documented effect of each command on the entry of its key\<close>

definition wrongtype :: go_error where
  "wrongtype = ErrText ''WRONGTYPE Operation against a key holding the wrong kind of value''"

definition invalid_expire :: go_error where
  "invalid_expire = ErrText ''ERR invalid expire time in set command''"

definition cmd_get :: "int \<Rightarrow> entry option \<Rightarrow> string option res" where
  "cmd_get t e = (case alive t e of
     None \<Rightarrow> Inr None | Some (RStr v, _) \<Rightarrow> Inr (Some v) | _ \<Rightarrow> Inl wrongtype)"

text \<open>
  \<^verbatim>\<open>SET key v NX\<close> with an expiration in nanoseconds, as the client library documents it: 0
  and the reserved value \<open>-1\<close> set no expiry on a new key, shorter expirations than a
  millisecond are rounded up to one.
\<close>

definition ttl_deadline :: "int \<Rightarrow> duration \<Rightarrow> int option" where
  "ttl_deadline t ttl =
     (if ttl \<le> 0 then None
      else if ttl < Millisecond then Some (t + 1) else Some (t + ttl div Millisecond))"

definition cmd_setnx :: "int \<Rightarrow> string \<Rightarrow> duration \<Rightarrow> entry option \<Rightarrow> bool res \<times> entry option" where
  "cmd_setnx t v ttl e =
     (if ttl < - 1 then (Inl invalid_expire, e)
      else case alive t e of
        None \<Rightarrow> (Inr True, Some (RStr v, ttl_deadline t ttl))
      | Some _ \<Rightarrow> (Inr False, e))"

definition cmd_hgetall :: "int \<Rightarrow> entry option \<Rightarrow> (string \<times> string) list res" where
  "cmd_hgetall t e = (case alive t e of
     None \<Rightarrow> Inr [] | Some (RHash h, _) \<Rightarrow> Inr h | _ \<Rightarrow> Inl wrongtype)"

definition hset_all :: "(string \<times> string) list \<Rightarrow> (string \<times> string) list \<Rightarrow> (string \<times> string) list" where
  "hset_all fvs h = fold (\<lambda>(f, v). AList.update f v) fvs h"

definition cmd_hset :: "int \<Rightarrow> (string \<times> string) list \<Rightarrow> entry option \<Rightarrow> unit res \<times> entry option" where
  "cmd_hset t fvs e = (case alive t e of
     None \<Rightarrow> (Inr (), Some (RHash (hset_all fvs []), None))
   | Some (RHash h, d) \<Rightarrow> (Inr (), Some (RHash (hset_all fvs h), d))
   | _ \<Rightarrow> (Inl wrongtype, e))"

text \<open>
  \<^verbatim>\<open>EXPIRE\<close> counts whole seconds (the client rounds a positive fraction of a second up to
  one and otherwise truncates); a deadline that is not in the future deletes the key.
\<close>

definition expire_secs :: "duration \<Rightarrow> int" where
  "expire_secs dur = (if 0 < dur \<and> dur < Second then 1 else dur div Second)"

definition cmd_expire :: "int \<Rightarrow> duration \<Rightarrow> entry option \<Rightarrow> entry option" where
  "cmd_expire t dur e = (case alive t e of
     None \<Rightarrow> e
   | Some (v, d) \<Rightarrow> if dur \<le> 0 then None else Some (v, Some (t + 1000 * expire_secs dur)))"

definition cmd_zadd :: "int \<Rightarrow> int \<Rightarrow> string \<Rightarrow> entry option \<Rightarrow> unit res \<times> entry option" where
  "cmd_zadd t score m e = (case alive t e of
     None \<Rightarrow> (Inr (), Some (RZSet [(m, score)], None))
   | Some (RZSet z, d) \<Rightarrow> (Inr (), Some (RZSet (AList.update m score z), d))
   | _ \<Rightarrow> (Inl wrongtype, e))"

definition cmd_zrem :: "int \<Rightarrow> string \<Rightarrow> entry option \<Rightarrow> bool res \<times> entry option" where
  "cmd_zrem t m e = (case alive t e of
     None \<Rightarrow> (Inr False, e)
   | Some (RZSet z, d) \<Rightarrow>
       (Inr (m \<in> fst ` set z),
        (let z' = AList.delete m z in if z' = [] then None else Some (RZSet z', d)))
   | _ \<Rightarrow> (Inl wrongtype, e))"

definition cmd_zrange :: "int \<Rightarrow> nat \<Rightarrow> nat \<Rightarrow> entry option \<Rightarrow> (string \<times> int) list res" where
  "cmd_zrange t start stop e = (case alive t e of
     None \<Rightarrow> Inr []
   | Some (RZSet z, _) \<Rightarrow> Inr (take (Suc stop - start) (drop start (zorder z)))
   | _ \<Rightarrow> Inl wrongtype)"

definition cmd_zrangebyscore :: "int \<Rightarrow> int \<Rightarrow> int \<Rightarrow> nat \<Rightarrow> entry option \<Rightarrow> string list res" where
  "cmd_zrangebyscore t lo hi limit e = (case alive t e of
     None \<Rightarrow> Inr []
   | Some (RZSet z, _) \<Rightarrow>
       Inr (take limit (map fst (filter (\<lambda>(m, s). lo \<le> s \<and> s \<le> hi) (zorder z))))
   | _ \<Rightarrow> Inl wrongtype)"

definition cmd_lpop :: "int \<Rightarrow> entry option \<Rightarrow> string option res \<times> entry option" where
  "cmd_lpop t e = (case alive t e of
     None \<Rightarrow> (Inr None, e)
   | Some (RList [], d) \<Rightarrow> (Inr None, e)
   | Some (RList (x # xs), d) \<Rightarrow> (Inr (Some x), if xs = [] then None else Some (RList xs, d))
   | _ \<Rightarrow> (Inl wrongtype, e))"

definition cmd_rpush :: "int \<Rightarrow> string \<Rightarrow> entry option \<Rightarrow> unit res \<times> entry option" where
  "cmd_rpush t v e = (case alive t e of
     None \<Rightarrow> (Inr (), Some (RList [v], None))
   | Some (RList l, d) \<Rightarrow> (Inr (), Some (RList (l @ [v]), d))
   | _ \<Rightarrow> (Inl wrongtype, e))"

section \<open>The interface\<close>

datatype link = Delivered | RequestLost go_error | ReplyLost go_error

record 's redis =
  LINK :: "'s \<Rightarrow> link \<times> 's"
  GET :: "'s \<Rightarrow> string \<Rightarrow> string option res \<times> 's"
  SET :: "'s \<Rightarrow> string \<Rightarrow> string \<Rightarrow> unit res \<times> 's"
  SETNX :: "'s \<Rightarrow> string \<Rightarrow> string \<Rightarrow> duration \<Rightarrow> bool res \<times> 's"
  DEL :: "'s \<Rightarrow> string \<Rightarrow> unit res \<times> 's"
  EXISTS :: "'s \<Rightarrow> string \<Rightarrow> bool res \<times> 's"
  HSET :: "'s \<Rightarrow> string \<Rightarrow> (string \<times> string) list \<Rightarrow> unit res \<times> 's"
  HGETALL :: "'s \<Rightarrow> string \<Rightarrow> (string \<times> string) list res \<times> 's"
  EXPIRE :: "'s \<Rightarrow> string \<Rightarrow> duration \<Rightarrow> unit res \<times> 's"
  ZADD :: "'s \<Rightarrow> string \<Rightarrow> int \<Rightarrow> string \<Rightarrow> unit res \<times> 's"
  ZREM :: "'s \<Rightarrow> string \<Rightarrow> string \<Rightarrow> bool res \<times> 's"
  ZRANGE :: "'s \<Rightarrow> string \<Rightarrow> nat \<Rightarrow> nat \<Rightarrow> (string \<times> int) list res \<times> 's"
  ZRANGEBYSCORE :: "'s \<Rightarrow> string \<Rightarrow> int \<Rightarrow> int \<Rightarrow> nat \<Rightarrow> string list res \<times> 's"
  LPOP :: "'s \<Rightarrow> string \<Rightarrow> string option res \<times> 's"
  RPUSH :: "'s \<Rightarrow> string \<Rightarrow> string \<Rightarrow> unit res \<times> 's"
  PUBLISH :: "'s \<Rightarrow> string \<Rightarrow> string \<Rightarrow> unit res \<times> 's"
  SCAN :: "'s \<Rightarrow> string \<Rightarrow> string list res \<times> 's"

text \<open>One round trip of the client: \<open>f\<close> is what the server executes, atomically.\<close>

definition round_trip :: "'s redis \<Rightarrow> ('s \<Rightarrow> 'a res \<times> 's) \<Rightarrow> 's \<Rightarrow> 'a res \<times> 's" where
  "round_trip R f s =
     (let s' = snd (LINK R s) in
      case fst (LINK R s) of
        Delivered \<Rightarrow> f s'
      | RequestLost e \<Rightarrow> (Inl e, s')
      | ReplyLost e \<Rightarrow> (Inl e, snd (f s')))"

text \<open>
  A transaction (\<^verbatim>\<open>TxPipeline\<close>, \<^verbatim>\<open>MULTI\<close>/\<^verbatim>\<open>EXEC\<close>) runs every command even after one has failed,
  and reports the first failure.
\<close>

definition then_also :: "'a res \<times> 's \<Rightarrow> ('s \<Rightarrow> 'b res \<times> 's) \<Rightarrow> unit res \<times> 's" where
  "then_also m f =
     (case f (snd m) of (r, s') \<Rightarrow>
       (case (fst m, r) of (Inl e, _) \<Rightarrow> Inl e | (Inr _, Inl e) \<Rightarrow> Inl e | (Inr _, Inr _) \<Rightarrow> Inr (), s'))"

text \<open>For evaluation: a round trip and a transaction look at the first part before the second.\<close>

lemma round_trip_unfold [code_unfold]:
  "round_trip R f s = (case LINK R s of (l, s') \<Rightarrow>
     (case l of Delivered \<Rightarrow> f s' | RequestLost e \<Rightarrow> (Inl e, s') | ReplyLost e \<Rightarrow> (Inl e, snd (f s'))))"
  by (cases "LINK R s") (simp add: round_trip_def Let_def)

lemma then_also_unfold [code_unfold]:
  "then_also m f = (case m of (r0, s0) \<Rightarrow> (case f s0 of (r, s') \<Rightarrow>
     (case r0 of Inl e \<Rightarrow> Inl e | Inr _ \<Rightarrow> (case r of Inl e \<Rightarrow> Inl e | Inr _ \<Rightarrow> Inr ()), s')))"
  by (simp add: then_also_def split: prod.splits sum.splits)

lemma snd_then_also [simp]: "snd (then_also m f) = snd (f (snd m))"
  by (simp add: then_also_def split: prod.splits)

lemma then_alsoE:
  assumes "then_also m f = (Inr u, s')"
  obtains a s1 b where "m = (Inr a, s1)" and "f s1 = (Inr b, s')"
  using assms by (cases m; cases "f (snd m)") (auto simp: then_also_def split: sum.splits)

section \<open>The contract\<close>

locale redis_server =
  fixes R :: "'s redis"
    and ks :: "'s \<Rightarrow> keyspace"
    and clock :: "'s \<Rightarrow> int"
  assumes link_clock: "clock s \<le> clock (snd (LINK R s))"
    and get_doc [simp]: "fst (GET R s k) = cmd_get (clock s) (ks s k)" "ks (snd (GET R s k)) = ks s"
      "clock (snd (GET R s k)) = clock s"
    and set_doc [simp]: "fst (SET R s k v) = Inr ()" "ks (snd (SET R s k v)) = (ks s)(k := Some (RStr v, None))"
      "clock (snd (SET R s k v)) = clock s"
    and setnx_doc [simp]: "fst (SETNX R s k v ttl) = fst (cmd_setnx (clock s) v ttl (ks s k))"
      "ks (snd (SETNX R s k v ttl)) = (ks s)(k := snd (cmd_setnx (clock s) v ttl (ks s k)))"
      "clock (snd (SETNX R s k v ttl)) = clock s"
    and del_doc [simp]: "fst (DEL R s k) = Inr ()" "ks (snd (DEL R s k)) = (ks s)(k := None)"
      "clock (snd (DEL R s k)) = clock s"
    and exists_doc [simp]: "fst (EXISTS R s k) = Inr (live (clock s) (ks s k))"
      "ks (snd (EXISTS R s k)) = ks s" "clock (snd (EXISTS R s k)) = clock s"
    and hset_doc [simp]: "fst (HSET R s k fvs) = fst (cmd_hset (clock s) fvs (ks s k))"
      "ks (snd (HSET R s k fvs)) = (ks s)(k := snd (cmd_hset (clock s) fvs (ks s k)))"
      "clock (snd (HSET R s k fvs)) = clock s"
    and hgetall_doc [simp]: "fst (HGETALL R s k) = cmd_hgetall (clock s) (ks s k)"
      "ks (snd (HGETALL R s k)) = ks s" "clock (snd (HGETALL R s k)) = clock s"
    and expire_doc [simp]: "fst (EXPIRE R s k dur) = Inr ()"
      "ks (snd (EXPIRE R s k dur)) = (ks s)(k := cmd_expire (clock s) dur (ks s k))"
      "clock (snd (EXPIRE R s k dur)) = clock s"
    and zadd_doc [simp]: "fst (ZADD R s k score m) = fst (cmd_zadd (clock s) score m (ks s k))"
      "ks (snd (ZADD R s k score m)) = (ks s)(k := snd (cmd_zadd (clock s) score m (ks s k)))"
      "clock (snd (ZADD R s k score m)) = clock s"
    and zrem_doc [simp]: "fst (ZREM R s k m) = fst (cmd_zrem (clock s) m (ks s k))"
      "ks (snd (ZREM R s k m)) = (ks s)(k := snd (cmd_zrem (clock s) m (ks s k)))"
      "clock (snd (ZREM R s k m)) = clock s"
    and zrange_doc [simp]: "fst (ZRANGE R s k i j) = cmd_zrange (clock s) i j (ks s k)"
      "ks (snd (ZRANGE R s k i j)) = ks s" "clock (snd (ZRANGE R s k i j)) = clock s"
    and zrangebyscore_doc [simp]:
      "fst (ZRANGEBYSCORE R s k lo hi limit) = cmd_zrangebyscore (clock s) lo hi limit (ks s k)"
      "ks (snd (ZRANGEBYSCORE R s k lo hi limit)) = ks s"
      "clock (snd (ZRANGEBYSCORE R s k lo hi limit)) = clock s"
    and lpop_doc [simp]: "fst (LPOP R s k) = fst (cmd_lpop (clock s) (ks s k))"
      "ks (snd (LPOP R s k)) = (ks s)(k := snd (cmd_lpop (clock s) (ks s k)))"
      "clock (snd (LPOP R s k)) = clock s"
    and rpush_doc [simp]: "fst (RPUSH R s k v) = fst (cmd_rpush (clock s) v (ks s k))"
      "ks (snd (RPUSH R s k v)) = (ks s)(k := snd (cmd_rpush (clock s) v (ks s k)))"
      "clock (snd (RPUSH R s k v)) = clock s"
    and publish_doc [simp]: "fst (PUBLISH R s k v) = Inr ()" "ks (snd (PUBLISH R s k v)) = ks s"
      "clock (snd (PUBLISH R s k v)) = clock s"
    and scan_doc: "fst (SCAN R s p) = Inr names \<Longrightarrow>
        set names = {k. HasPrefix k p \<and> live (clock s) (ks s k)}"
      and scan_frame [simp]: "ks (snd (SCAN R s p)) = ks s" "clock (snd (SCAN R s p)) = clock s"
begin

text \<open>
  A successful round trip is exactly one execution of \<open>f\<close>, in the state in which the request
  reached the server.
\<close>

lemma round_trip_success:
  "fst (round_trip R f s) = Inr v \<Longrightarrow> round_trip R f s = f (snd (LINK R s))"
  by (simp add: round_trip_def Let_def split: link.splits)

text \<open>A failed one has left the state as it was on arrival or has executed \<open>f\<close> once.\<close>

lemma round_trip_state:
  "snd (round_trip R f s) = snd (LINK R s) \<or> snd (round_trip R f s) = snd (f (snd (LINK R s)))"
  by (simp add: round_trip_def Let_def split: link.splits)

text \<open>The laws once more, for a command whose result is known as a pair.\<close>

lemma GET_D: "GET R s k = (r, s') \<Longrightarrow> r = cmd_get (clock s) (ks s k) \<and> ks s' = ks s \<and> clock s' = clock s"
  by (metis get_doc fst_conv snd_conv)

lemma SET_D: "SET R s k v = (r, s') \<Longrightarrow> ks s' = (ks s)(k := Some (RStr v, None)) \<and> clock s' = clock s"
  by (metis set_doc snd_conv)

lemma SETNX_D: "SETNX R s k v ttl = (r, s') \<Longrightarrow> \<exists>e. cmd_setnx (clock s) v ttl (ks s k) = (r, e) \<and>
    ks s' = (ks s)(k := e) \<and> clock s' = clock s"
  by (metis setnx_doc fst_conv snd_conv prod.collapse)

lemma DEL_D: "DEL R s k = (r, s') \<Longrightarrow> ks s' = (ks s)(k := None) \<and> clock s' = clock s"
  by (metis del_doc snd_conv)

lemma EXISTS_D: "EXISTS R s k = (r, s') \<Longrightarrow>
    r = Inr (live (clock s) (ks s k)) \<and> ks s' = ks s \<and> clock s' = clock s"
  by (metis exists_doc fst_conv snd_conv)

lemma HSET_D: "HSET R s k fvs = (r, s') \<Longrightarrow> \<exists>e. cmd_hset (clock s) fvs (ks s k) = (r, e) \<and>
    ks s' = (ks s)(k := e) \<and> clock s' = clock s"
  by (metis hset_doc fst_conv snd_conv prod.collapse)

lemma HGETALL_D: "HGETALL R s k = (r, s') \<Longrightarrow>
    r = cmd_hgetall (clock s) (ks s k) \<and> ks s' = ks s \<and> clock s' = clock s"
  by (metis hgetall_doc fst_conv snd_conv)

lemma EXPIRE_D: "EXPIRE R s k dur = (r, s') \<Longrightarrow>
    ks s' = (ks s)(k := cmd_expire (clock s) dur (ks s k)) \<and> clock s' = clock s"
  by (metis expire_doc snd_conv)

lemma ZADD_D: "ZADD R s k sc m = (r, s') \<Longrightarrow> \<exists>e. cmd_zadd (clock s) sc m (ks s k) = (r, e) \<and>
    ks s' = (ks s)(k := e) \<and> clock s' = clock s"
  by (metis zadd_doc fst_conv snd_conv prod.collapse)

lemma ZREM_D: "ZREM R s k m = (r, s') \<Longrightarrow> \<exists>e. cmd_zrem (clock s) m (ks s k) = (r, e) \<and>
    ks s' = (ks s)(k := e) \<and> clock s' = clock s"
  by (metis zrem_doc fst_conv snd_conv prod.collapse)

lemma ZRANGE_D: "ZRANGE R s k i j = (r, s') \<Longrightarrow>
    r = cmd_zrange (clock s) i j (ks s k) \<and> ks s' = ks s \<and> clock s' = clock s"
  by (metis zrange_doc fst_conv snd_conv)

lemma ZRANGEBYSCORE_D: "ZRANGEBYSCORE R s k lo hi n = (r, s') \<Longrightarrow>
    r = cmd_zrangebyscore (clock s) lo hi n (ks s k) \<and> ks s' = ks s \<and> clock s' = clock s"
  by (metis zrangebyscore_doc fst_conv snd_conv)

lemma LPOP_D: "LPOP R s k = (r, s') \<Longrightarrow> \<exists>e. cmd_lpop (clock s) (ks s k) = (r, e) \<and>
    ks s' = (ks s)(k := e) \<and> clock s' = clock s"
  by (metis lpop_doc fst_conv snd_conv prod.collapse)

lemma RPUSH_D: "RPUSH R s k v = (r, s') \<Longrightarrow> \<exists>e. cmd_rpush (clock s) v (ks s k) = (r, e) \<and>
    ks s' = (ks s)(k := e) \<and> clock s' = clock s"
  by (metis rpush_doc fst_conv snd_conv prod.collapse)

lemma PUBLISH_D: "PUBLISH R s c v = (r, s') \<Longrightarrow> ks s' = ks s \<and> clock s' = clock s"
  by (metis publish_doc snd_conv)

lemmas cmd_D = GET_D SET_D SETNX_D DEL_D EXISTS_D HSET_D HGETALL_D EXPIRE_D ZADD_D ZREM_D ZRANGE_D
  ZRANGEBYSCORE_D LPOP_D RPUSH_D PUBLISH_D

lemma round_trip_inv:
  assumes "P (snd (LINK R s))" and "\<And>s. P s \<Longrightarrow> P (snd (f s))"
  shows "P (snd (round_trip R f s))"
  using assms round_trip_state [of f s] by metis

end

locale redis_quiet = redis_server +
  assumes link_ks [simp]: "ks (snd (LINK R s)) = ks s"
begin

text \<open>What is known after a successful call: the server ran \<open>f\<close> once, on the same key space, later.\<close>

lemma round_tripE:
  assumes "on_ok (round_trip R f s) w k = (Inr v, s')"
  obtains s0 u s1 where "ks s0 = ks s" and "clock s \<le> clock s0"
    and "f s0 = (Inr u, s1)" and "k u s1 = (Inr v, s')"
proof -
  from assms obtain u s1 where rt: "round_trip R f s = (Inr u, s1)" and k: "k u s1 = (Inr v, s')"
    by (rule on_okE)
  from rt have "round_trip R f s = f (snd (LINK R s))" by (intro round_trip_success) simp
  with rt k that [of "snd (LINK R s)" u s1] link_clock show thesis by simp
qed

lemma round_trip_read:
  assumes "\<And>s. ks (snd (f s)) = ks s"
  shows "ks (snd (round_trip R f s)) = ks s"
  using assms by (simp add: round_trip_def Let_def split: link.splits)

end

section \<open>Commands and the typed views\<close>

lemma as_zset_zrem [simp]: "as_zset t (snd (cmd_zrem t m e)) = AList.delete m (as_zset t e)"
  by (auto simp: as_zset_def cmd_zrem_def alive_def Let_def
      split: option.splits rvalue.splits prod.splits if_splits)

lemma zrem_removed: "fst (cmd_zrem t m e) = Inr b \<Longrightarrow> b \<longleftrightarrow> m \<in> fst ` set (as_zset t e)"
  by (auto simp: as_zset_def cmd_zrem_def split: option.splits rvalue.splits prod.splits)

lemma as_zset_zadd:
  "fst (cmd_zadd t sc m e) = Inr u \<Longrightarrow> as_zset t (snd (cmd_zadd t sc m e)) = AList.update m sc (as_zset t e)"
  by (auto simp: as_zset_def cmd_zadd_def alive_def
      split: option.splits rvalue.splits prod.splits if_splits)

lemma as_list_rpush:
  "fst (cmd_rpush t v e) = Inr u \<Longrightarrow> as_list t (snd (cmd_rpush t v e)) = as_list t e @ [v]"
  by (auto simp: as_list_def cmd_rpush_def alive_def
      split: option.splits rvalue.splits prod.splits if_splits)

lemma lpop_some:
  "fst (cmd_lpop t e) = Inr (Some x) \<Longrightarrow> as_list t e = x # as_list t (snd (cmd_lpop t e))"
  by (auto simp: as_list_def cmd_lpop_def alive_def
      split: option.splits rvalue.splits prod.splits if_splits list.splits)

lemma lpop_none:
  "fst (cmd_lpop t e) = Inr None \<Longrightarrow> as_list t e = [] \<and> snd (cmd_lpop t e) = e"
  by (auto simp: as_list_def cmd_lpop_def alive_def
      split: option.splits rvalue.splits prod.splits if_splits list.splits)

lemma get_ok: "cmd_get t e = Inr v \<Longrightarrow> v = as_str t e"
  by (auto simp: as_str_def cmd_get_def split: option.splits rvalue.splits prod.splits)

lemma hgetall_ok: "cmd_hgetall t e = Inr h \<Longrightarrow> h = as_hash t e"
  by (auto simp: as_hash_def cmd_hgetall_def split: option.splits rvalue.splits prod.splits)

lemma setnx_ok:
  "fst (cmd_setnx t v ttl e) = Inr b \<Longrightarrow> b \<longleftrightarrow> alive t e = None"
  "fst (cmd_setnx t v ttl e) = Inr False \<Longrightarrow> snd (cmd_setnx t v ttl e) = e"
  "fst (cmd_setnx t v ttl e) = Inr True \<Longrightarrow> snd (cmd_setnx t v ttl e) = Some (RStr v, ttl_deadline t ttl)"
  by (auto simp: cmd_setnx_def split: option.splits if_splits)

lemma as_str_fresh [simp]: "as_str t (Some (RStr v, ttl_deadline t ttl)) = Some v"
  by (auto simp: as_str_def ttl_deadline_def)

lemma map_of_hset_all:
  "distinct (map fst fvs) \<Longrightarrow> map_of (hset_all fvs h) = map_of h ++ map_of fvs"
proof (induction fvs arbitrary: h)
  case Nil
  then show ?case by (simp add: hset_all_def)
next
  case (Cons fv fvs)
  obtain f v where fv: "fv = (f, v)" by (cases fv)
  have "hset_all (fv # fvs) h = hset_all fvs (AList.update f v h)" by (simp add: hset_all_def fv)
  then have "map_of (hset_all (fv # fvs) h) = (map_of h)(f \<mapsto> v) ++ map_of fvs"
    using Cons by (simp add: fv update_conv')
  moreover have "f \<notin> dom (map_of fvs)" using Cons.prems fv by (simp add: dom_map_of_conv_image_fst)
  ultimately show ?case by (auto simp: fv map_add_def fun_eq_iff split: option.splits)
qed

lemma as_hash_hset:
  "fst (cmd_hset t fvs e) = Inr u \<Longrightarrow> as_hash t (snd (cmd_hset t fvs e)) = hset_all fvs (as_hash t e)"
  by (auto simp: as_hash_def cmd_hset_def alive_def
      split: option.splits rvalue.splits prod.splits if_splits)

lemma hset_alive:
  "fst (cmd_hset t fvs e) = Inr u \<Longrightarrow>
     alive t (snd (cmd_hset t fvs e)) = snd (cmd_hset t fvs e) \<and>
     (\<exists>d. snd (cmd_hset t fvs e) = Some (RHash (hset_all fvs (as_hash t e)), d) \<and>
       d = (if alive t e = None then None else deadline e))"
  by (auto simp: as_hash_def cmd_hset_def alive_def deadline_def
      split: option.splits rvalue.splits prod.splits if_splits)

context redis_server begin

lemma on_HGETALL_E:
  assumes "on_ok (HGETALL R s k) w f = (Inr v, s')"
  obtains s1 where "ks s1 = ks s" and "clock s1 = clock s" and "f (as_hash (clock s) (ks s k)) s1 = (Inr v, s')"
  using assms by (elim on_okE) (auto dest!: HGETALL_D dest: hgetall_ok [OF sym])

lemma on_ZREM_E:
  assumes "on_ok (ZREM R s k m) w f = (Inr v, s')"
  obtains s1 where "ks s1 = (ks s)(k := snd (cmd_zrem (clock s) m (ks s k)))" and "clock s1 = clock s"
    and "f (m \<in> fst ` set (as_zset (clock s) (ks s k))) s1 = (Inr v, s')"
  using assms
proof (rule on_okE)
  fix b s1
  assume z: "ZREM R s k m = (Inr b, s1)" and f: "f b s1 = (Inr v, s')"
  from ZREM_D [OF z] obtain e where e: "cmd_zrem (clock s) m (ks s k) = (Inr b, e)"
    "ks s1 = (ks s)(k := e)" "clock s1 = clock s" by blast
  have "b = (m \<in> fst ` set (as_zset (clock s) (ks s k)))"
    by (rule zrem_removed [where e = "ks s k"]) (simp add: e)
  with f e show thesis by (intro that [of s1]) simp_all
qed

end

section \<open>A reference server\<close>

text \<open>
  An executable server that satisfies the contract: it keeps the entries in an association
  list and reads the fate and the duration of each round trip from a script. It plays the
  part that the in-process \<^verbatim>\<open>miniredis\<close> plays in the repository's own tests, and the concrete
  instances of the properties run on it.
\<close>

record mem =
  m_db :: "(string \<times> entry) list"
  m_clock :: int
  m_links :: "(link \<times> int) list"

definition mem_ks :: "mem \<Rightarrow> keyspace" where
  "mem_ks m = map_of (m_db m)"

definition put_entry :: "string \<Rightarrow> entry option \<Rightarrow> (string \<times> entry) list \<Rightarrow> (string \<times> entry) list" where
  "put_entry k e db = (case e of None \<Rightarrow> AList.delete k db | Some v \<Rightarrow> AList.update k v db)"

definition mem_write :: "mem \<Rightarrow> string \<Rightarrow> (int \<Rightarrow> entry option \<Rightarrow> 'a res \<times> entry option) \<Rightarrow> 'a res \<times> mem" where
  "mem_write m k f =
     (let (r, e) = f (m_clock m) (mem_ks m k) in (r, m\<lparr>m_db := put_entry k e (m_db m)\<rparr>))"

definition mem_read :: "mem \<Rightarrow> string \<Rightarrow> (int \<Rightarrow> entry option \<Rightarrow> 'a res) \<Rightarrow> 'a res \<times> mem" where
  "mem_read m k f = (f (m_clock m) (mem_ks m k), m)"

definition mem_link :: "mem \<Rightarrow> link \<times> mem" where
  "mem_link m = (case m_links m of [] \<Rightarrow> (Delivered, m)
     | (l, dt) # ls \<Rightarrow> (l, m\<lparr>m_links := ls, m_clock := m_clock m + max 0 dt\<rparr>))"

definition mem_GET where "mem_GET m k = mem_read m k cmd_get"
definition mem_SET where "mem_SET m k v = mem_write m k (\<lambda>t e. (Inr (), Some (RStr v, None)))"
definition mem_SETNX where "mem_SETNX m k v ttl = mem_write m k (\<lambda>t. cmd_setnx t v ttl)"
definition mem_DEL where "mem_DEL m k = mem_write m k (\<lambda>t e. (Inr (), None))"
definition mem_EXISTS where "mem_EXISTS m k = mem_read m k (\<lambda>t e. Inr (live t e))"
definition mem_HSET where "mem_HSET m k fvs = mem_write m k (\<lambda>t. cmd_hset t fvs)"
definition mem_HGETALL where "mem_HGETALL m k = mem_read m k cmd_hgetall"
definition mem_EXPIRE where "mem_EXPIRE m k dur = mem_write m k (\<lambda>t e. (Inr (), cmd_expire t dur e))"
definition mem_ZADD where "mem_ZADD m k score mb = mem_write m k (\<lambda>t. cmd_zadd t score mb)"
definition mem_ZREM where "mem_ZREM m k mb = mem_write m k (\<lambda>t. cmd_zrem t mb)"
definition mem_ZRANGE where "mem_ZRANGE m k i j = mem_read m k (\<lambda>t. cmd_zrange t i j)"
definition mem_ZRANGEBYSCORE where
  "mem_ZRANGEBYSCORE m k lo hi limit = mem_read m k (\<lambda>t. cmd_zrangebyscore t lo hi limit)"
definition mem_LPOP where "mem_LPOP m k = mem_write m k cmd_lpop"
definition mem_RPUSH where "mem_RPUSH m k v = mem_write m k (\<lambda>t. cmd_rpush t v)"
definition mem_PUBLISH :: "mem \<Rightarrow> string \<Rightarrow> string \<Rightarrow> unit res \<times> mem" where "mem_PUBLISH m k v = (Inr (), m)"
definition mem_SCAN :: "mem \<Rightarrow> string \<Rightarrow> string list res \<times> mem" where
  "mem_SCAN m p = (Inr (filter (\<lambda>k. HasPrefix k p \<and> live (m_clock m) (mem_ks m k)) (remdups (map fst (m_db m)))), m)"

lemmas mem_cmd_defs = mem_GET_def mem_SET_def mem_SETNX_def mem_DEL_def mem_EXISTS_def mem_HSET_def
  mem_HGETALL_def mem_EXPIRE_def mem_ZADD_def mem_ZREM_def mem_ZRANGE_def mem_ZRANGEBYSCORE_def
  mem_LPOP_def mem_RPUSH_def mem_PUBLISH_def mem_SCAN_def

definition mem_redis :: "mem redis" where
  "mem_redis = \<lparr>LINK = mem_link, GET = mem_GET, SET = mem_SET, SETNX = mem_SETNX, DEL = mem_DEL,
     EXISTS = mem_EXISTS, HSET = mem_HSET, HGETALL = mem_HGETALL, EXPIRE = mem_EXPIRE, ZADD = mem_ZADD,
     ZREM = mem_ZREM, ZRANGE = mem_ZRANGE, ZRANGEBYSCORE = mem_ZRANGEBYSCORE, LPOP = mem_LPOP,
     RPUSH = mem_RPUSH, PUBLISH = mem_PUBLISH, SCAN = mem_SCAN\<rparr>"

lemma map_of_put_entry: "map_of (put_entry k e db) = (map_of db)(k := e)"
  by (cases e) (simp_all add: put_entry_def update_conv' delete_conv')

lemma mem_write_simps [simp]:
  "fst (mem_write m k f) = fst (f (m_clock m) (mem_ks m k))"
  "mem_ks (snd (mem_write m k f)) = (mem_ks m)(k := snd (f (m_clock m) (mem_ks m k)))"
  "m_clock (snd (mem_write m k f)) = m_clock m"
  by (simp_all add: mem_write_def mem_ks_def map_of_put_entry split_beta)

lemma mem_read_simps [simp]:
  "fst (mem_read m k f) = f (m_clock m) (mem_ks m k)" "snd (mem_read m k f) = m"
  by (simp_all add: mem_read_def)

lemma mem_link_simps [simp]:
  "mem_ks (snd (mem_link m)) = mem_ks m" "m_clock m \<le> m_clock (snd (mem_link m))"
  by (simp_all add: mem_link_def mem_ks_def split: list.splits)

interpretation mem: redis_quiet mem_redis mem_ks m_clock
proof unfold_locales
  fix s p names
  assume "fst (SCAN mem_redis s p) = Inr names"
  then have "names = filter (\<lambda>k. HasPrefix k p \<and> live (m_clock s) (mem_ks s k))
      (remdups (map fst (m_db s)))"
    by (simp add: mem_redis_def mem_SCAN_def)
  moreover have "k \<in> fst ` set (m_db s)" if "live (m_clock s) (mem_ks s k)" for k
    using that by (cases "mem_ks s k") (auto simp: live_def mem_ks_def dest!: map_of_SomeD intro: rev_image_eqI)
  ultimately show "set names = {k. HasPrefix k p \<and> live (m_clock s) (mem_ks s k)}"
    by (auto simp: image_iff)
qed (simp_all add: mem_redis_def mem_cmd_defs)


end
