(* ===== verification/Inflight_Store.thy ===== *)
theory Inflight_Store
  imports Redis_Keys Redis_Server
begin

text \<open>
  Package \<^verbatim>\<open>internal/redis\<close>: the in-flight records (\<^verbatim>\<open>inflight.go\<close>), the pending offsets,
  watermarks and FIFO locks (\<^verbatim>\<open>watermark.go\<close>), deduplication (\<^verbatim>\<open>dedup.go\<close>), the redelivery
  list and the two Lua scripts (\<^verbatim>\<open>reaper.go\<close>, \<^verbatim>\<open>lua/ack.lua\<close>, \<^verbatim>\<open>lua/reap.lua\<close>). Each Go function is
  one definition over the Redis parameter \<open>R\<close> and a server state; the reading of the local
  clock, \<^verbatim>\<open>time.Now()\<close>, is the argument \<open>now\<close>. The scripts run inside the server: their
  \<^verbatim>\<open>redis.call\<close>s are commands without a round trip of their own, and an error raised by a
  call ends the script with the effects so far in place.
\<close>

section \<open>In-flight records\<close>

record InFlightRecord =
  ifr_ShardID :: string
  ifr_Topic :: string
  ifr_Partition :: int
  ifr_Offset :: int
  ifr_GroupID :: string
  ifr_DedupID :: string
  ifr_ReceiveCount :: int
  ifr_Body :: string

definition inflight_fields :: "InFlightRecord \<Rightarrow> (string \<times> string) list" where
  "inflight_fields rec =
     [(''shardId'', ifr_ShardID rec), (''topic'', ifr_Topic rec),
      (''partition'', FormatInt (ifr_Partition rec)), (''offset'', FormatInt (ifr_Offset rec)),
      (''groupId'', ifr_GroupID rec), (''dedupId'', ifr_DedupID rec),
      (''receiveCount'', FormatInt (ifr_ReceiveCount rec)), (''body'', ifr_Body rec)]"

definition PutInFlight :: "'s redis \<Rightarrow> string \<Rightarrow> string \<Rightarrow> InFlightRecord \<Rightarrow> duration \<Rightarrow> time \<Rightarrow> 's \<Rightarrow> unit res \<times> 's" where
  "PutInFlight R queue receiptHandle rec visibilityTimeout now s =
     (let key = InFlightKey queue receiptHandle;
          visibleAt = now + visibilityTimeout in
      on_ok (round_trip R (\<lambda>s.
               then_also (then_also (HSET R s key (inflight_fields rec))
                 (\<lambda>s. EXPIRE R s key (visibilityTimeout + Minute)))
                 (\<lambda>s. ZADD R s (VisIndexKey queue) (float64 (UnixMilli visibleAt)) receiptHandle)) s)
        (wrapf (''put in-flight '' @ receiptHandle))
        (\<lambda>_ s. (Inr (), s)))"

text \<open>A missing key of a Go map reads as the empty string.\<close>

definition map_field :: "(string \<times> string) list \<Rightarrow> string \<Rightarrow> string" where
  "map_field m f = (case map_of m f of Some v \<Rightarrow> v | None \<Rightarrow> '''')"

definition decode_inflight :: "(string \<times> string) list \<Rightarrow> InFlightRecord" where
  "decode_inflight m = \<lparr>
     ifr_ShardID = map_field m ''shardId'', ifr_Topic = map_field m ''topic'',
     ifr_Partition = fst (ParseInt 32 (map_field m ''partition'')),
     ifr_Offset = fst (ParseInt 64 (map_field m ''offset'')),
     ifr_GroupID = map_field m ''groupId'', ifr_DedupID = map_field m ''dedupId'',
     ifr_ReceiveCount = fst (ParseInt 32 (map_field m ''receiveCount'')),
     ifr_Body = map_field m ''body''\<rparr>"

definition GetInFlight :: "'s redis \<Rightarrow> string \<Rightarrow> string \<Rightarrow> 's \<Rightarrow> InFlightRecord option res \<times> 's" where
  "GetInFlight R queue receiptHandle s =
     on_ok (round_trip R (\<lambda>s. HGETALL R s (InFlightKey queue receiptHandle)) s)
       (wrapf (''get in-flight '' @ receiptHandle))
       (\<lambda>m s. if m = [] then (Inr None, s) else (Inr (Some (decode_inflight m)), s))"

definition ExtendVisibility :: "'s redis \<Rightarrow> string \<Rightarrow> string \<Rightarrow> duration \<Rightarrow> time \<Rightarrow> 's \<Rightarrow> bool res \<times> 's" where
  "ExtendVisibility R queue receiptHandle newTimeout now s =
     on_ok (round_trip R (\<lambda>s. EXISTS R s (InFlightKey queue receiptHandle)) s)
       (wrapf (''extend visibility '' @ receiptHandle))
       (\<lambda>ex s. if \<not> ex then (Inr False, s)
         else on_ok (round_trip R (\<lambda>s. ZADD R s (VisIndexKey queue)
                       (float64 (UnixMilli (now + newTimeout))) receiptHandle) s)
           (wrapf (''extend visibility '' @ receiptHandle))
           (\<lambda>_ s. (Inr True, s)))"

section \<open>Pending offsets, watermarks, FIFO locks, deduplication\<close>

definition AddPending :: "'s redis \<Rightarrow> string \<Rightarrow> string \<Rightarrow> int \<Rightarrow> int \<Rightarrow> 's \<Rightarrow> unit res \<times> 's" where
  "AddPending R queue shardID part offset s =
     (let key = PendingKey queue shardID part in
      on_ok (round_trip R (\<lambda>s. ZADD R s key (float64 offset) (FormatInt offset)) s)
        (wrapf (''add pending '' @ key)) (\<lambda>_ s. (Inr (), s)))"

definition MinPending :: "'s redis \<Rightarrow> string \<Rightarrow> string \<Rightarrow> int \<Rightarrow> 's \<Rightarrow> int option res \<times> 's" where
  "MinPending R queue shardID part s =
     on_ok (round_trip R (\<lambda>s. ZRANGE R s (PendingKey queue shardID part) 0 0) s)
       (wrapf (''min pending '' @ PendingKey queue shardID part))
       (\<lambda>r s. case r of [] \<Rightarrow> (Inr None, s) | (m, score) # _ \<Rightarrow> (Inr (Some score), s))"

definition SetWatermark :: "'s redis \<Rightarrow> string \<Rightarrow> string \<Rightarrow> int \<Rightarrow> int \<Rightarrow> 's \<Rightarrow> unit res \<times> 's" where
  "SetWatermark R queue shardID part offset s =
     (let key = WatermarkKey queue shardID part in
      on_ok (round_trip R (\<lambda>s. SET R s key (FormatInt offset)) s)
        (wrapf (''set watermark '' @ key)) (\<lambda>_ s. (Inr (), s)))"

definition GetWatermark :: "'s redis \<Rightarrow> string \<Rightarrow> string \<Rightarrow> int \<Rightarrow> 's \<Rightarrow> int option res \<times> 's" where
  "GetWatermark R queue shardID part s =
     (let key = WatermarkKey queue shardID part in
      on_ok (round_trip R (\<lambda>s. GET R s key) s) (wrapf (''get watermark '' @ key))
        (\<lambda>v s. case v of
           None \<Rightarrow> (Inr None, s)
         | Some v \<Rightarrow> (case ParseInt 64 v of
             (n, None) \<Rightarrow> (Inr (Some n), s)
           | (n, Some e) \<Rightarrow> (Inl (wrapf (''parse watermark '' @ key) (NumError ''ParseInt'' v e)), s))))"

definition AcquireFIFOLock :: "'s redis \<Rightarrow> string \<Rightarrow> string \<Rightarrow> string \<Rightarrow> duration \<Rightarrow> 's \<Rightarrow> bool res \<times> 's" where
  "AcquireFIFOLock R queue groupID receiptHandle ttl s =
     on_ok (round_trip R (\<lambda>s. SETNX R s (FIFOLockKey queue groupID) receiptHandle ttl) s)
       (wrapf (''acquire fifo lock '' @ groupID)) (\<lambda>ok s. (Inr ok, s))"

definition TryDedup :: "'s redis \<Rightarrow> string \<Rightarrow> string \<Rightarrow> string \<Rightarrow> duration \<Rightarrow> 's \<Rightarrow> bool res \<times> 's" where
  "TryDedup R queue groupID dedupID window s =
     on_ok (round_trip R (\<lambda>s. SETNX R s (DedupKey queue groupID dedupID) ''1'' window) s)
       (wrapf (''dedup check '' @ groupID @ ''/'' @ dedupID)) (\<lambda>ok s. (Inr ok, s))"

section \<open>The Lua scripts\<close>

definition lua_error :: "string \<Rightarrow> go_error" where
  "lua_error what = ErrText (''ERR user_script: '' @ what)"

text \<open>
  The block both scripts share: release the group's FIFO lock if this receipt handle holds
  it. An absent group id reads as nil, which is false.
\<close>

definition release_lock_lua :: "'s redis \<Rightarrow> string \<Rightarrow> (string \<rightharpoonup> string) \<Rightarrow> string \<Rightarrow> 's \<Rightarrow> unit res \<times> 's" where
  "release_lock_lua R queueName m handle s =
     (case m ''groupId'' of
        None \<Rightarrow> (Inr (), s)
      | Some groupId \<Rightarrow>
          if groupId = '''' then (Inr (), s)
          else let lockKey = ''kmsvc:fifo_lock:'' @ queueName @ '':'' @ groupId in
            on_ok (GET R s lockKey) id (\<lambda>lockVal s.
              if lockVal = Some handle then on_ok (DEL R s lockKey) id (\<lambda>_ s. (Inr (), s))
              else (Inr (), s)))"

text \<open>
  \<^verbatim>\<open>ack.lua\<close>. The table \<open>m\<close> is the reply of \<^verbatim>\<open>HGETALL\<close>, which lists each field once; joining a
  nil field into a key, or passing it to \<^verbatim>\<open>ZREM\<close>, raises.
\<close>

definition ack_lua :: "'s redis \<Rightarrow> string \<Rightarrow> string \<Rightarrow> string \<Rightarrow> string \<Rightarrow> 's \<Rightarrow> string list res \<times> 's" where
  "ack_lua R inflightKey visKey handle queueName s =
     on_ok (HGETALL R s inflightKey) id (\<lambda>inflight s.
       if inflight = [] then (Inr [''not_found''], s)
       else let m = map_of inflight in
         on_ok (ZREM R s visKey handle) id (\<lambda>_ s.
           case (m ''shardId'', m ''partition'', m ''offset'') of
             (Some shardId, Some part, Some off) \<Rightarrow>
               (let pendingKey = ''kmsvc:pending:'' @ queueName @ '':'' @ shardId @ '':'' @ part in
                on_ok (ZREM R s pendingKey off) id (\<lambda>_ s.
                on_ok (DEL R s inflightKey) id (\<lambda>_ s.
                on_ok (release_lock_lua R queueName m handle s) id (\<lambda>_ s.
                  (Inr [''acked''], s)))))
           | _ \<Rightarrow> (Inl (lua_error ''nil field''), s)))"

text \<open>
  \<^verbatim>\<open>tonumber\<close> on the strings the program writes, which print integers; on anything else the
  script has no number and its comparison raises.
\<close>

definition lua_tonumber :: "string \<Rightarrow> int option" where
  "lua_tonumber v = (case ParseInt 64 v of (n, None) \<Rightarrow> Some n | _ \<Rightarrow> None)"

definition lua_or :: "(string \<rightharpoonup> string) \<Rightarrow> string \<Rightarrow> string \<Rightarrow> string" where
  "lua_or m f d = (case m f of Some v \<Rightarrow> v | None \<Rightarrow> d)"

text \<open>
  \<^verbatim>\<open>reap.lua\<close>. \<open>reap_decide\<close> is the part after the table \<open>m\<close> has been filled: release the lock,
  then dead-letter or redeliver.
\<close>

definition reap_decide :: "'s redis \<Rightarrow> string \<Rightarrow> string \<Rightarrow> string \<Rightarrow> string \<Rightarrow> (string \<rightharpoonup> string) \<Rightarrow> 's \<Rightarrow> string list res \<times> 's" where
  "reap_decide R inflightKey handle maxArg queueName m s =
     on_ok (release_lock_lua R queueName m handle s) id (\<lambda>_ s.
       case (lua_tonumber (lua_or m ''receiveCount'' ''0''), lua_tonumber maxArg) of
         (Some receiveCount, Some maxReceive) \<Rightarrow>
           if maxReceive \<le> receiveCount then
             (case (m ''shardId'', m ''partition'', m ''offset'') of
                (Some shardId, Some part, Some off) \<Rightarrow>
                  (let pendingKey = ''kmsvc:pending:'' @ queueName @ '':'' @ shardId @ '':'' @ part in
                   on_ok (ZREM R s pendingKey off) id (\<lambda>_ s.
                   on_ok (DEL R s inflightKey) id (\<lambda>_ s.
                     (Inr [''dlq'', lua_or m ''topic'' '''', shardId, part, off,
                           lua_or m ''body'' '''', lua_or m ''groupId'' '''', lua_or m ''dedupId'' ''''], s))))
              | _ \<Rightarrow> (Inl (lua_error ''nil field''), s))
           else
             on_ok (HSET R s inflightKey [(''receiveCount'', FormatInt (receiveCount + 1))]) id (\<lambda>_ s.
             on_ok (RPUSH R s (''kmsvc:redeliver:'' @ queueName) handle) id (\<lambda>_ s.
               (Inr [''redeliver'', handle, FormatInt (receiveCount + 1)], s)))
       | _ \<Rightarrow> (Inl (lua_error ''compare number with nil''), s))"

definition reap_lua :: "'s redis \<Rightarrow> string \<Rightarrow> string \<Rightarrow> string \<Rightarrow> string \<Rightarrow> string \<Rightarrow> 's \<Rightarrow> string list res \<times> 's" where
  "reap_lua R inflightKey visKey handle maxArg queueName s =
     on_ok (ZREM R s visKey handle) id (\<lambda>removed s.
       if \<not> removed then (Inr [''gone''], s)
       else on_ok (HGETALL R s inflightKey) id (\<lambda>inflight s.
         if inflight = [] then (Inr [''gone''], s)
         else reap_decide R inflightKey handle maxArg queueName (map_of inflight) s))"

section \<open>Reap, Ack and the redelivery list\<close>

datatype ReapOutcome = ReapOutcomeGone | ReapOutcomeDLQ | ReapOutcomeRedeliver

record ReapResult =
  rr_Outcome :: ReapOutcome
  rr_Topic :: string
  rr_ShardID :: string
  rr_Partition :: int
  rr_Offset :: int
  rr_Body :: string
  rr_GroupID :: string
  rr_DedupID :: string
  rr_ReceiveCount :: int

definition zero_ReapResult :: ReapResult where
  "zero_ReapResult = \<lparr>rr_Outcome = ReapOutcomeGone, rr_Topic = '''', rr_ShardID = '''', rr_Partition = 0,
     rr_Offset = 0, rr_Body = '''', rr_GroupID = '''', rr_DedupID = '''', rr_ReceiveCount = 0\<rparr>"

text \<open>The decoding of the script's reply; an index outside the reply would panic.\<close>

definition index_panic :: go_error where
  "index_panic = ErrText ''runtime error: index out of range''"

definition decode_reap :: "string \<Rightarrow> string list \<Rightarrow> ReapResult res" where
  "decode_reap handle res =
     (if res = [] \<or> res ! 0 = ''gone'' then Inr zero_ReapResult
      else if res ! 0 = ''dlq'' then
        (if length res < 8 then Inl index_panic
         else Inr (zero_ReapResult\<lparr>rr_Outcome := ReapOutcomeDLQ, rr_Topic := res ! 1, rr_ShardID := res ! 2,
           rr_Partition := fst (ParseInt 32 (res ! 3)), rr_Offset := fst (ParseInt 64 (res ! 4)),
           rr_Body := res ! 5, rr_GroupID := res ! 6, rr_DedupID := res ! 7\<rparr>))
      else if res ! 0 = ''redeliver'' then
        (if length res < 3 then Inl index_panic
         else Inr (zero_ReapResult\<lparr>rr_Outcome := ReapOutcomeRedeliver,
           rr_ReceiveCount := fst (ParseInt 32 (res ! 2))\<rparr>))
      else Inl (ErrText (''reap '' @ handle @ '': unexpected outcome '' @ Quote (res ! 0))))"

definition Reap :: "'s redis \<Rightarrow> string \<Rightarrow> string \<Rightarrow> int \<Rightarrow> 's \<Rightarrow> ReapResult res \<times> 's" where
  "Reap R queue receiptHandle maxReceiveCount s =
     on_ok (round_trip R (reap_lua R (InFlightKey queue receiptHandle) (VisIndexKey queue)
              receiptHandle (FormatInt maxReceiveCount) queue) s)
       (wrapf (''reap '' @ receiptHandle))
       (\<lambda>res s. (decode_reap receiptHandle res, s))"

definition Ack :: "'s redis \<Rightarrow> string \<Rightarrow> string \<Rightarrow> 's \<Rightarrow> string res \<times> 's" where
  "Ack R queue receiptHandle s =
     on_ok (round_trip R (ack_lua R (InFlightKey queue receiptHandle) (VisIndexKey queue)
              receiptHandle queue) s)
       (wrapf (''ack '' @ receiptHandle))
       (\<lambda>res s. (Inr (case res of [] \<Rightarrow> ''not_found'' | r # _ \<Rightarrow> r), s))"

definition ExpiredVisIndexEntries :: "'s redis \<Rightarrow> string \<Rightarrow> nat \<Rightarrow> time \<Rightarrow> 's \<Rightarrow> string list res \<times> 's" where
  "ExpiredVisIndexEntries R queue limit now s =
     on_ok (round_trip R (\<lambda>s. ZRANGEBYSCORE R s (VisIndexKey queue) 0 (UnixMilli now) limit) s)
       (wrapf (''expired vis index '' @ queue)) (\<lambda>handles s. (Inr handles, s))"

definition PopRedeliverable :: "'s redis \<Rightarrow> string \<Rightarrow> 's \<Rightarrow> string option res \<times> 's" where
  "PopRedeliverable R queue s =
     on_ok (round_trip R (\<lambda>s. LPOP R s (RedeliverKey queue)) s)
       (wrapf (''pop redeliverable '' @ queue)) (\<lambda>v s. (Inr v, s))"

definition PushRedeliverable :: "'s redis \<Rightarrow> string \<Rightarrow> string \<Rightarrow> 's \<Rightarrow> unit res \<times> 's" where
  "PushRedeliverable R queue receiptHandle s =
     on_ok (round_trip R (\<lambda>s. RPUSH R s (RedeliverKey queue) receiptHandle) s)
       (wrapf (''push redeliverable '' @ queue)) (\<lambda>_ s. (Inr (), s))"

section \<open>What the store holds for a message\<close>

text \<open>
  \<open>holds_record t ks q h rec\<close>: at time \<open>t\<close> the store has a live in-flight hash for handle
  \<open>h\<close> whose eight fields print \<open>rec\<close>.
\<close>

definition holds_record :: "int \<Rightarrow> keyspace \<Rightarrow> string \<Rightarrow> string \<Rightarrow> InFlightRecord \<Rightarrow> bool" where
  "holds_record t ks q h rec =
     list_all (\<lambda>(f, v). map_of (as_hash t (ks (InFlightKey q h))) f = Some v) (inflight_fields rec)"

text \<open>The integers of the record fit their Go types.\<close>

definition record_in_range :: "InFlightRecord \<Rightarrow> bool" where
  "record_in_range rec = (int_in_bits 32 (ifr_Partition rec) \<and> int_in_bits 64 (ifr_Offset rec) \<and>
     int_in_bits 32 (ifr_ReceiveCount rec))"

lemma holds_record_fields:
  assumes "holds_record t ks q h rec"
  defines "m \<equiv> map_of (as_hash t (ks (InFlightKey q h)))"
  shows "m ''shardId'' = Some (ifr_ShardID rec)" "m ''topic'' = Some (ifr_Topic rec)"
    "m ''partition'' = Some (FormatInt (ifr_Partition rec))" "m ''offset'' = Some (FormatInt (ifr_Offset rec))"
    "m ''groupId'' = Some (ifr_GroupID rec)" "m ''dedupId'' = Some (ifr_DedupID rec)"
    "m ''receiveCount'' = Some (FormatInt (ifr_ReceiveCount rec))" "m ''body'' = Some (ifr_Body rec)"
    "as_hash t (ks (InFlightKey q h)) \<noteq> []"
proof -
  show "m ''shardId'' = Some (ifr_ShardID rec)" "m ''topic'' = Some (ifr_Topic rec)"
    "m ''partition'' = Some (FormatInt (ifr_Partition rec))" "m ''offset'' = Some (FormatInt (ifr_Offset rec))"
    "m ''groupId'' = Some (ifr_GroupID rec)" "m ''dedupId'' = Some (ifr_DedupID rec)"
    "m ''receiveCount'' = Some (FormatInt (ifr_ReceiveCount rec))" "m ''body'' = Some (ifr_Body rec)"
    using assms by (simp_all add: holds_record_def inflight_fields_def)
  then show "as_hash t (ks (InFlightKey q h)) \<noteq> []" unfolding m_def by auto
qed

lemma decode_inflight_holds:
  assumes "holds_record t ks q h rec" and "record_in_range rec"
  shows "decode_inflight (as_hash t (ks (InFlightKey q h))) = rec"
  using holds_record_fields [OF assms(1)] assms(2)
  by (simp add: decode_inflight_def map_field_def record_in_range_def ParseInt_FormatInt)

lemma inflight_fields_distinct: "distinct (map fst (inflight_fields rec))"
  by (simp add: inflight_fields_def)

lemma holds_record_alive: "holds_record t ks q h rec \<Longrightarrow> alive t (ks (InFlightKey q h)) \<noteq> None"
  by (drule holds_record_fields(9)) (auto simp: as_hash_def split: option.splits)

lemma holds_record_cong:
  "ks' (InFlightKey q h) = ks (InFlightKey q h) \<Longrightarrow> holds_record t ks' q h rec = holds_record t ks q h rec"
  by (simp add: holds_record_def)

text \<open>The key-space effect of releasing a lock, acknowledging, redelivering and dead-lettering.\<close>

definition unlock :: "int \<Rightarrow> string \<Rightarrow> string \<Rightarrow> string \<Rightarrow> keyspace \<Rightarrow> keyspace" where
  "unlock t q g h ks =
     (if g \<noteq> '''' \<and> as_str t (ks (FIFOLockKey q g)) = Some h then ks(FIFOLockKey q g := None) else ks)"

definition zset_remove :: "int \<Rightarrow> string \<Rightarrow> string \<Rightarrow> keyspace \<Rightarrow> keyspace" where
  "zset_remove t k m ks = ks(k := snd (cmd_zrem t m (ks k)))"

definition settle :: "int \<Rightarrow> string \<Rightarrow> string \<Rightarrow> InFlightRecord \<Rightarrow> keyspace \<Rightarrow> keyspace" where
  "settle t q h rec ks =
     (zset_remove t (PendingKey q (ifr_ShardID rec) (ifr_Partition rec)) (FormatInt (ifr_Offset rec))
       (zset_remove t (VisIndexKey q) h ks))(InFlightKey q h := None)"

lemma unlock_other: "k \<noteq> FIFOLockKey q g \<Longrightarrow> unlock t q g h ks k = ks k"
  by (simp add: unlock_def)

lemma unlock_lock: "g \<noteq> '''' \<Longrightarrow> as_str t (unlock t q g h ks (FIFOLockKey q g)) \<noteq> Some h"
  by (auto simp: unlock_def as_str_def)

lemma zset_remove_simps [simp]:
  "zset_remove t k m ks k = snd (cmd_zrem t m (ks k))"
  "k' \<noteq> k \<Longrightarrow> zset_remove t k m ks k' = ks k'"
  by (simp_all add: zset_remove_def)

lemma settle_simps [simp]:
  "settle t q h rec ks (InFlightKey q h) = None"
  "settle t q h rec ks (VisIndexKey q) = snd (cmd_zrem t h (ks (VisIndexKey q)))"
  "settle t q h rec ks (PendingKey q (ifr_ShardID rec) (ifr_Partition rec)) =
     snd (cmd_zrem t (FormatInt (ifr_Offset rec)) (ks (PendingKey q (ifr_ShardID rec) (ifr_Partition rec))))"
  "k \<noteq> InFlightKey q h \<Longrightarrow> k \<noteq> VisIndexKey q \<Longrightarrow> k \<noteq> PendingKey q (ifr_ShardID rec) (ifr_Partition rec) \<Longrightarrow>
     settle t q h rec ks k = ks k"
  by (simp_all add: settle_def)

text \<open>The entry left by a redelivery: the same record with its receive count raised by one.\<close>

definition requeue :: "int \<Rightarrow> string \<Rightarrow> string \<Rightarrow> InFlightRecord \<Rightarrow> keyspace \<Rightarrow> keyspace" where
  "requeue t q h rec ks =
     ks(InFlightKey q h := snd (cmd_hset t [(''receiveCount'', FormatInt (ifr_ReceiveCount rec + 1))] (ks (InFlightKey q h))),
        RedeliverKey q := snd (cmd_rpush t h (ks (RedeliverKey q))))"

lemma settle_unlock: "unlock t q g h (settle t q h' rec ks) = settle t q h' rec (unlock t q g h ks)"
  by (auto simp: unlock_def settle_def zset_remove_def fun_eq_iff)

context redis_server begin

section \<open>The scripts, as effects on the key space\<close>

lemma release_lock_lua_ok:
  assumes "release_lock_lua R q m h s = (Inr u, s')"
  shows "clock s' = clock s \<and> ks s' = unlock (clock s) q (lua_or m ''groupId'' '''') h (ks s)"
  using assms unfolding release_lock_lua_def Let_def
  by (auto simp: lua_or_def unlock_def FIFOLockKey_def [symmetric, simplified]
      elim!: on_okE dest!: cmd_D dest: get_ok [OF sym] split: option.splits if_splits)

lemma ack_lua_ok:
  assumes "ack_lua R (InFlightKey q h) (VisIndexKey q) h q s = (Inr res, s')"
    and rec: "holds_record (clock s) (ks s) q h rec"
  shows "clock s' = clock s \<and> res = [''acked''] \<and>
    ks s' = unlock (clock s) q (ifr_GroupID rec) h (settle (clock s) q h rec (ks s))"
  using assms(1) unfolding ack_lua_def Let_def
  by (elim on_HGETALL_E)
     (auto simp: holds_record_fields [OF rec] PendingKey_def [symmetric, simplified] settle_def
        zset_remove_def lua_or_def elim!: on_ZREM_E on_okE dest!: cmd_D release_lock_lua_ok)

lemma ack_lua_not_found:
  assumes "ack_lua R (InFlightKey q h) (VisIndexKey q) h q s = (Inr res, s')"
    and "as_hash (clock s) (ks s (InFlightKey q h)) = []"
  shows "clock s' = clock s \<and> res = [''not_found''] \<and> ks s' = ks s"
  using assms unfolding ack_lua_def Let_def by (elim on_HGETALL_E) auto

lemma reap_lua_gone:
  assumes "reap_lua R (InFlightKey q h) (VisIndexKey q) h mx q s = (Inr res, s')"
    and "h \<notin> fst ` set (as_zset (clock s) (ks s (VisIndexKey q))) \<or>
      as_hash (clock s) (ks s (InFlightKey q h)) = []"
  shows "clock s' = clock s \<and> res = [''gone''] \<and> ks s' = zset_remove (clock s) (VisIndexKey q) h (ks s)"
  using assms unfolding reap_lua_def Let_def
  by (elim on_ZREM_E) (auto simp: zset_remove_def elim!: on_HGETALL_E split: if_splits)

lemma reap_lua_ok:
  assumes "reap_lua R (InFlightKey q h) (VisIndexKey q) h (FormatInt mx) q s = (Inr res, s')"
    and "h \<in> fst ` set (as_zset (clock s) (ks s (VisIndexKey q)))"
    and rec: "holds_record (clock s) (ks s) q h rec" "record_in_range rec" and mx: "int_in_bits 32 mx"
  shows "clock s' = clock s \<and>
    (if mx \<le> ifr_ReceiveCount rec
     then res = [''dlq'', ifr_Topic rec, ifr_ShardID rec, FormatInt (ifr_Partition rec), FormatInt (ifr_Offset rec),
            ifr_Body rec, ifr_GroupID rec, ifr_DedupID rec] \<and>
          ks s' = settle (clock s) q h rec (unlock (clock s) q (ifr_GroupID rec) h (ks s))
     else res = [''redeliver'', h, FormatInt (ifr_ReceiveCount rec + 1)] \<and>
          ks s' = requeue (clock s) q h rec
            (unlock (clock s) q (ifr_GroupID rec) h (zset_remove (clock s) (VisIndexKey q) h (ks s))))"
proof -
  have num: "lua_tonumber (FormatInt n) = Some n" if "int_in_bits 32 n" for n
    using int_in_bits_mono [OF that, of 64] by (simp add: lua_tonumber_def ParseInt_FormatInt)
  let ?ks1 = "zset_remove (clock s) (VisIndexKey q) h (ks s)"
  have fields: "as_hash (clock s) (?ks1 (InFlightKey q h)) = as_hash (clock s) (ks s (InFlightKey q h))"
    by simp
  let ?hash = "as_hash (clock s) (ks s (InFlightKey q h))"
  from assms(1) obtain s1 where s1: "ks s1 = ?ks1" "clock s1 = clock s"
    and r1: "on_ok (HGETALL R s1 (InFlightKey q h)) id (\<lambda>inflight s.
         if inflight = [] then (Inr [''gone''], s)
         else reap_decide R (InFlightKey q h) h (FormatInt mx) q (map_of inflight) s) = (Inr res, s')"
    unfolding reap_lua_def
    by (elim on_ZREM_E) (simp add: assms(2) zset_remove_def [symmetric])
  from r1 obtain s2 where s2: "ks s2 = ?ks1" "clock s2 = clock s"
    and r2: "reap_decide R (InFlightKey q h) h (FormatInt mx) q (map_of ?hash) s2 = (Inr res, s')"
    by (elim on_HGETALL_E) (simp add: s1 fields holds_record_fields [OF rec(1)])
  from r2 obtain u s3 where "release_lock_lua R q (map_of ?hash) h s2 = (Inr u, s3)"
    and r3: "(if mx \<le> ifr_ReceiveCount rec then
        on_ok (ZREM R s3 (PendingKey q (ifr_ShardID rec) (ifr_Partition rec)) (FormatInt (ifr_Offset rec))) id (\<lambda>_ s.
          on_ok (DEL R s (InFlightKey q h)) id (\<lambda>_ s.
            (Inr [''dlq'', ifr_Topic rec, ifr_ShardID rec, FormatInt (ifr_Partition rec), FormatInt (ifr_Offset rec),
              ifr_Body rec, ifr_GroupID rec, ifr_DedupID rec], s)))
      else on_ok (HSET R s3 (InFlightKey q h) [(''receiveCount'', FormatInt (ifr_ReceiveCount rec + 1))]) id (\<lambda>_ s.
          on_ok (RPUSH R s (RedeliverKey q) h) id (\<lambda>_ s.
            (Inr [''redeliver'', h, FormatInt (ifr_ReceiveCount rec + 1)], s)))) = (Inr res, s')"
    unfolding reap_decide_def
    by (elim on_okE) (use rec(2) mx in \<open>simp add: holds_record_fields [OF rec(1)] lua_or_def num
      record_in_range_def PendingKey_def RedeliverKey_def Let_def cong: if_cong\<close>)
  then have s3: "ks s3 = unlock (clock s) q (ifr_GroupID rec) h ?ks1" "clock s3 = clock s"
    by (auto dest!: release_lock_lua_ok simp: s2 lua_or_def holds_record_fields [OF rec(1)])
  show ?thesis
  proof (cases "mx \<le> ifr_ReceiveCount rec")
    case True
    with r3 s3 show ?thesis
      by (auto elim!: on_okE dest!: cmd_D simp: settle_def zset_remove_def unlock_def fun_eq_iff)
  next
    case False
    with r3 s3 show ?thesis
      by (auto elim!: on_okE dest!: cmd_D simp: requeue_def)
  qed
qed

end

context redis_quiet begin

section \<open>Effect of each operation on the key space\<close>

lemma PutInFlight_ok:
  assumes "PutInFlight R q h rec vt now s = (Inr (), s')"
  shows "clock s \<le> clock s' \<and>
    (\<exists>e v. cmd_hset (clock s') (inflight_fields rec) (ks s (InFlightKey q h)) = (Inr (), e) \<and>
      cmd_zadd (clock s') (float64 (UnixMilli (now + vt))) h (ks s (VisIndexKey q)) = (Inr (), v) \<and>
      ks s' = (ks s)(InFlightKey q h := cmd_expire (clock s') (vt + Minute) e, VisIndexKey q := v))"
  using assms unfolding PutInFlight_def Let_def
  by (elim round_tripE then_alsoE) (auto dest!: cmd_D)

lemma GetInFlight_ok:
  assumes "GetInFlight R q h s = (Inr r, s')"
  shows "clock s \<le> clock s' \<and> ks s' = ks s \<and>
    r = (let m = as_hash (clock s') (ks s (InFlightKey q h)) in if m = [] then None else Some (decode_inflight m))"
  using assms unfolding GetInFlight_def
  by (elim round_tripE) (auto dest!: cmd_D dest: hgetall_ok [OF sym] split: if_splits)

lemma ExtendVisibility_ok:
  assumes "ExtendVisibility R q h vt now s = (Inr b, s')"
  shows "clock s \<le> clock s' \<and>
    (if b then \<exists>v. cmd_zadd (clock s') (float64 (UnixMilli (now + vt))) h (ks s (VisIndexKey q)) = (Inr (), v) \<and>
        ks s' = (ks s)(VisIndexKey q := v)
     else \<not> live (clock s') (ks s (InFlightKey q h)) \<and> ks s' = ks s)"
  using assms unfolding ExtendVisibility_def
  by (elim round_tripE) (auto dest!: cmd_D elim!: round_tripE split: if_splits)

lemma AddPending_ok:
  assumes "AddPending R q sh p off s = (Inr (), s')"
  shows "clock s \<le> clock s' \<and>
    (\<exists>e. cmd_zadd (clock s') (float64 off) (FormatInt off) (ks s (PendingKey q sh p)) = (Inr (), e) \<and>
       ks s' = (ks s)(PendingKey q sh p := e))"
  using assms unfolding AddPending_def Let_def by (elim round_tripE) (auto dest!: cmd_D)

lemma MinPending_ok:
  assumes "MinPending R q sh p s = (Inr r, s')"
  shows "clock s \<le> clock s' \<and> ks s' = ks s \<and>
    r = (case zorder (as_zset (clock s') (ks s (PendingKey q sh p))) of [] \<Rightarrow> None | (m, sc) # _ \<Rightarrow> Some sc)"
  using assms unfolding MinPending_def
  by (elim round_tripE)
     (auto dest!: cmd_D simp: cmd_zrange_def as_zset_def take_Suc
       split: option.splits prod.splits rvalue.splits list.splits)

lemma SetWatermark_ok:
  assumes "SetWatermark R q sh p off s = (Inr (), s')"
  shows "clock s \<le> clock s' \<and> ks s' = (ks s)(WatermarkKey q sh p := Some (RStr (FormatInt off), None))"
  using assms unfolding SetWatermark_def Let_def by (elim round_tripE) (auto dest!: cmd_D)

lemma GetWatermark_ok:
  assumes "GetWatermark R q sh p s = (Inr r, s')"
  shows "clock s \<le> clock s' \<and> ks s' = ks s \<and>
    (case as_str (clock s') (ks s (WatermarkKey q sh p)) of
       None \<Rightarrow> r = None | Some v \<Rightarrow> (\<exists>n. ParseInt 64 v = (n, None) \<and> r = Some n))"
  using assms unfolding GetWatermark_def Let_def
  by (elim round_tripE) (auto dest!: cmd_D dest: get_ok [OF sym] split: option.splits prod.splits)

lemma AcquireFIFOLock_ok:
  assumes "AcquireFIFOLock R q g h ttl s = (Inr b, s')"
  shows "clock s \<le> clock s' \<and> b = (alive (clock s') (ks s (FIFOLockKey q g)) = None) \<and>
    ks s' = (if b then (ks s)(FIFOLockKey q g := Some (RStr h, ttl_deadline (clock s') ttl)) else ks s)"
  using assms unfolding AcquireFIFOLock_def
  by (elim round_tripE) (auto dest!: cmd_D simp: cmd_setnx_def split: option.splits if_splits)

lemma TryDedup_ok:
  assumes "TryDedup R q g d window s = (Inr b, s')"
  shows "clock s \<le> clock s' \<and> b = (alive (clock s') (ks s (DedupKey q g d)) = None) \<and>
    ks s' = (if b then (ks s)(DedupKey q g d := Some (RStr ''1'', ttl_deadline (clock s') window)) else ks s)"
  using assms unfolding TryDedup_def
  by (elim round_tripE) (auto dest!: cmd_D simp: cmd_setnx_def split: option.splits if_splits)

lemma PopRedeliverable_ok:
  assumes "PopRedeliverable R q s = (Inr r, s')"
  shows "clock s \<le> clock s' \<and>
    (\<exists>e. cmd_lpop (clock s') (ks s (RedeliverKey q)) = (Inr r, e) \<and> ks s' = (ks s)(RedeliverKey q := e))"
  using assms unfolding PopRedeliverable_def by (elim round_tripE) (auto dest!: cmd_D)

lemma PushRedeliverable_ok:
  assumes "PushRedeliverable R q h s = (Inr (), s')"
  shows "clock s \<le> clock s' \<and>
    (\<exists>e. cmd_rpush (clock s') h (ks s (RedeliverKey q)) = (Inr (), e) \<and> ks s' = (ks s)(RedeliverKey q := e))"
  using assms unfolding PushRedeliverable_def by (elim round_tripE) (auto dest!: cmd_D)

lemma ExpiredVisIndexEntries_ok:
  assumes "ExpiredVisIndexEntries R q n now s = (Inr hs, s')"
  shows "clock s \<le> clock s' \<and> ks s' = ks s \<and>
    hs = take n (map fst (filter (\<lambda>(m, sc). 0 \<le> sc \<and> sc \<le> UnixMilli now)
           (zorder (as_zset (clock s') (ks s (VisIndexKey q))))))"
  using assms unfolding ExpiredVisIndexEntries_def
  by (elim round_tripE)
     (auto dest!: cmd_D simp: cmd_zrangebyscore_def as_zset_def split: option.splits prod.splits rvalue.splits)

end

context redis_quiet begin

lemma Ack_ok:
  assumes "Ack R q h s = (Inr r, s')" and "holds_record (clock s') (ks s) q h rec"
  shows "clock s \<le> clock s' \<and> r = ''acked'' \<and>
    ks s' = unlock (clock s') q (ifr_GroupID rec) h (settle (clock s') q h rec (ks s))"
  using assms(1)
proof (unfold Ack_def, elim round_tripE)
  fix s0 u s1
  assume s0: "ks s0 = ks s" "clock s \<le> clock s0"
    and run: "ack_lua R (InFlightKey q h) (VisIndexKey q) h q s0 = (Inr u, s1)"
    and res: "(Inr (case u of [] \<Rightarrow> ''not_found'' | r # _ \<Rightarrow> r), s1) = (Inr r, s')"
  have "clock s1 = clock s0"
    using run unfolding ack_lua_def Let_def
    by (auto elim!: on_HGETALL_E on_ZREM_E on_okE dest!: cmd_D release_lock_lua_ok split: if_splits option.splits)
  with ack_lua_ok [OF run, of rec] assms(2) s0 res show ?thesis by auto
qed

lemma Ack_not_found:
  assumes "Ack R q h s = (Inr r, s')" and "\<And>t. clock s \<le> t \<Longrightarrow> as_hash t (ks s (InFlightKey q h)) = []"
  shows "clock s \<le> clock s' \<and> r = ''not_found'' \<and> ks s' = ks s"
  using assms(1) unfolding Ack_def
  by (elim round_tripE) (auto dest!: ack_lua_not_found simp: assms(2))

lemma reap_lua_clock:
  assumes "reap_lua R (InFlightKey q h) (VisIndexKey q) h mx q s = (Inr res, s')"
  shows "clock s' = clock s"
  using assms unfolding reap_lua_def reap_decide_def Let_def
  by (auto elim!: on_HGETALL_E on_ZREM_E on_okE dest!: cmd_D release_lock_lua_ok split: if_splits option.splits)

lemma Reap_runs:
  assumes "Reap R q h mx s = (Inr r, s')"
  obtains s0 res where "ks s0 = ks s" and "clock s0 = clock s'" and "clock s \<le> clock s'"
    and "reap_lua R (InFlightKey q h) (VisIndexKey q) h (FormatInt mx) q s0 = (Inr res, s')"
    and "decode_reap h res = Inr r"
  using assms unfolding Reap_def by (elim round_tripE) (metis Pair_inject reap_lua_clock)

lemma Reap_gone:
  assumes "Reap R q h mx s = (Inr r, s')"
    and "h \<notin> fst ` set (as_zset (clock s') (ks s (VisIndexKey q))) \<or>
      as_hash (clock s') (ks s (InFlightKey q h)) = []"
  shows "r = zero_ReapResult \<and> ks s' = zset_remove (clock s') (VisIndexKey q) h (ks s)"
  using assms by (elim Reap_runs) (auto dest!: reap_lua_gone simp: decode_reap_def)

lemma Reap_ok:
  assumes "Reap R q h mx s = (Inr r, s')"
    and "h \<in> fst ` set (as_zset (clock s') (ks s (VisIndexKey q)))"
    and rec: "holds_record (clock s') (ks s) q h rec" "record_in_range rec" and mx: "int_in_bits 32 mx"
  shows "if mx \<le> ifr_ReceiveCount rec
     then r = zero_ReapResult\<lparr>rr_Outcome := ReapOutcomeDLQ, rr_Topic := ifr_Topic rec, rr_ShardID := ifr_ShardID rec,
            rr_Partition := ifr_Partition rec, rr_Offset := ifr_Offset rec, rr_Body := ifr_Body rec,
            rr_GroupID := ifr_GroupID rec, rr_DedupID := ifr_DedupID rec\<rparr> \<and>
          ks s' = settle (clock s') q h rec (unlock (clock s') q (ifr_GroupID rec) h (ks s))
     else r = zero_ReapResult\<lparr>rr_Outcome := ReapOutcomeRedeliver, rr_ReceiveCount := ifr_ReceiveCount rec + 1\<rparr> \<and>
          ks s' = requeue (clock s') q h rec
            (unlock (clock s') q (ifr_GroupID rec) h (zset_remove (clock s') (VisIndexKey q) h (ks s)))"
  using assms(1)
proof (rule Reap_runs)
  fix s0 res
  assume s0: "ks s0 = ks s" "clock s0 = clock s'"
    and run: "reap_lua R (InFlightKey q h) (VisIndexKey q) h (FormatInt mx) q s0 = (Inr res, s')"
    and dec: "decode_reap h res = Inr r"
  have "int_in_bits 32 (ifr_ReceiveCount rec + 1)" if "\<not> mx \<le> ifr_ReceiveCount rec"
    using that rec(2) mx by (auto simp: record_in_range_def int_in_bits_def)
  then show ?thesis
    using reap_lua_ok [OF run, of rec] assms(2) rec mx s0 dec
    by (auto simp: decode_reap_def ParseInt_FormatInt record_in_range_def numeral_nat split: if_splits)
qed

lemma Reap_vis_index:
  assumes "Reap R q h mx s = (Inr r, s')"
  shows "ks s' (VisIndexKey q) = snd (cmd_zrem (clock s') h (ks s (VisIndexKey q)))"
proof (rule Reap_runs [OF assms])
  fix s0 res
  assume s0: "ks s0 = ks s" "clock s0 = clock s'"
    and run: "reap_lua R (InFlightKey q h) (VisIndexKey q) h (FormatInt mx) q s0 = (Inr res, s')"
  have keys: "VisIndexKey q \<noteq> ''kmsvc:pending:'' @ x" "VisIndexKey q \<noteq> ''kmsvc:redeliver:'' @ x" for x
    by (simp_all add: VisIndexKey_def)
  show ?thesis
    using run unfolding reap_lua_def reap_decide_def Let_def
    by (auto simp: s0 unlock_other keys [simplified] elim!: on_HGETALL_E on_ZREM_E on_okE dest!: cmd_D release_lock_lua_ok
        split: if_splits option.splits)
qed

lemma Reap_unindexed:
  assumes "Reap R q h mx s = (Inr r, s')"
  shows "h \<notin> fst ` set (as_zset (clock s') (ks s' (VisIndexKey q)))"
  unfolding Reap_vis_index [OF assms] by (simp add: delete_notin_dom)

end

lemma holds_record_put:
  assumes "fst (cmd_hset t (inflight_fields rec) e0) = Inr u" and "snd (cmd_hset t (inflight_fields rec) e0) = e"
    and "0 < dur" and "ks (InFlightKey q h) = cmd_expire t dur e"
  shows "holds_record t' ks q h rec \<longleftrightarrow> t' < t + 1000 * expire_secs dur"
    and "as_hash t' (ks (InFlightKey q h)) = [] \<longleftrightarrow> \<not> t' < t + 1000 * expire_secs dur"
proof -
  from hset_alive [OF assms(1)] assms(2) obtain d where
    "alive t e = e" "e = Some (RHash (hset_all (inflight_fields rec) (as_hash t e0)), d)" by blast
  then have ks: "ks (InFlightKey q h) = Some (RHash (hset_all (inflight_fields rec) (as_hash t e0)),
      Some (t + 1000 * expire_secs dur))"
    using assms(3,4) by (simp add: cmd_expire_def)
  have fields: "map_of (hset_all (inflight_fields rec) (as_hash t e0)) =
      map_of (as_hash t e0) ++ map_of (inflight_fields rec)"
    by (rule map_of_hset_all [OF inflight_fields_distinct])
  then have "map_of (hset_all (inflight_fields rec) (as_hash t e0)) ''body'' = Some (ifr_Body rec)"
    by (simp add: map_add_def inflight_fields_def)
  then have ne: "hset_all (inflight_fields rec) (as_hash t e0) \<noteq> []" by auto
  show "holds_record t' ks q h rec \<longleftrightarrow> t' < t + 1000 * expire_secs dur"
    using ks fields by (auto simp: holds_record_def as_hash_def inflight_fields_def map_add_def)
  show "as_hash t' (ks (InFlightKey q h)) = [] \<longleftrightarrow> \<not> t' < t + 1000 * expire_secs dur"
    using ks ne by (auto simp: as_hash_def)
qed

context redis_quiet begin

lemma PutInFlight_holds:
  assumes "PutInFlight R q h rec vt now s = (Inr (), s1)" and "- Minute < vt"
    and "k (InFlightKey q h) = ks s1 (InFlightKey q h)"
  defines "dl \<equiv> clock s1 + 1000 * expire_secs (vt + Minute)"
  shows "holds_record t k q h rec \<longleftrightarrow> t < dl" and "as_hash t (k (InFlightKey q h)) = [] \<longleftrightarrow> \<not> t < dl"
proof -
  from PutInFlight_ok [OF assms(1)] obtain e v where
    e: "cmd_hset (clock s1) (inflight_fields rec) (ks s (InFlightKey q h)) = (Inr (), e)"
    and k1: "ks s1 (InFlightKey q h) = cmd_expire (clock s1) (vt + Minute) e" by auto
  then show "holds_record t k q h rec \<longleftrightarrow> t < dl" "as_hash t (k (InFlightKey q h)) = [] \<longleftrightarrow> \<not> t < dl"
    using holds_record_put [of "clock s1" rec "ks s (InFlightKey q h)" "()" e "vt + Minute" k q h t] assms(2,3)
    unfolding dl_def by simp_all
qed

lemma put_get:
  assumes "PutInFlight R q h rec vt now s = (Inr (), s1)" and "GetInFlight R q h s1 = (Inr r, s2)"
    and "record_in_range rec" and "- Minute < vt"
  shows "r = (if clock s2 < clock s1 + 1000 * expire_secs (vt + Minute) then Some rec else None)"
  using PutInFlight_holds [OF assms(1,4), of "ks s1" "clock s2"] GetInFlight_ok [OF assms(2)]
    decode_inflight_holds [OF _ assms(3), of "clock s2" "ks s1" q h]
  by (auto simp: Let_def)

end

section \<open>Properties\<close>

text \<open>The concrete store of the instances: one message of group \<open>g\<close>, received at server time 1000.\<close>

definition demo_rec :: InFlightRecord where
  "demo_rec = \<lparr>ifr_ShardID = ''0'', ifr_Topic = ''orders-0'', ifr_Partition = 2, ifr_Offset = 41,
     ifr_GroupID = ''g'', ifr_DedupID = '''', ifr_ReceiveCount = 1, ifr_Body = ''hello''\<rparr>"

definition demo_mem :: mem where
  "demo_mem = \<lparr>m_db = [(''kmsvc:pending:orders:0:2'', RZSet [(''41'', 41), (''44'', 44)], None),
     (''kmsvc:fifo_lock:orders:g'', RStr ''h1'', Some 31000)], m_clock = 1000, m_links = []\<rparr>"

definition demo_held :: mem where
  "demo_held = \<lparr>m_db = m_db demo_mem @
     [(''kmsvc:inflight:orders:h1'',
       RHash [(''shardId'', ''0''), (''topic'', ''orders-0''), (''partition'', ''2''), (''offset'', ''41''),
         (''groupId'', ''g''), (''dedupId'', ''''), (''receiveCount'', ''1''), (''body'', ''hello'')], Some 91000),
      (''kmsvc:vis_index:orders'', RZSet [(''h1'', 31000)], None)],
     m_clock = 1000, m_links = []\<rparr>"

lemma demo_held_put:
  "PutInFlight mem_redis ''orders'' ''h1'' demo_rec (30 * Second) Second demo_mem = (Inr (), demo_held)"
  by code_simp

text \<open>
  C26. Round trip of the in-flight record: what \<^verbatim>\<open>PutInFlight\<close> has stored, a later
  \<^verbatim>\<open>GetInFlight\<close> reads back field by field, up to the moment the hash expires (the visibility
  timeout plus one minute, in whole seconds); from then on it reports the message as gone.
\<close>

theorem inflight_round_trip:
  assumes "redis_quiet R ks clock"
    and "PutInFlight R q h rec vt now s = (Inr (), s1)" and "GetInFlight R q h s1 = (Inr r, s2)"
    and "record_in_range rec" and "- Minute < vt"
  shows "r = (if clock s2 < clock s1 + 1000 * expire_secs (vt + Minute) then Some rec else None)"
  using assms by (intro redis_quiet.put_get [OF assms(1)])

theorem inflight_round_trip_witness:
  "fst (GetInFlight mem_redis ''orders'' ''h1'' demo_held) = Inr (Some demo_rec) \<and>
   Some demo_rec = (if m_clock (snd (GetInFlight mem_redis ''orders'' ''h1'' demo_held)) <
     m_clock demo_held + 1000 * expire_secs (30 * Second + Minute) then Some demo_rec else None)"
proof -
  have g: "fst (GetInFlight mem_redis ''orders'' ''h1'' demo_held) = Inr (Some demo_rec)" by code_simp
  have "record_in_range demo_rec" "- Minute < 30 * Second" by code_simp+
  from inflight_round_trip [OF mem.redis_quiet_axioms, OF demo_held_put run_eqI [OF g] this] g show ?thesis by blast
qed




text \<open>
  Acknowledging is idempotent: once a message has been acknowledged, every later \<^verbatim>\<open>Ack\<close>
  of its handle reports \<^verbatim>\<open>not_found\<close> and changes nothing, so a group lock or an offset taken
  over by a later message is never released by a stale handle.
\<close>

theorem Ack_idempotent:
  assumes "redis_quiet R ks clock"
    and "Ack R q h s = (Inr r, s')" and "holds_record (clock s') (ks s) q h rec"
    and "ks s1 (InFlightKey q h) = ks s' (InFlightKey q h)" and "Ack R q h s1 = (Inr r', s2)"
  shows "r' = ''not_found'' \<and> ks s2 = ks s1"
proof -
  have "ks s1 (InFlightKey q h) = None"
    using redis_quiet.Ack_ok [OF assms(1-3)] assms(4) by (simp add: unlock_other)
  then show ?thesis
    using redis_quiet.Ack_not_found [OF assms(1,5)] by (simp add: as_hash_def)
qed

theorem Ack_idempotent_witness:
  "mem_ks (snd (Ack mem_redis ''orders'' ''h1'' (snd (Ack mem_redis ''orders'' ''h1'' demo_held)))) =
   mem_ks (snd (Ack mem_redis ''orders'' ''h1'' demo_held))"
proof -
  let ?s' = "snd (Ack mem_redis ''orders'' ''h1'' demo_held)"
  have a: "fst (Ack mem_redis ''orders'' ''h1'' demo_held) = Inr ''acked''"
    and b: "fst (Ack mem_redis ''orders'' ''h1'' ?s') = Inr ''not_found''" by code_simp+
  have "holds_record (m_clock ?s') (mem_ks demo_held) ''orders'' ''h1'' demo_rec" by code_simp
  from Ack_idempotent [OF mem.redis_quiet_axioms, OF run_eqI [OF a] this refl run_eqI [OF b]] show ?thesis by blast
qed

text \<open>
  C24. \<^verbatim>\<open>Reap\<close> decides by the receive count. An indexed message whose record has reached the
  limit is settled like an acknowledged one and its whole record is handed back for the
  dead-letter queue; below the limit it leaves the visibility index, its record stays with
  the receive count raised by one and its handle goes to the end of the redelivery list. In
  both cases the FIFO lock it held is released.
\<close>

theorem Reap_outcome:
  assumes "redis_quiet R ks clock"
    and "Reap R q h mx s = (Inr r, s')"
    and "h \<in> fst ` set (as_zset (clock s') (ks s (VisIndexKey q)))"
    and "holds_record (clock s') (ks s) q h rec" and "record_in_range rec" and "int_in_bits 32 mx"
  shows "if mx \<le> ifr_ReceiveCount rec
     then r = zero_ReapResult\<lparr>rr_Outcome := ReapOutcomeDLQ, rr_Topic := ifr_Topic rec, rr_ShardID := ifr_ShardID rec,
            rr_Partition := ifr_Partition rec, rr_Offset := ifr_Offset rec, rr_Body := ifr_Body rec,
            rr_GroupID := ifr_GroupID rec, rr_DedupID := ifr_DedupID rec\<rparr> \<and>
          ks s' = settle (clock s') q h rec (unlock (clock s') q (ifr_GroupID rec) h (ks s))
     else r = zero_ReapResult\<lparr>rr_Outcome := ReapOutcomeRedeliver, rr_ReceiveCount := ifr_ReceiveCount rec + 1\<rparr> \<and>
          ks s' = requeue (clock s') q h rec
            (unlock (clock s') q (ifr_GroupID rec) h (zset_remove (clock s') (VisIndexKey q) h (ks s)))"
  using assms by (intro redis_quiet.Reap_ok [OF assms(1)])

theorem Reap_outcome_witness:
  "mem_ks (snd (Reap mem_redis ''orders'' ''h1'' 1 demo_held)) =
   settle 1000 ''orders'' ''h1'' demo_rec (unlock 1000 ''orders'' ''g'' ''h1'' (mem_ks demo_held))"
proof -
  let ?s' = "snd (Reap mem_redis ''orders'' ''h1'' 1 demo_held)"
  have c: "m_clock ?s' = 1000" and r: "fst (Reap mem_redis ''orders'' ''h1'' 1 demo_held) =
      Inr (zero_ReapResult\<lparr>rr_Outcome := ReapOutcomeDLQ, rr_Topic := ''orders-0'', rr_ShardID := ''0'',
        rr_Partition := 2, rr_Offset := 41, rr_Body := ''hello'', rr_GroupID := ''g''\<rparr>)" by code_simp+
  have "''h1'' \<in> fst ` set (as_zset (m_clock ?s') (mem_ks demo_held (VisIndexKey ''orders'')))"
    "holds_record (m_clock ?s') (mem_ks demo_held) ''orders'' ''h1'' demo_rec"
    "record_in_range demo_rec" "int_in_bits 32 1" by code_simp+
  from Reap_outcome [OF mem.redis_quiet_axioms, OF run_eqI [OF r] this] show ?thesis
    by (simp add: demo_rec_def c)
qed

text \<open>
  One reaper wins: after a \<^verbatim>\<open>Reap\<close> of a handle has returned, the handle is out of the
  visibility index, and another \<^verbatim>\<open>Reap\<close> of it reports \<^verbatim>\<open>gone\<close>, raises no receive count, queues
  nothing and dead-letters nothing.
\<close>

theorem Reap_once:
  assumes "redis_quiet R ks clock"
    and "Reap R q h mx s = (Inr r, s1)" and "Reap R q h mx' s1 = (Inr r', s2)"
  shows "r' = zero_ReapResult \<and> (\<forall>k. k \<noteq> VisIndexKey q \<longrightarrow> ks s2 k = ks s1 k) \<and>
    h \<notin> fst ` set (as_zset (clock s2) (ks s2 (VisIndexKey q)))"
proof -
  have "clock s1 \<le> clock s2"
    using assms(1,3) by (elim redis_quiet.Reap_runs) auto
  then have "as_zset (clock s2) (ks s1 (VisIndexKey q)) = [] \<or>
      as_zset (clock s2) (ks s1 (VisIndexKey q)) = as_zset (clock s1) (ks s1 (VisIndexKey q))"
    by (rule as_zset_later)
  then have "h \<notin> fst ` set (as_zset (clock s2) (ks s1 (VisIndexKey q)))"
    using redis_quiet.Reap_unindexed [OF assms(1,2)] by auto
  with redis_quiet.Reap_gone [OF assms(1,3)] redis_quiet.Reap_unindexed [OF assms(1,3)]
  show ?thesis by simp
qed

theorem Reap_once_witness:
  "fst (Reap mem_redis ''orders'' ''h1'' 5 demo_held) \<noteq> Inr zero_ReapResult \<and>
   mem_ks (snd (Reap mem_redis ''orders'' ''h1'' 5 (snd (Reap mem_redis ''orders'' ''h1'' 5 demo_held)))) (RedeliverKey ''orders'') =
     mem_ks (snd (Reap mem_redis ''orders'' ''h1'' 5 demo_held)) (RedeliverKey ''orders'')"
proof -
  let ?s1 = "snd (Reap mem_redis ''orders'' ''h1'' 5 demo_held)"
  have r: "fst (Reap mem_redis ''orders'' ''h1'' 5 demo_held) =
      Inr (zero_ReapResult\<lparr>rr_Outcome := ReapOutcomeRedeliver, rr_ReceiveCount := 2\<rparr>)"
    and r': "fst (Reap mem_redis ''orders'' ''h1'' 5 ?s1) = Inr zero_ReapResult" by code_simp+
  from Reap_once [OF mem.redis_quiet_axioms, OF run_eqI [OF r] run_eqI [OF r']] show ?thesis
    by (simp add: r zero_ReapResult_def)
qed


text \<open>
  C36. Changing the visibility of a message moves its place in the visibility index and
  nothing else. In particular the expiry of the in-flight record, set when the message was
  received, stays: a reaper that comes to the message at or after that moment finds no
  record, drops the index entry and reports \<^verbatim>\<open>gone\<close>. The message is then neither queued for
  redelivery nor dead-lettered, and its offset stays in the pending set.
\<close>

theorem extended_message_lost:
  assumes "redis_quiet R ks clock"
    and "PutInFlight R q h rec vt now s = (Inr (), s1)" and "- Minute < vt"
    and "ExtendVisibility R q h newTimeout now' s1 = (Inr True, s2)"
    and "Reap R q h mx s2 = (Inr r, s3)"
    and "clock s1 + 1000 * expire_secs (vt + Minute) \<le> clock s3"
  shows "r = zero_ReapResult \<and> ks s3 (RedeliverKey q) = ks s (RedeliverKey q) \<and>
    ks s3 (PendingKey q (ifr_ShardID rec) (ifr_Partition rec)) = ks s (PendingKey q (ifr_ShardID rec) (ifr_Partition rec)) \<and>
    h \<notin> fst ` set (as_zset (clock s3) (ks s3 (VisIndexKey q)))"
proof -
  obtain v where ext: "ks s2 = (ks s1)(VisIndexKey q := v)"
    using redis_quiet.ExtendVisibility_ok [OF assms(1,4)] by auto
  then have "as_hash (clock s3) (ks s2 (InFlightKey q h)) = []"
    using redis_quiet.PutInFlight_holds(2) [OF assms(1-3), of "ks s2" "clock s3"] assms(6) by simp
  then have "r = zero_ReapResult" "ks s3 = zset_remove (clock s3) (VisIndexKey q) h (ks s2)"
    using redis_quiet.Reap_gone [OF assms(1,5)] by blast+
  with ext redis_quiet.PutInFlight_ok [OF assms(1,2)] redis_quiet.Reap_unindexed [OF assms(1,5)]
  show ?thesis by auto
qed

text \<open>A consumer extends its 30-second message by two minutes; a reaper comes 91 seconds after the receipt.\<close>

definition demo_slow :: mem where
  "demo_slow = demo_mem\<lparr>m_links := [(Delivered, 0), (Delivered, 0), (Delivered, 0), (Delivered, 91000)]\<rparr>"

definition demo_held_slow :: mem where
  "demo_held_slow = demo_held\<lparr>m_links := [(Delivered, 0), (Delivered, 0), (Delivered, 91000)]\<rparr>"

theorem extended_message_lost_witness:
  "let s2 = snd (ExtendVisibility mem_redis ''orders'' ''h1'' (120 * Second) (2 * Second) demo_held_slow) in
   mem_ks (snd (Reap mem_redis ''orders'' ''h1'' 5 s2)) (RedeliverKey ''orders'') =
     mem_ks demo_slow (RedeliverKey ''orders'')"
proof -
  let ?s2 = "snd (ExtendVisibility mem_redis ''orders'' ''h1'' (120 * Second) (2 * Second) demo_held_slow)"
  have p: "PutInFlight mem_redis ''orders'' ''h1'' demo_rec (30 * Second) Second demo_slow = (Inr (), demo_held_slow)"
    and x: "fst (ExtendVisibility mem_redis ''orders'' ''h1'' (120 * Second) (2 * Second) demo_held_slow) = Inr True"
    and r: "fst (Reap mem_redis ''orders'' ''h1'' 5 ?s2) = Inr zero_ReapResult"
    and c: "m_clock demo_held_slow + 1000 * expire_secs (30 * Second + Minute) \<le> m_clock (snd (Reap mem_redis ''orders'' ''h1'' 5 ?s2))"
    by code_simp+
  have vt: "- Minute < 30 * Second" by simp
  from extended_message_lost [OF mem.redis_quiet_axioms, OF p vt run_eqI [OF x] run_eqI [OF r] c]
  show ?thesis unfolding Let_def by blast
qed

text \<open>
  The FIFO gate: after a handle has acquired the lock of a group, a second acquisition
  succeeds only when the lock's time to live has run out, and until then the first holder
  keeps it. A lock taken with a time to live of zero (a visibility timeout of zero seconds)
  never runs out.
\<close>

theorem fifo_lock_exclusive:
  assumes "redis_quiet R ks clock"
    and "AcquireFIFOLock R q g h ttl s = (Inr True, s1)"
    and "AcquireFIFOLock R q g h' ttl' s1 = (Inr b, s2)"
  shows "(b \<longleftrightarrow> (\<exists>d. ttl_deadline (clock s1) ttl = Some d \<and> d \<le> clock s2)) \<and>
    (\<not> b \<longrightarrow> as_str (clock s2) (ks s2 (FIFOLockKey q g)) = Some h)"
proof (intro conjI impI)
  have k1: "ks s1 (FIFOLockKey q g) = Some (RStr h, ttl_deadline (clock s1) ttl)"
    using redis_quiet.AcquireFIFOLock_ok [OF assms(1,2)] by simp
  with redis_quiet.AcquireFIFOLock_ok [OF assms(1,3)]
  show b: "b \<longleftrightarrow> (\<exists>d. ttl_deadline (clock s1) ttl = Some d \<and> d \<le> clock s2)"
    by (auto simp: alive_def split: option.splits)
  assume "\<not> b"
  with b k1 redis_quiet.AcquireFIFOLock_ok [OF assms(1,3)]
  show "as_str (clock s2) (ks s2 (FIFOLockKey q g)) = Some h"
    by (auto simp: as_str_def alive_def split: option.splits)
qed

theorem fifo_lock_exclusive_witness:
  "(False \<longleftrightarrow> (\<exists>d. ttl_deadline 1000 (30 * Second) = Some d \<and> d \<le> 1000)) \<and>
   fst (AcquireFIFOLock mem_redis ''orders'' ''k'' ''h3'' (30 * Second)
     (snd (AcquireFIFOLock mem_redis ''orders'' ''k'' ''h2'' (30 * Second) demo_mem))) = Inr False"
proof -
  let ?s1 = "snd (AcquireFIFOLock mem_redis ''orders'' ''k'' ''h2'' (30 * Second) demo_mem)"
  have a: "fst (AcquireFIFOLock mem_redis ''orders'' ''k'' ''h2'' (30 * Second) demo_mem) = Inr True"
    and b: "fst (AcquireFIFOLock mem_redis ''orders'' ''k'' ''h3'' (30 * Second) ?s1) = Inr False"
    and c: "m_clock ?s1 = 1000" "m_clock (snd (AcquireFIFOLock mem_redis ''orders'' ''k'' ''h3'' (30 * Second) ?s1)) = 1000"
    by code_simp+
  from fifo_lock_exclusive [OF mem.redis_quiet_axioms, OF run_eqI [OF a] run_eqI [OF b]] show ?thesis
    using b unfolding c by blast
qed

text \<open>
  The low watermark is sound: if the pending set of a partition records each offset
  under its own value, \<^verbatim>\<open>MinPending\<close> answers nothing exactly when the set is empty, and
  otherwise the least offset that is not acknowledged.
\<close>

definition pending_offsets :: "int \<Rightarrow> keyspace \<Rightarrow> string \<Rightarrow> string \<Rightarrow> int \<Rightarrow> int set" where
  "pending_offsets t ks q sh p = snd ` set (as_zset t (ks (PendingKey q sh p)))"

lemma zorder_hd_min:
  assumes "zorder z = (m, sc) # rest"
  shows "sc \<in> snd ` set z" and "x \<in> snd ` set z \<Longrightarrow> sc \<le> x"
proof -
  have set: "set z = insert (m, sc) (set rest)" by (metis assms set_zorder list.simps(15))
  then show "sc \<in> snd ` set z" by force
  assume "x \<in> snd ` set z"
  with set have "x = sc \<or> x \<in> set (map snd rest)" by auto
  moreover have "sorted (map snd (zorder z))" by (rule zorder_sorted)
  ultimately show "sc \<le> x" using assms by auto
qed

theorem MinPending_is_minimum:
  assumes "redis_quiet R ks clock" and "MinPending R q sh p s = (Inr r, s')"
  shows "(r = None \<longleftrightarrow> pending_offsets (clock s') (ks s) q sh p = {}) \<and>
    (\<forall>m. r = Some m \<longrightarrow> m \<in> pending_offsets (clock s') (ks s) q sh p \<and>
      (\<forall>x \<in> pending_offsets (clock s') (ks s) q sh p. m \<le> x))"
proof (cases "zorder (as_zset (clock s') (ks s (PendingKey q sh p)))")
  case Nil
  with redis_quiet.MinPending_ok [OF assms] show ?thesis by (simp add: pending_offsets_def)
next
  case (Cons a rest)
  then obtain m sc where z: "zorder (as_zset (clock s') (ks s (PendingKey q sh p))) = (m, sc) # rest"
    by (cases a) simp
  with redis_quiet.MinPending_ok [OF assms] have "r = Some sc" by simp
  with zorder_hd_min [OF z] show ?thesis unfolding pending_offsets_def by auto
qed

theorem MinPending_is_minimum_witness:
  "fst (MinPending mem_redis ''orders'' ''0'' 2 demo_held) = Inr (Some 41) \<and>
   41 \<in> pending_offsets 1000 (mem_ks demo_held) ''orders'' ''0'' 2"
proof -
  have m: "fst (MinPending mem_redis ''orders'' ''0'' 2 demo_held) = Inr (Some 41)"
    and c: "m_clock (snd (MinPending mem_redis ''orders'' ''0'' 2 demo_held)) = 1000" by code_simp+
  from MinPending_is_minimum [OF mem.redis_quiet_axioms, OF run_eqI [OF m]] m show ?thesis unfolding c by blast
qed

text \<open>
  The watermark reads back as it was written, for every 64-bit offset, and the key is
  kept apart from those of all other queues, shards and partitions that contain no colon.
\<close>

theorem watermark_round_trip:
  assumes "redis_quiet R ks clock" and "int_in_bits 64 off"
    and "SetWatermark R q sh p off s = (Inr (), s1)"
    and "GetWatermark R q' sh' p' s1 = (Inr r, s2)"
    and "separable (KWatermark q sh p)" and "separable (KWatermark q' sh' p')"
  shows "((q', sh', p') = (q, sh, p) \<longrightarrow> r = Some off) \<and>
    ((q', sh', p') \<noteq> (q, sh, p) \<longrightarrow> ks s1 (WatermarkKey q' sh' p') = ks s (WatermarkKey q' sh' p'))"
proof (intro conjI impI)
  have k1: "ks s1 = (ks s)(WatermarkKey q sh p := Some (RStr (FormatInt off), None))"
    using redis_quiet.SetWatermark_ok [OF assms(1,3)] by blast
  show "r = Some off" if "(q', sh', p') = (q, sh, p)"
    using redis_quiet.GetWatermark_ok [OF assms(1,4)] that assms(2)
    by (simp add: k1 as_str_def ParseInt_FormatInt)
  show "ks s1 (WatermarkKey q' sh' p') = ks s (WatermarkKey q' sh' p')" if "(q', sh', p') \<noteq> (q, sh, p)"
    using that render_inject [OF assms(5,6)] by (auto simp: k1)
qed

theorem watermark_round_trip_witness:
  "fst (GetWatermark mem_redis ''orders'' ''0'' 2 (snd (SetWatermark mem_redis ''orders'' ''0'' 2 40 demo_mem))) = Inr (Some 40) \<and>
   Some 40 = Some (40 :: int)"
proof -
  let ?s1 = "snd (SetWatermark mem_redis ''orders'' ''0'' 2 40 demo_mem)"
  have w: "fst (SetWatermark mem_redis ''orders'' ''0'' 2 40 demo_mem) = Inr ()"
    and g: "fst (GetWatermark mem_redis ''orders'' ''0'' 2 ?s1) = Inr (Some 40)"
    and i: "int_in_bits 64 40" and k: "separable (KWatermark ''orders'' ''0'' 2)" by code_simp+
  from watermark_round_trip [OF mem.redis_quiet_axioms i, OF run_eqI [OF w] run_eqI [OF g] k k] g
  show ?thesis by blast
qed

end
