(* ===== verification/Kafka_Topology.thy ===== *)
theory Kafka_Topology
  imports Kmsvc_Prelude
begin

text \<open>
  Package \<^verbatim>\<open>internal/kafka\<close>, file \<^verbatim>\<open>topology.go\<close>: topic and consumer-group names, the
  murmur2 routing hash, shard selection, hash-range splitting, partition choice, and the
  dead-letter guard. Everything here is pure, so each function of the source is one
  definition. The lemmas show that the indexed murmur2 loop computes the block recursion
  over the key's bytes and never reads outside it, that a split divides a range exactly in
  two without overflow, and that routing finds exactly one owner wherever the active
  shards tile the key space.
\<close>

unbundle bit_operations_syntax

section \<open>Names\<close>

definition topicPrefix :: string where "topicPrefix = ''kmsvc.''"
definition fifoSuffix :: string where "fifoSuffix = ''.fifo''"
definition dlqSuffix :: string where "dlqSuffix = ''.dlq''"
definition shardInfix :: string where "shardInfix = ''.shard-''"
definition DefaultPartitionCount :: int where "DefaultPartitionCount = 6"
definition FullHashRangeEnd :: u32 where "FullHashRangeEnd = 0xFFFFFFFF"

lemmas topic_consts = topicPrefix_def fifoSuffix_def dlqSuffix_def shardInfix_def

definition ShardTopicName :: "string \<Rightarrow> bool \<Rightarrow> string \<Rightarrow> string" where
  "ShardTopicName queueName fifo shardID =
     (let base = topicPrefix @ queueName;
          base = (if fifo then base @ fifoSuffix else base)
      in base @ shardInfix @ shardID)"

definition DLQShardTopicName :: "string \<Rightarrow> bool \<Rightarrow> string \<Rightarrow> string" where
  "DLQShardTopicName queueName fifo shardID =
     (let base = topicPrefix @ queueName;
          base = (if fifo then base @ fifoSuffix else base)
      in base @ dlqSuffix @ shardInfix @ shardID)"

definition ConsumerGroup :: "string \<Rightarrow> string" where
  "ConsumerGroup queueName = ''kmsvc-consumer-'' @ queueName"

section \<open>The murmur2 hash\<close>

definition bytes_of :: "string \<Rightarrow> u8 list" where
  "bytes_of s = map of_char s"

abbreviation murmur_m :: u32 where "murmur_m \<equiv> 0x5bd1e995"

definition load32 :: "u8 \<Rightarrow> u8 \<Rightarrow> u8 \<Rightarrow> u8 \<Rightarrow> u32" where
  "load32 b0 b1 b2 b3 =
     (ucast (b0 AND 0xff) OR push_bit 8 (ucast (b1 AND 0xff)) OR
      push_bit 16 (ucast (b2 AND 0xff)) OR push_bit 24 (ucast (b3 AND 0xff)))"

definition mix_block :: "u32 \<Rightarrow> u32 \<Rightarrow> u32" where
  "mix_block h k =
     (let k = k * murmur_m;
          k = k XOR drop_bit 24 k;
          k = k * murmur_m;
          h = h * murmur_m
      in h XOR k)"

text \<open>
  The body loop \<^verbatim>\<open>for i := 0; i < four; i++\<close>, over indices of the byte slice. Reading past
  the end panics in Go, which is \<^const>\<open>None\<close> here.
\<close>

definition byte_at :: "u8 list \<Rightarrow> nat \<Rightarrow> u8 option" where
  "byte_at data i = (if i < length data then Some (data ! i) else None)"

function murmur2_loop :: "u8 list \<Rightarrow> nat \<Rightarrow> nat \<Rightarrow> u32 \<Rightarrow> u32 option" where
  "murmur2_loop data i four h =
     (if i < four then
        (let i4 = i * 4 in
         case (byte_at data i4, byte_at data (i4 + 1), byte_at data (i4 + 2), byte_at data (i4 + 3)) of
           (Some b0, Some b1, Some b2, Some b3) \<Rightarrow>
             murmur2_loop data (Suc i) four (mix_block h (load32 b0 b1 b2 b3))
         | _ \<Rightarrow> None)
      else Some h)"
  by pat_completeness auto
termination
  by (relation "measure (\<lambda>(data, i, four, h). four - i)") auto

declare murmur2_loop.simps [simp del]

text \<open>The \<^verbatim>\<open>switch length & 3\<close> with its fallthroughs; \<open>base\<close> is \<^verbatim>\<open>length &^ 3\<close>.\<close>

definition murmur2_tail :: "u8 list \<Rightarrow> u32 \<Rightarrow> u32 option" where
  "murmur2_tail data h =
     (let n = length data; r = n mod 4; base = n - n mod 4;
          ld = (\<lambda>i sh h. case byte_at data (base + i) of
                  None \<Rightarrow> None
                | Some b \<Rightarrow> Some (h XOR push_bit sh (ucast (b AND 0xff) :: u32))) in
      if r = 0 then Some h
      else case (if r = 3 then ld 2 16 h else Some h) of
        None \<Rightarrow> None
      | Some h1 \<Rightarrow> (case (if 2 \<le> r then ld 1 8 h1 else Some h1) of
          None \<Rightarrow> None
        | Some h2 \<Rightarrow> map_option (\<lambda>h3. h3 * murmur_m) (ld 0 0 h2)))"

definition murmur2_final :: "u32 \<Rightarrow> u32" where
  "murmur2_final h =
     (let h = h XOR drop_bit 13 h;
          h = h * murmur_m
      in h XOR drop_bit 15 h)"

text \<open>\<^verbatim>\<open>murmur2\<close> of \<^verbatim>\<open>topology.go\<close>; \<^const>\<open>None\<close> would be an index panic.\<close>

definition murmur2 :: "u8 list \<Rightarrow> u32 option" where
  "murmur2 data =
     (let h = (0x9747b28c :: u32) XOR word_of_nat (length data);
          four = length data div 4 in
      case murmur2_loop data 0 four h of
        None \<Rightarrow> None
      | Some h \<Rightarrow> map_option murmur2_final (murmur2_tail data h))"

text \<open>
  The reference: murmur2 as a recursion over the key, four bytes at a time, with the last
  one to three bytes mixed in at the end.
\<close>

fun murmur2_ref_body :: "u8 list \<Rightarrow> u32 \<Rightarrow> u32" where
  "murmur2_ref_body (b0 # b1 # b2 # b3 # bs) h = murmur2_ref_body bs (mix_block h (load32 b0 b1 b2 b3))"
| "murmur2_ref_body [b0, b1, b2] h =
     (h XOR push_bit 16 (ucast b2) XOR push_bit 8 (ucast b1) XOR ucast b0) * murmur_m"
| "murmur2_ref_body [b0, b1] h = (h XOR push_bit 8 (ucast b1) XOR ucast b0) * murmur_m"
| "murmur2_ref_body [b0] h = (h XOR ucast b0) * murmur_m"
| "murmur2_ref_body [] h = h"

definition murmur2_ref :: "u8 list \<Rightarrow> u32" where
  "murmur2_ref data = murmur2_final (murmur2_ref_body data (0x9747b28c XOR word_of_nat (length data)))"

definition toPositive :: "u32 \<Rightarrow> u32" where
  "toPositive n = n AND 0x7fffffff"

text \<open>
  \<^verbatim>\<open>HashKey\<close>. The hash never panics (\<open>murmur2_total\<close> below), so the option is discharged
  here by a default that is never used.
\<close>

definition HashKey :: "string \<Rightarrow> u32" where
  "HashKey key = toPositive (case murmur2 (bytes_of key) of Some h \<Rightarrow> h | None \<Rightarrow> 0)"

section \<open>Shards\<close>

record Shard =
  sh_ID :: string
  sh_Topic :: string
  sh_HashRangeStart :: u32
  sh_HashRangeEnd :: u32
  sh_Phase :: string

definition ActiveShards :: "Shard list \<Rightarrow> Shard list" where
  "ActiveShards shards = filter (\<lambda>s. sh_Phase s = '''' \<or> sh_Phase s = ''Active'') shards"

definition owns_hash :: "u32 \<Rightarrow> Shard \<Rightarrow> bool" where
  "owns_hash h s = (sh_HashRangeStart s \<le> h \<and> h < sh_HashRangeEnd s)"

definition SelectShard :: "Shard list \<Rightarrow> string \<Rightarrow> Shard option" where
  "SelectShard shards routingKey = (let h = HashKey routingKey in List.find (owns_hash h) shards)"

definition SplitHashRange :: "u32 \<Rightarrow> u32 \<Rightarrow> u32" where
  "SplitHashRange start end = start + (end - start) div 2"

text \<open>
  \<^verbatim>\<open>PartitionWithinShard\<close>: the \<^verbatim>\<open>int32\<close> partition count is converted to \<^verbatim>\<open>uint32\<close> for the
  remainder and the result back to \<^verbatim>\<open>int32\<close>.
\<close>

definition PartitionWithinShard :: "string \<Rightarrow> int \<Rightarrow> int" where
  "PartitionWithinShard routingKey partitionsPerShard =
     (let n = (if partitionsPerShard \<le> 0 then DefaultPartitionCount else partitionsPerShard)
      in sint (HashKey routingKey mod word_of_int n))"

definition ValidateNoDLQCycle :: "string \<Rightarrow> bool \<Rightarrow> string \<Rightarrow> unit res" where
  "ValidateNoDLQCycle queueName isDLQ deadLetterTarget =
     (if deadLetterTarget = '''' then Inr ()
      else if deadLetterTarget = queueName then
        Inl (ErrText (''queue '' @ Quote queueName @ '' cannot set its own dead-letter target''))
      else if isDLQ then
        Inl (ErrText (''DLQ queue '' @ Quote queueName @ '' cannot itself have a dead-letter target (no DLQ chains)''))
      else Inr ())"

section \<open>The hash computes the reference recursion and never panics\<close>

lemma and_ff [simp]: "(b :: u8) AND 0xff = b"
proof -
  have "(0xff :: u8) = - 1" by simp
  then show ?thesis by (simp only: and.right_neutral)
qed

lemma murmur2_ref_body_append:
  "length xs mod 4 = 0 \<Longrightarrow> murmur2_ref_body (xs @ ys) h = murmur2_ref_body ys (murmur2_ref_body xs h)"
  by (induction xs h rule: murmur2_ref_body.induct) auto

lemma byte_at_drop: "i < length data \<Longrightarrow> byte_at data i = Some (data ! i)"
  by (simp add: byte_at_def)

lemma take_drop_block:
  assumes "i * 4 + 4 \<le> length (data :: 'a list)"
  shows "drop (i * 4) data =
    data ! (i * 4) # data ! (i * 4 + 1) # data ! (i * 4 + 2) # data ! (i * 4 + 3) # drop (Suc i * 4) data"
  using assms by (simp add: Cons_nth_drop_Suc [symmetric] eval_nat_numeral)

lemma murmur2_loop_ref:
  assumes "i \<le> four" and "four * 4 \<le> length data"
  shows "murmur2_loop data i four h = Some (murmur2_ref_body (take ((four - i) * 4) (drop (i * 4) data)) h)"
  using assms
proof (induction data i four h rule: murmur2_loop.induct)
  case (1 data i four h)
  show ?case
  proof (cases "i < four")
    case True
    then have len: "i * 4 + 4 \<le> length data" using "1.prems" by linarith
    let ?h = "mix_block h (load32 (data ! (i * 4)) (data ! (i * 4 + 1)) (data ! (i * 4 + 2)) (data ! (i * 4 + 3)))"
    have bytes: "byte_at data (i * 4) = Some (data ! (i * 4))"
      "byte_at data (i * 4 + 1) = Some (data ! (i * 4 + 1))"
      "byte_at data (i * 4 + 2) = Some (data ! (i * 4 + 2))"
      "byte_at data (i * 4 + 3) = Some (data ! (i * 4 + 3))"
      using len by (auto intro: byte_at_drop)
    have step: "murmur2_loop data i four h = murmur2_loop data (Suc i) four ?h"
      using True bytes by (simp add: murmur2_loop.simps [of data i] Let_def)
    also have "\<dots> = Some (murmur2_ref_body (take ((four - Suc i) * 4) (drop (Suc i * 4) data)) ?h)"
      using True "1.prems" bytes by (intro "1.IH") auto
    also have "(four - i) * 4 = Suc (Suc (Suc (Suc ((four - Suc i) * 4))))" using True by simp
    then have "murmur2_ref_body (take ((four - Suc i) * 4) (drop (Suc i * 4) data)) ?h =
        murmur2_ref_body (take ((four - i) * 4) (drop (i * 4) data)) h"
      by (simp only: take_drop_block [OF len] take_Suc_Cons murmur2_ref_body.simps)
    finally show ?thesis .
  next
    case False
    with "1.prems" show ?thesis by (simp add: murmur2_loop.simps)
  qed
qed

lemma short_list_cases:
  assumes "length xs < 4"
  obtains "xs = []" | a where "xs = [a]" | a b where "xs = [a, b]" | a b c where "xs = [a, b, c]"
proof -
  from assms have "length xs = 0 \<or> length xs = 1 \<or> length xs = 2 \<or> length xs = 3" by linarith
  then show thesis
    using that by (auto simp: length_Suc_conv numeral_2_eq_2 numeral_3_eq_3)
qed

lemma murmur2_tail_ref:
  "murmur2_tail data h = Some (murmur2_ref_body (drop (length data - length data mod 4) data) h)"
proof -
  define base where "base = length data - length data mod 4"
  define t where "t = drop base data"
  have len: "length t = length data mod 4" by (simp add: t_def base_def)
  have at: "byte_at data (base + i) = Some (t ! i)" if "i < length t" for i
    using that by (simp add: t_def byte_at_def)
  have "length t < 4" by (simp add: len)
  then show ?thesis
    unfolding murmur2_tail_def Let_def
    unfolding base_def [symmetric]
    unfolding t_def [symmetric] len [symmetric]
    by (rule short_list_cases) (auto simp: at at [of 0, simplified] at [of 1, simplified] at [of 2, simplified] xor.assoc)
qed

lemma murmur2_eq_ref: "murmur2 data = Some (murmur2_ref data)"
proof -
  let ?h = "0x9747b28c XOR word_of_nat (length data) :: u32"
  let ?n = "length data div 4 * 4"
  have n: "length data - length data mod 4 = ?n"
    by (simp add: minus_mod_eq_div_mult)
  have "murmur2_loop data 0 (length data div 4) ?h = Some (murmur2_ref_body (take ?n data) ?h)"
    by (subst murmur2_loop_ref) auto
  moreover have "murmur2_ref_body (drop ?n data) (murmur2_ref_body (take ?n data) ?h) =
      murmur2_ref_body (take ?n data @ drop ?n data) ?h"
    by (rule murmur2_ref_body_append [symmetric]) (simp add: min_absorb2)
  ultimately show ?thesis
    by (simp add: murmur2_def murmur2_ref_def murmur2_tail_ref n Let_def del: div_mult_self_is_m)
qed

lemma HashKey_ref: "HashKey key = toPositive (murmur2_ref (bytes_of key))"
  by (simp add: HashKey_def murmur2_eq_ref)

lemma toPositive_le: "toPositive n \<le> 0x7fffffff"
  unfolding toPositive_def by (rule word_and_le1)

lemma HashKey_le: "HashKey key \<le> 0x7fffffff"
  by (simp add: HashKey_def toPositive_le)

lemma HashKey_less_full: "HashKey key < FullHashRangeEnd"
  using HashKey_le [of key] unfolding FullHashRangeEnd_def by (rule le_less_trans) simp

section \<open>Splitting a hash range\<close>

lemma unat_SplitHashRange:
  assumes "a \<le> b"
  shows "unat (SplitHashRange a b) = (unat a + unat b) div 2"
proof -
  have ab: "unat a \<le> unat b" using assms by (simp add: word_le_nat_alt)
  have d: "unat (b - a) = unat b - unat a" using assms by (simp add: unat_sub)
  have "unat ((b - a) div 2) = (unat b - unat a) div 2"
    by (simp add: unat_div d)
  moreover have "unat a + (unat b - unat a) div 2 < 2 ^ 32"
    using ab unsigned_less [of b, where 'a = nat] by simp
  ultimately have "unat (SplitHashRange a b) = unat a + (unat b - unat a) div 2"
    unfolding SplitHashRange_def by (subst unat_add_lem [THEN iffD1]) auto
  then show ?thesis using ab by linarith
qed

lemma SplitHashRange_between:
  assumes "a \<le> b"
  shows "a \<le> SplitHashRange a b" and "SplitHashRange a b \<le> b"
  using assms unat_SplitHashRange [OF assms] by (simp_all add: word_le_nat_alt)

lemma SplitHashRange_strict:
  assumes "a \<le> b" and "2 \<le> unat b - unat a"
  shows "a < SplitHashRange a b" and "SplitHashRange a b < b"
  using assms(2) unat_SplitHashRange [OF assms(1)] by (simp_all add: word_less_nat_alt)

text \<open>Every hash of the parent range belongs to exactly one child, and no other hash to either.\<close>

lemma split_owner_xor:
  assumes "a \<le> b"
  shows "(a \<le> h \<and> h < SplitHashRange a b) \<noteq> (SplitHashRange a b \<le> h \<and> h < b) \<longleftrightarrow> a \<le> h \<and> h < b"
  using SplitHashRange_between [OF assms] by (auto simp: not_less not_le)

section \<open>Routing\<close>

text \<open>
  \<open>tiles ss lo hi\<close>: the ranges of the shards partition \<open>[lo, hi)\<close>. It is stated by
  counting owners, so that it does not depend on the order of the list and also excludes
  overlaps between shards that have equal fields.
\<close>

definition owner_count :: "Shard list \<Rightarrow> u32 \<Rightarrow> nat" where
  "owner_count ss h = length (filter (owns_hash h) ss)"

definition tiles :: "Shard list \<Rightarrow> u32 \<Rightarrow> u32 \<Rightarrow> bool" where
  "tiles ss lo hi = (\<forall>h. owner_count ss h = (if lo \<le> h \<and> h < hi then 1 else 0))"

lemma owner_count_simps [simp]:
  "owner_count [] h = 0"
  "owner_count (s # ss) h = of_bool (owns_hash h s) + owner_count ss h"
  "owner_count (ss @ ts) h = owner_count ss h + owner_count ts h"
  by (simp_all add: owner_count_def)

lemma find_unique_owner:
  assumes "owner_count ss h = 1"
  shows "\<exists>s \<in> set ss. List.find (owns_hash h) ss = Some s \<and> owns_hash h s \<and>
    (\<forall>t \<in> set ss. owns_hash h t \<longrightarrow> t = s)"
proof -
  from assms obtain s where s: "filter (owns_hash h) ss = [s]"
    by (auto simp: owner_count_def length_Suc_conv)
  then have "set (filter (owns_hash h) ss) = {s}" by simp
  then have mem: "t \<in> set ss \<and> owns_hash h t \<longleftrightarrow> t = s" for t by auto
  have "List.find (owns_hash h) ss \<noteq> None"
    using mem [of s] by (auto simp: find_None_iff)
  then obtain t where t: "List.find (owns_hash h) ss = Some t" by auto
  then have "t \<in> set ss \<and> owns_hash h t"
    by (metis find_Some_iff nth_mem)
  with mem have "t = s" by simp
  with t mem show ?thesis by auto
qed

lemma SelectShard_Some:
  "SelectShard ss key = Some s \<Longrightarrow> s \<in> set ss \<and> owns_hash (HashKey key) s"
  unfolding SelectShard_def Let_def by (metis find_Some_iff nth_mem)

lemma SelectShard_tiles:
  assumes "tiles ss 0 FullHashRangeEnd"
  shows "\<exists>s \<in> set ss. SelectShard ss key = Some s \<and> owns_hash (HashKey key) s \<and>
    (\<forall>t \<in> set ss. owns_hash (HashKey key) t \<longrightarrow> t = s)"
proof -
  have "owner_count ss (HashKey key) = 1"
    using assms HashKey_less_full [of key] by (simp add: tiles_def)
  then show ?thesis unfolding SelectShard_def Let_def by (rule find_unique_owner)
qed

lemma tiles_single:
  "sh_HashRangeStart s = lo \<Longrightarrow> sh_HashRangeEnd s = hi \<Longrightarrow> tiles [s] lo hi"
  by (auto simp: tiles_def owns_hash_def)

text \<open>Replacing a shard by its two halves keeps a tiling, wherever the halves are put.\<close>

lemma owner_count_split:
  assumes "sh_HashRangeStart p \<le> sh_HashRangeEnd p"
    and "sh_HashRangeStart a = sh_HashRangeStart p"
    and "sh_HashRangeEnd a = SplitHashRange (sh_HashRangeStart p) (sh_HashRangeEnd p)"
    and "sh_HashRangeStart b = SplitHashRange (sh_HashRangeStart p) (sh_HashRangeEnd p)"
    and "sh_HashRangeEnd b = sh_HashRangeEnd p"
  shows "of_bool (owns_hash h a) + of_bool (owns_hash h b) = (of_bool (owns_hash h p) :: nat)"
  using split_owner_xor [OF assms(1), of h] assms(2-) by (auto simp: owns_hash_def)

section \<open>Partitions\<close>

lemma PartitionWithinShard_eq:
  assumes "n < 2 ^ 31"
  defines "m \<equiv> (if n \<le> 0 then 6 else n)"
  shows "PartitionWithinShard key n = int (unat (HashKey key)) mod m"
proof -
  have m: "0 < m" "m < 2 ^ 31" using assms by auto
  then have um: "unat (word_of_int m :: u32) = nat m"
    by (simp add: unat_u32_of_int)
  have mod: "unat (HashKey key mod word_of_int m) = unat (HashKey key) mod nat m"
    by (simp add: unat_mod um)
  moreover have "unat (HashKey key) mod nat m < nat m" using m by simp
  moreover have "nat m \<le> 2 ^ 31" using m by (simp add: nat_le_iff)
  ultimately have "unat (HashKey key mod word_of_int m) < 2 ^ 31" by (simp only: order_less_le_trans)
  then have "sint (HashKey key mod word_of_int m) = int (unat (HashKey key) mod nat m)"
    by (simp only: sint_u32_small mod)
  with m show ?thesis
    by (cases "n \<le> 0") (simp_all add: PartitionWithinShard_def DefaultPartitionCount_def m_def Let_def zmod_int)
qed

section \<open>Properties\<close>

text \<open>
  C29. The indexed, in-place murmur2 loop of \<^verbatim>\<open>topology.go\<close> never indexes outside the key
  (no panic, for keys of every length) and computes the reference recursion over the
  key's four-byte blocks and its one to three trailing bytes.
\<close>

theorem murmur2_is_reference: "murmur2 data = Some (murmur2_ref data)"
  by (rule murmur2_eq_ref)

text \<open>
  On the test vectors of Apache Kafka's own \<^verbatim>\<open>Utils.murmur2\<close> the function returns
  Kafka's values (written there as signed integers: -973932308, -790332482, 479470107 and
  -985981536), which is what "mirrors Kafka's default partitioner" requires.
\<close>

theorem murmur2_kafka_vectors:
  "murmur2 (bytes_of ''21'') = Some (word_of_int (- 973932308)) \<and>
   murmur2 (bytes_of ''foobar'') = Some (word_of_int (- 790332482)) \<and>
   murmur2 (bytes_of ''abc'') = Some 479470107 \<and>
   murmur2 (bytes_of ''a-little-bit-long-string'') = Some (word_of_int (- 985981536))"
  unfolding murmur2_eq_ref by code_simp

text \<open>
  \<^verbatim>\<open>SplitHashRange\<close> never overflows: for every range, up to the full 32-bit key space,
  it is the midpoint computed in unbounded arithmetic, it lies in the range, and it is
  strictly inside as soon as the range holds two hashes, so both children are non-empty.
\<close>

theorem SplitHashRange_midpoint:
  assumes "start \<le> end"
  shows "unat (SplitHashRange start end) = (unat start + unat end) div 2 \<and>
    start \<le> SplitHashRange start end \<and> SplitHashRange start end \<le> end \<and>
    (2 \<le> unat end - unat start \<longrightarrow> start < SplitHashRange start end \<and> SplitHashRange start end < end)"
  using unat_SplitHashRange [OF assms] SplitHashRange_between [OF assms] SplitHashRange_strict [OF assms]
  by blast

theorem SplitHashRange_midpoint_witness:
  "unat (SplitHashRange 0 FullHashRangeEnd) = (unat (0 :: u32) + unat FullHashRangeEnd) div 2"
  using SplitHashRange_midpoint [of 0 FullHashRangeEnd] by simp

text \<open>
  C28. Routing is total and unambiguous: if the active shards tile the key space
  \<open>[0, FullHashRangeEnd)\<close>, every routing key is sent to an active shard, that shard owns
  the key's hash, and no other active shard does. (The key space stops one short of
  \<open>2^32\<close>; the sign-bit mask in \<^verbatim>\<open>HashKey\<close> is why no key can fall off its end.)
\<close>

theorem SelectShard_total_unique:
  assumes "tiles (ActiveShards shards) 0 FullHashRangeEnd"
  shows "\<exists>s \<in> set shards. SelectShard (ActiveShards shards) key = Some s \<and>
    (sh_Phase s = '''' \<or> sh_Phase s = ''Active'') \<and> owns_hash (HashKey key) s \<and>
    (\<forall>t \<in> set (ActiveShards shards). owns_hash (HashKey key) t \<longrightarrow> t = s)"
  using SelectShard_tiles [OF assms, of key] by (auto simp: ActiveShards_def)

definition shard0 :: Shard where
  "shard0 = \<lparr>sh_ID = ''0'', sh_Topic = ''kmsvc.orders.shard-0'', sh_HashRangeStart = 0,
     sh_HashRangeEnd = FullHashRangeEnd, sh_Phase = ''Active''\<rparr>"

theorem SelectShard_total_unique_witness:
  "tiles (ActiveShards [shard0]) 0 FullHashRangeEnd \<and>
   (\<exists>s \<in> set [shard0]. SelectShard (ActiveShards [shard0]) ''group-a'' = Some s)"
proof -
  have t: "tiles (ActiveShards [shard0]) 0 FullHashRangeEnd"
    by (simp add: ActiveShards_def shard0_def tiles_single)
  show ?thesis using t SelectShard_total_unique [OF t, of "''group-a''"] by blast
qed

text \<open>
  The partition chosen inside a shard is a valid partition number for every partition
  count of type \<^verbatim>\<open>int32\<close> (a count of zero or less means the default of six), and it is
  the routing hash modulo that count: the conversions between \<^verbatim>\<open>int32\<close> and \<^verbatim>\<open>uint32\<close> never
  produce a negative partition.
\<close>

theorem PartitionWithinShard_range:
  assumes "n < 2 ^ 31"
  shows "0 \<le> PartitionWithinShard key n \<and>
    PartitionWithinShard key n < (if n \<le> 0 then DefaultPartitionCount else n) \<and>
    PartitionWithinShard key n = int (unat (HashKey key)) mod (if n \<le> 0 then DefaultPartitionCount else n)"
  unfolding PartitionWithinShard_eq [OF assms] DefaultPartitionCount_def by simp

theorem PartitionWithinShard_range_witness:
  "(6 :: int) < 2 ^ 31 \<and> 0 \<le> PartitionWithinShard ''group-a'' 6 \<and> PartitionWithinShard ''group-a'' 6 < 6"
  using PartitionWithinShard_range [of 6 "''group-a''"] by simp

text \<open>
  C40. The first split does not divide the traffic. \<^verbatim>\<open>HashKey\<close> masks the sign bit, so hashes
  fill only the lower half of the key space, while the first split cuts the whole 32-bit
  space in two: the lower child keeps every key whose hash is below \<open>0x7FFFFFFF\<close> and the
  upper child can only ever receive keys with the single hash \<open>0x7FFFFFFF\<close>.
\<close>

theorem first_split_one_sided:
  assumes "sh_HashRangeStart a = 0" and "sh_HashRangeEnd a = SplitHashRange 0 FullHashRangeEnd"
    and "sh_HashRangeStart b = SplitHashRange 0 FullHashRangeEnd" and "sh_HashRangeEnd b = FullHashRangeEnd"
  shows "SelectShard [a, b] key = (if HashKey key = 0x7FFFFFFF then Some b else Some a)"
proof -
  have mid: "SplitHashRange 0 FullHashRangeEnd = 0x7FFFFFFF"
    by (simp add: SplitHashRange_def FullHashRangeEnd_def)
  have "HashKey key < 0x7FFFFFFF \<longleftrightarrow> HashKey key \<noteq> 0x7FFFFFFF"
    using HashKey_le [of key] by (auto simp: order_le_less)
  then show ?thesis
    using assms HashKey_less_full [of key] by (auto simp: SelectShard_def owns_hash_def mid)
qed

theorem first_split_one_sided_witness:
  "SelectShard [shard0\<lparr>sh_ID := ''1'', sh_HashRangeEnd := SplitHashRange 0 FullHashRangeEnd\<rparr>,
       shard0\<lparr>sh_ID := ''2'', sh_HashRangeStart := SplitHashRange 0 FullHashRangeEnd\<rparr>] ''group-a'' =
     (if HashKey ''group-a'' = 0x7FFFFFFF
      then Some (shard0\<lparr>sh_ID := ''2'', sh_HashRangeStart := SplitHashRange 0 FullHashRangeEnd\<rparr>)
      else Some (shard0\<lparr>sh_ID := ''1'', sh_HashRangeEnd := SplitHashRange 0 FullHashRangeEnd\<rparr>))"
  by (rule first_split_one_sided) (simp_all add: shard0_def)

text \<open>
  Topic names identify (queue, kind, shard) for queue names without dots, so two such
  queues never write to each other's topics.
\<close>

theorem ShardTopicName_injective:
  assumes "CHR ''.'' \<notin> set q" and "CHR ''.'' \<notin> set q'"
  shows "ShardTopicName q f i = ShardTopicName q' f' i' \<longleftrightarrow> q = q' \<and> f = f' \<and> i = i'"
  using append_sep_eq_iff [OF assms]
  by (auto simp: ShardTopicName_def topic_consts Let_def)

theorem ShardTopicName_injective_witness:
  "ShardTopicName ''orders'' True ''0'' = ShardTopicName ''orders'' False ''0'' \<longleftrightarrow>
     ''orders'' = ''orders'' \<and> True = False \<and> ''0'' = ''0''"
  by (rule ShardTopicName_injective) simp_all

text \<open>
  Kubernetes object names may contain dots, and there the naming scheme is ambiguous:
  the shards of a standard queue called \<open>q.fifo\<close> share their Kafka topics with those of the
  FIFO queue \<open>q\<close>.
\<close>

theorem ShardTopicName_dotted_collision:
  "ShardTopicName (q @ ''.fifo'') False i = ShardTopicName q True i"
  by (simp add: ShardTopicName_def topic_consts)

text \<open>
  What the dead-letter guard accepts: exactly the queues with no target, and the queues
  not marked as DLQ whose target is another queue. Hence, when every dead-letter target is a
  queue marked as DLQ, no chain of two dead-letter hops passes validation.
\<close>

theorem ValidateNoDLQCycle_accepts:
  "(ValidateNoDLQCycle q d t = Inr () \<longleftrightarrow> t = '''' \<or> (t \<noteq> q \<and> \<not> d)) \<and>
   (ValidateNoDLQCycle q d t = Inr () \<and> t \<noteq> '''' \<and> ValidateNoDLQCycle t True t2 = Inr () \<longrightarrow> t2 = '''')"
  by (auto simp: ValidateNoDLQCycle_def)

theorem ValidateNoDLQCycle_accepts_witness:
  "ValidateNoDLQCycle ''orders'' False ''orders-dlq'' = Inr () \<and>
   ValidateNoDLQCycle ''orders-dlq'' True '''' = Inr ()"
  using ValidateNoDLQCycle_accepts [of "''orders''" False "''orders-dlq''"]
    ValidateNoDLQCycle_accepts [of "''orders-dlq''" True "''''"] by simp

text \<open>
  The guard looks at one queue only, so it is no guard against loops: two queues not
  marked as DLQ that name each other as dead-letter targets are both accepted.
\<close>

theorem ValidateNoDLQCycle_accepts_two_cycle:
  assumes "a \<noteq> b" and "a \<noteq> ''''" and "b \<noteq> ''''"
  shows "ValidateNoDLQCycle a False b = Inr () \<and> ValidateNoDLQCycle b False a = Inr ()"
  using assms by (simp add: ValidateNoDLQCycle_def)

theorem ValidateNoDLQCycle_accepts_two_cycle_witness:
  "ValidateNoDLQCycle ''a'' False ''b'' = Inr () \<and> ValidateNoDLQCycle ''b'' False ''a'' = Inr ()"
  by (rule ValidateNoDLQCycle_accepts_two_cycle) simp_all

end
