(* ===== verification/Go_Json.thy ===== *)
theory Go_Json
  imports Kafka_Topology
begin

text \<open>
  The part of Go's \<^verbatim>\<open>encoding/json\<close> that \<^verbatim>\<open>internal/redis/shardmap.go\<close> relies on:
  \<^verbatim>\<open>json.Marshal\<close> of a \<^verbatim>\<open>[]kafka.Shard\<close> and \<^verbatim>\<open>json.Unmarshal\<close> into one. Marshalling prints the
  exported fields in order with the standard escapes. Unmarshalling accepts any JSON text
  (white space, any field order, repeated, unknown and differently capitalised fields) and
  then converts the value: \<^verbatim>\<open>null\<close> leaves a field alone, a value of the wrong type or an
  integer outside \<^verbatim>\<open>uint32\<close> is an error. Bytes from 128 on are copied as parts of valid UTF-8;
  the nesting limit of the library is not modelled. The main lemma is the round trip
  \<open>unmarshal_marshal\<close>.
\<close>

section \<open>Marshalling\<close>

definition dquote :: char where "dquote = CHR 0x22"
definition bslash :: char where "bslash = CHR 0x5C"

definition json_byte :: "char \<Rightarrow> string" where
  "json_byte c =
     (let n = (of_char c :: int) in
      if n = 34 \<or> n = 92 then [bslash, c]
      else if n = 8 then [bslash, CHR ''b'']
      else if n = 12 then [bslash, CHR ''f'']
      else if n = 10 then [bslash, CHR ''n'']
      else if n = 13 then [bslash, CHR ''r'']
      else if n = 9 then [bslash, CHR ''t'']
      else if n < 32 \<or> n = 38 \<or> n = 60 \<or> n = 62 then
        [bslash, CHR ''u'', CHR ''0'', CHR ''0'', hex_digit (n div 16), hex_digit (n mod 16)]
      else [c])"

definition marshal_string :: "string \<Rightarrow> string" where
  "marshal_string s = dquote # concat (map json_byte s) @ [dquote]"

fun sep_by :: "string \<Rightarrow> string list \<Rightarrow> string" where
  "sep_by sep [] = []"
| "sep_by sep [x] = x"
| "sep_by sep (x # y # xs) = x @ sep @ sep_by sep (y # xs)"

definition marshal_member :: "string \<Rightarrow> string \<Rightarrow> string" where
  "marshal_member name val = marshal_string name @ '':'' @ val"

definition marshal_shard :: "Shard \<Rightarrow> string" where
  "marshal_shard sh = ''{'' @ sep_by '',''
     [marshal_member ''ID'' (marshal_string (sh_ID sh)),
      marshal_member ''Topic'' (marshal_string (sh_Topic sh)),
      marshal_member ''HashRangeStart'' (FormatUint (uint (sh_HashRangeStart sh))),
      marshal_member ''HashRangeEnd'' (FormatUint (uint (sh_HashRangeEnd sh))),
      marshal_member ''Phase'' (marshal_string (sh_Phase sh))] @ ''}''"

definition marshal_shards :: "Shard list \<Rightarrow> string" where
  "marshal_shards shards = ''['' @ sep_by '','' (map marshal_shard shards) @ '']''"

section \<open>Parsing\<close>

datatype json =
    JNull
  | JBool bool
  | JNum string
  | JStr string
  | JArr "json list"
  | JObj "(string \<times> json) list"

fun skip_ws :: "string \<Rightarrow> string" where
  "skip_ws [] = []"
| "skip_ws (c # cs) = (if c \<in> {CHR '' '', CHR 0x09, CHR 0x0A, CHR 0x0D} then skip_ws cs else c # cs)"

definition hex_val :: "char \<Rightarrow> int option" where
  "hex_val c =
     (let n = (of_char c :: int) in
      if 48 \<le> n \<and> n \<le> 57 then Some (n - 48)
      else if 97 \<le> n \<and> n \<le> 102 then Some (n - 87)
      else if 65 \<le> n \<and> n \<le> 70 then Some (n - 55) else None)"

definition hex4 :: "char \<Rightarrow> char \<Rightarrow> char \<Rightarrow> char \<Rightarrow> int option" where
  "hex4 a b c d =
     (case (hex_val a, hex_val b, hex_val c, hex_val d) of
        (Some w, Some x, Some y, Some z) \<Rightarrow> Some (((w * 16 + x) * 16 + y) * 16 + z)
      | _ \<Rightarrow> None)"

text \<open>The UTF-8 bytes of a code point.\<close>

definition rune_bytes :: "int \<Rightarrow> string" where
  "rune_bytes r =
     (if r < 0x80 then [char_of r]
      else if r < 0x800 then [char_of (0xC0 + r div 64), char_of (0x80 + r mod 64)]
      else if r < 0x10000 then
        [char_of (0xE0 + r div 4096), char_of (0x80 + r div 64 mod 64), char_of (0x80 + r mod 64)]
      else [char_of (0xF0 + r div 262144), char_of (0x80 + r div 4096 mod 64),
            char_of (0x80 + r div 64 mod 64), char_of (0x80 + r mod 64)])"

definition simple_escape :: "char \<Rightarrow> char option" where
  "simple_escape e =
     (if e \<in> {dquote, bslash, CHR ''/''} then Some e
      else if e = CHR ''b'' then Some (CHR 0x08) else if e = CHR ''f'' then Some (CHR 0x0C)
      else if e = CHR ''n'' then Some (CHR 0x0A) else if e = CHR ''r'' then Some (CHR 0x0D)
      else if e = CHR ''t'' then Some (CHR 0x09) else None)"

text \<open>The low half of a surrogate pair that may follow a high half.\<close>

definition low_surrogate :: "string \<Rightarrow> int option" where
  "low_surrogate cs = (case cs of b # u # w # x # y # z # _ \<Rightarrow>
       if b = bslash \<and> u = CHR ''u'' then
         (case hex4 w x y z of Some r \<Rightarrow> if 0xDC00 \<le> r \<and> r < 0xE000 then Some r else None | None \<Rightarrow> None)
       else None
     | _ \<Rightarrow> None)"

text \<open>The characters of a string literal after its opening quote, and the text behind its closing one.\<close>

function json_str :: "string \<Rightarrow> (string \<times> string) option" where
  "json_str s = (case s of
     [] \<Rightarrow> None
   | c # cs \<Rightarrow>
       if c = dquote then Some ([], cs)
       else if c = bslash then
         (case cs of
            [] \<Rightarrow> None
          | e # r \<Rightarrow>
              if e = CHR ''u'' then
                if length r < 4 then None
                else (case hex4 (r ! 0) (r ! 1) (r ! 2) (r ! 3) of
                   None \<Rightarrow> None
                 | Some u \<Rightarrow>
                     if 0xD800 \<le> u \<and> u < 0xDC00 \<and> low_surrogate (drop 4 r) \<noteq> None then
                       (case low_surrogate (drop 4 r) of
                          Some l \<Rightarrow> map_option (\<lambda>(t, z). (rune_bytes ((u - 0xD800) * 1024 + (l - 0xDC00) + 0x10000) @ t, z))
                            (json_str (drop 10 r))
                        | None \<Rightarrow> None)
                     else if 0xD800 \<le> u \<and> u < 0xE000 then
                       map_option (\<lambda>(t, z). (rune_bytes 0xFFFD @ t, z)) (json_str (drop 4 r))
                     else map_option (\<lambda>(t, z). (rune_bytes u @ t, z)) (json_str (drop 4 r)))
              else (case simple_escape e of
                      None \<Rightarrow> None
                    | Some x \<Rightarrow> map_option (\<lambda>(t, z). (x # t, z)) (json_str r)))
       else if (of_char c :: int) < 32 then None
       else map_option (\<lambda>(t, z). (c # t, z)) (json_str cs))"
  by auto

termination
  by (relation "measure length") auto

declare json_str.simps [simp del]

text \<open>A number literal.\<close>

definition json_frac :: "string \<Rightarrow> (string \<times> string) option" where
  "json_frac s = (case s of
     c # r \<Rightarrow> if c = CHR ''.'' then
         (if takeWhile is_digit r = [] then None else Some (c # takeWhile is_digit r, dropWhile is_digit r))
       else Some ([], s)
   | [] \<Rightarrow> Some ([], []))"

definition json_exp :: "string \<Rightarrow> (string \<times> string) option" where
  "json_exp s = (case s of
     c # r \<Rightarrow> if c = CHR ''e'' \<or> c = CHR ''E'' then
         (let sg = (case r of d # _ \<Rightarrow> if d = CHR ''+'' \<or> d = CHR ''-'' then [d] else [] | [] \<Rightarrow> []);
              ds = drop (length sg) r in
          if takeWhile is_digit ds = [] then None
          else Some (c # sg @ takeWhile is_digit ds, dropWhile is_digit ds))
       else Some ([], s)
   | [] \<Rightarrow> Some ([], []))"

definition json_num :: "string \<Rightarrow> (string \<times> string) option" where
  "json_num s =
     (let sg = (case s of c # _ \<Rightarrow> if c = CHR ''-'' then [c] else [] | [] \<Rightarrow> []);
          r = drop (length sg) s;
          ds = (case r of c # _ \<Rightarrow> if c = CHR ''0'' then [c] else takeWhile is_digit r | [] \<Rightarrow> []) in
      if ds = [] then None
      else case json_frac (drop (length ds) r) of
        None \<Rightarrow> None
      | Some (f, r1) \<Rightarrow> (case json_exp r1 of
          None \<Rightarrow> None | Some (e, r2) \<Rightarrow> Some (sg @ ds @ f @ e, r2)))"

text \<open>
  Values. The first argument bounds the recursion; a value of \<open>n\<close> bytes needs no more than
  \<open>2 n + 2\<close>, because every second call consumes a byte.
\<close>

fun json_value :: "nat \<Rightarrow> string \<Rightarrow> (json \<times> string) option"
  and json_elems :: "nat \<Rightarrow> string \<Rightarrow> (json list \<times> string) option"
  and json_members :: "nat \<Rightarrow> string \<Rightarrow> ((string \<times> json) list \<times> string) option" where
  "json_value 0 s = None"
| "json_value (Suc n) s = (case skip_ws s of
     [] \<Rightarrow> None
   | c # cs \<Rightarrow>
       if c = dquote then map_option (\<lambda>(t, r). (JStr t, r)) (json_str cs)
       else if c = CHR ''['' then
         (case skip_ws cs of
            [] \<Rightarrow> None
          | d # r \<Rightarrow> if d = CHR '']'' then Some (JArr [], r)
                    else map_option (\<lambda>(vs, r). (JArr vs, r)) (json_elems n (d # r)))
       else if c = CHR ''{'' then
         (case skip_ws cs of
            [] \<Rightarrow> None
          | d # r \<Rightarrow> if d = CHR ''}'' then Some (JObj [], r)
                    else map_option (\<lambda>(ms, r). (JObj ms, r)) (json_members n (d # r)))
       else if HasPrefix (c # cs) ''null'' then Some (JNull, drop 4 (c # cs))
       else if HasPrefix (c # cs) ''true'' then Some (JBool True, drop 4 (c # cs))
       else if HasPrefix (c # cs) ''false'' then Some (JBool False, drop 5 (c # cs))
       else map_option (\<lambda>(t, r). (JNum t, r)) (json_num (c # cs)))"
| "json_elems 0 s = None"
| "json_elems (Suc n) s = (case json_value n s of
     None \<Rightarrow> None
   | Some (v, r) \<Rightarrow> (case skip_ws r of
       [] \<Rightarrow> None
     | d # r1 \<Rightarrow> if d = CHR '']'' then Some ([v], r1)
                else if d = CHR '','' then map_option (\<lambda>(vs, z). (v # vs, z)) (json_elems n r1)
                else None))"
| "json_members 0 s = None"
| "json_members (Suc n) s = (case skip_ws s of
     [] \<Rightarrow> None
   | c # cs \<Rightarrow>
       if c \<noteq> dquote then None
       else (case json_str cs of
         None \<Rightarrow> None
       | Some (k, r) \<Rightarrow> (case skip_ws r of
           [] \<Rightarrow> None
         | d # r1 \<Rightarrow>
             if d \<noteq> CHR '':'' then None
             else (case json_value n r1 of
               None \<Rightarrow> None
             | Some (v, r2) \<Rightarrow> (case skip_ws r2 of
                 [] \<Rightarrow> None
               | e # r3 \<Rightarrow> if e = CHR ''}'' then Some ([(k, v)], r3)
                          else if e = CHR '','' then map_option (\<lambda>(ms, z). ((k, v) # ms, z)) (json_members n r3)
                          else None)))))"

section \<open>Conversion to shards\<close>

definition json_syntax_error :: go_error where
  "json_syntax_error = ErrText ''invalid character in JSON text''"

definition json_type_error :: go_error where
  "json_type_error = ErrText ''json: cannot unmarshal value into Go value of the field's type''"

definition ascii_lower :: "char \<Rightarrow> char" where
  "ascii_lower c = (let n = (of_char c :: int) in if 65 \<le> n \<and> n \<le> 90 then char_of (n + 32) else c)"

definition zero_Shard :: Shard where
  "zero_Shard = \<lparr>sh_ID = '''', sh_Topic = '''', sh_HashRangeStart = 0, sh_HashRangeEnd = 0, sh_Phase = ''''\<rparr>"

definition into_string :: "json \<Rightarrow> string \<Rightarrow> string res" where
  "into_string v old = (case v of JStr t \<Rightarrow> Inr t | JNull \<Rightarrow> Inr old | _ \<Rightarrow> Inl json_type_error)"

definition into_uint32 :: "json \<Rightarrow> u32 \<Rightarrow> u32 res" where
  "into_uint32 v old = (case v of
     JNum t \<Rightarrow> (case ParseUint 64 t of
       Inr n \<Rightarrow> if n < 2 ^ 32 then Inr (word_of_int n) else Inl json_type_error
     | Inl _ \<Rightarrow> Inl json_type_error)
   | JNull \<Rightarrow> Inr old
   | _ \<Rightarrow> Inl json_type_error)"

definition map_res :: "('a \<Rightarrow> 'b) \<Rightarrow> 'a res \<Rightarrow> 'b res" where
  "map_res f r = (case r of Inl e \<Rightarrow> Inl e | Inr v \<Rightarrow> Inr (f v))"

definition set_member :: "string \<Rightarrow> json \<Rightarrow> Shard \<Rightarrow> Shard res" where
  "set_member name v sh =
     (let key = map ascii_lower name in
      if key = ''id'' then map_res (\<lambda>t. sh\<lparr>sh_ID := t\<rparr>) (into_string v (sh_ID sh))
      else if key = ''topic'' then map_res (\<lambda>t. sh\<lparr>sh_Topic := t\<rparr>) (into_string v (sh_Topic sh))
      else if key = ''hashrangestart'' then
        map_res (\<lambda>w. sh\<lparr>sh_HashRangeStart := w\<rparr>) (into_uint32 v (sh_HashRangeStart sh))
      else if key = ''hashrangeend'' then
        map_res (\<lambda>w. sh\<lparr>sh_HashRangeEnd := w\<rparr>) (into_uint32 v (sh_HashRangeEnd sh))
      else if key = ''phase'' then map_res (\<lambda>t. sh\<lparr>sh_Phase := t\<rparr>) (into_string v (sh_Phase sh))
      else Inr sh)"

fun set_members :: "(string \<times> json) list \<Rightarrow> Shard \<Rightarrow> Shard res" where
  "set_members [] sh = Inr sh"
| "set_members ((k, v) # ms) sh = (case set_member k v sh of Inl e \<Rightarrow> Inl e | Inr sh' \<Rightarrow> set_members ms sh')"

definition into_shard :: "json \<Rightarrow> Shard res" where
  "into_shard v = (case v of JObj ms \<Rightarrow> set_members ms zero_Shard | JNull \<Rightarrow> Inr zero_Shard | _ \<Rightarrow> Inl json_type_error)"

fun into_shards :: "json list \<Rightarrow> Shard list res" where
  "into_shards [] = Inr []"
| "into_shards (v # vs) = (case into_shard v of
     Inl e \<Rightarrow> Inl e | Inr sh \<Rightarrow> map_res (\<lambda>shs. sh # shs) (into_shards vs))"

definition unmarshal_shards :: "string \<Rightarrow> Shard list res" where
  "unmarshal_shards s = (case json_value (2 * length s + 2) s of
     None \<Rightarrow> Inl json_syntax_error
   | Some (v, rest) \<Rightarrow>
       if skip_ws rest \<noteq> [] then Inl json_syntax_error
       else (case v of JNull \<Rightarrow> Inr [] | JArr vs \<Rightarrow> into_shards vs | _ \<Rightarrow> Inl json_type_error))"

section \<open>Round trip\<close>

lemma hex_val_hex_digit: "0 \<le> d \<Longrightarrow> d < 16 \<Longrightarrow> hex_val (hex_digit d) = Some d"
  by (auto simp: hex_val_def hex_digit_def Let_def)

definition ascii :: "string \<Rightarrow> bool" where
  "ascii s = list_all (\<lambda>c. (of_char c :: int) < 128) s"

lemma of_char_nonneg: "0 \<le> (of_char c :: int)"
  by (simp add: of_char_def horner_sum_nonnegative)

lemma char_eqI: "(of_char c :: int) = of_char d \<Longrightarrow> c = d"
  by (metis char_of_char)

lemma json_byte_parse:
  assumes "(of_char c :: int) < 128"
  shows "json_str (json_byte c @ t) = map_option (\<lambda>(u, z). (c # u, z)) (json_str t)"
proof -
  let ?n = "of_char c :: int"
  have c: "c = char_of ?n" by simp
  have eq: "?n = of_char d \<Longrightarrow> c = d" for d by (rule char_eqI)
  consider "?n = 34 \<or> ?n = 92" | "?n \<in> {8, 9, 10, 12, 13}"
    | "?n \<notin> {8, 9, 10, 12, 13}" "?n < 32 \<or> ?n = 38 \<or> ?n = 60 \<or> ?n = 62"
    | "\<not> ?n < 32" "?n \<notin> {34, 38, 60, 62, 92}" by auto
  then show ?thesis
  proof cases
    case 1
    then have "c = dquote \<or> c = bslash" using eq [of dquote] eq [of bslash] by (auto simp: dquote_def bslash_def)
    with 1 show ?thesis
      by (subst json_str.simps) (auto simp: json_byte_def Let_def simple_escape_def dquote_def bslash_def)
  next
    case 2
    then have "c \<in> {CHR 0x08, CHR 0x09, CHR 0x0A, CHR 0x0C, CHR 0x0D}"
      using eq [of "CHR 0x08"] eq [of "CHR 0x09"] eq [of "CHR 0x0A"] eq [of "CHR 0x0C"] eq [of "CHR 0x0D"] by auto
    then show ?thesis
      by (elim insertE emptyE; subst json_str.simps)
         (simp_all add: json_byte_def Let_def simple_escape_def dquote_def bslash_def)
  next
    case 3
    have "0 \<le> ?n" by (rule of_char_nonneg)
    then have h: "hex4 (CHR ''0'') (CHR ''0'') (hex_digit (?n div 16)) (hex_digit (?n mod 16)) = Some ?n"
      using assms by (simp add: hex4_def hex_val_hex_digit) (simp add: hex_val_def)
    have "json_byte c = [bslash, CHR ''u'', CHR ''0'', CHR ''0'', hex_digit (?n div 16), hex_digit (?n mod 16)]"
      using 3 by (auto simp: json_byte_def Let_def)
    then show ?thesis
      using h assms by (subst json_str.simps) (simp add: dquote_def bslash_def rune_bytes_def numeral_nat)
  next
    case 4
    then have "c \<noteq> dquote" "c \<noteq> bslash" by (auto simp: dquote_def bslash_def)
    with 4 show ?thesis
      by (subst json_str.simps) (auto simp: json_byte_def Let_def)
  qed
qed

lemma json_str_marshal:
  "ascii s \<Longrightarrow> json_str (concat (map json_byte s) @ dquote # rest) = Some (s, rest)"
proof (induction s)
  case Nil
  show ?case by (subst json_str.simps) simp
next
  case (Cons c s)
  then show ?case by (simp add: ascii_def json_byte_parse)
qed

lemma skip_ws_solid: "c \<notin> {CHR '' '', CHR 0x09, CHR 0x0A, CHR 0x0D} \<Longrightarrow> skip_ws (c # cs) = c # cs"
  by simp

lemma digit_zero_iff: "0 \<le> d \<Longrightarrow> d < 10 \<Longrightarrow> digit d = CHR ''0'' \<longleftrightarrow> d = 0"
proof -
  assume d: "0 \<le> d" "d < 10"
  have z: "digit 0 = CHR ''0''" "digit_val CHR ''0'' = 0" by code_simp+
  then show "digit d = CHR ''0'' \<longleftrightarrow> d = 0" using digit_val_digit [OF d] by metis
qed

lemma hd_FormatUint_zero: "0 \<le> n \<Longrightarrow> hd (FormatUint n) = CHR ''0'' \<longleftrightarrow> n = 0"
proof (induction n rule: FormatUint.induct)
  case (1 n)
  then show ?case
    by (cases "n < 10") (auto simp: FormatUint.simps [of n] digit_zero_iff)
qed

lemma json_num_FormatUint:
  assumes "0 \<le> n" and "\<not> is_digit d" and "d \<notin> {CHR ''.'', CHR ''e'', CHR ''E''}"
  shows "json_num (FormatUint n @ d # rest) = Some (FormatUint n, d # rest)"
proof -
  obtain c cs where F: "FormatUint n = c # cs" using FormatUint_nonempty [of n] by (cases "FormatUint n") auto
  have dig: "\<forall>c \<in> set (FormatUint n). is_digit c" using assms(1) by (rule FormatUint_digits)
  have sign: "c \<noteq> CHR ''-''" using hd_FormatUint_no_sign(1) [OF assms(1)] F by simp
  have tw: "takeWhile is_digit (FormatUint n @ d # rest) = FormatUint n"
    "dropWhile is_digit (FormatUint n @ d # rest) = d # rest"
    using dig assms(2) by (simp_all add: takeWhile_append2 dropWhile_append2)
  have sg: "(case FormatUint n @ d # rest of [] \<Rightarrow> [] | c # _ \<Rightarrow> if c = CHR ''-'' then [c] else []) = []"
    using F sign by simp
  have ds: "(case FormatUint n @ d # rest of [] \<Rightarrow> []
      | c # _ \<Rightarrow> if c = CHR ''0'' then [c] else takeWhile is_digit (FormatUint n @ d # rest)) = FormatUint n"
  proof (cases "c = CHR ''0''")
    case True
    then have "n = 0" using hd_FormatUint_zero [OF assms(1)] F by simp
    then have "FormatUint n = [c]" using F by (simp add: FormatUint.simps [of 0])
    with True show ?thesis by simp
  next
    case False
    then show ?thesis unfolding tw using F by simp
  qed
  show ?thesis
    unfolding json_num_def Let_def sg list.size drop_0 ds
    using assms(3) by (simp add: json_frac_def json_exp_def)
qed

lemma json_value_string:
  "ascii t \<Longrightarrow> json_value (Suc n) (marshal_string t @ rest) = Some (JStr t, rest)"
  by (simp add: marshal_string_def json_str_marshal) (simp add: dquote_def)

lemma is_digit_solid:
  assumes "is_digit c"
  shows "c \<notin> {CHR '' '', CHR 0x09, CHR 0x0A, CHR 0x0D}" "c \<noteq> dquote" "c \<noteq> CHR ''[''" "c \<noteq> CHR ''{''"
    "c \<noteq> CHR ''n''" "c \<noteq> CHR ''t''" "c \<noteq> CHR ''f''"
  using assms by (auto simp: is_digit_def dquote_def)

lemma json_value_uint:
  assumes "0 \<le> k" and "\<not> is_digit d" and "d \<notin> {CHR ''.'', CHR ''e'', CHR ''E''}"
  shows "json_value (Suc n) (FormatUint k @ d # rest) = Some (JNum (FormatUint k), d # rest)"
proof -
  obtain c cs where F: "FormatUint k = c # cs" using FormatUint_nonempty [of k] by (cases "FormatUint k") auto
  then have c: "is_digit c" using hd_FormatUint_digit [OF assms(1)] by simp
  have "skip_ws (FormatUint k @ d # rest) = c # cs @ d # rest"
    using is_digit_solid(1) [OF c] F by simp
  then show ?thesis
    using is_digit_solid [OF c] json_num_FormatUint [OF assms, of rest] F
    by (simp add: HasPrefix_def)
qed

text \<open>What follows a member of an object: the next member or the closing brace.\<close>

lemma json_members_last:
  assumes "ascii k" and "json_value n (val @ CHR ''}'' # rest) = Some (v, CHR ''}'' # rest)"
  shows "json_members (Suc n) (marshal_member k val @ CHR ''}'' # rest) = Some ([(k, v)], rest)"
  using assms(2) json_str_marshal [OF assms(1), of "CHR '':'' # val @ CHR ''}'' # rest"]
  by (simp add: marshal_member_def marshal_string_def) (simp add: dquote_def)

lemma json_members_more:
  assumes "ascii k" and "json_value n (val @ CHR '','' # rest) = Some (v, CHR '','' # rest)"
    and "json_members n rest = Some (ms, rest')"
  shows "json_members (Suc n) (marshal_member k val @ CHR '','' # rest) = Some ((k, v) # ms, rest')"
  using assms(2,3) json_str_marshal [OF assms(1), of "CHR '':'' # val @ CHR '','' # rest"]
  by (simp add: marshal_member_def marshal_string_def) (simp add: dquote_def)

definition ascii_shard :: "Shard \<Rightarrow> bool" where
  "ascii_shard sh = (ascii (sh_ID sh) \<and> ascii (sh_Topic sh) \<and> ascii (sh_Phase sh))"

definition json_of_shard :: "Shard \<Rightarrow> json" where
  "json_of_shard sh = JObj
     [(''ID'', JStr (sh_ID sh)), (''Topic'', JStr (sh_Topic sh)),
      (''HashRangeStart'', JNum (FormatUint (uint (sh_HashRangeStart sh)))),
      (''HashRangeEnd'', JNum (FormatUint (uint (sh_HashRangeEnd sh)))), (''Phase'', JStr (sh_Phase sh))]"

lemma json_value_shard:
  assumes "ascii_shard sh"
  shows "json_value (n + 7) (marshal_shard sh @ rest) = Some (json_of_shard sh, rest)"
proof -
  let ?ms = "sep_by '',''
     [marshal_member ''ID'' (marshal_string (sh_ID sh)),
      marshal_member ''Topic'' (marshal_string (sh_Topic sh)),
      marshal_member ''HashRangeStart'' (FormatUint (uint (sh_HashRangeStart sh))),
      marshal_member ''HashRangeEnd'' (FormatUint (uint (sh_HashRangeEnd sh))),
      marshal_member ''Phase'' (marshal_string (sh_Phase sh))] @ CHR ''}'' # rest"
  have a: "ascii (sh_ID sh)" "ascii (sh_Topic sh)" "ascii (sh_Phase sh)"
    "ascii ''ID''" "ascii ''Topic''" "ascii ''HashRangeStart''" "ascii ''HashRangeEnd''" "ascii ''Phase''"
    using assms by (simp_all add: ascii_shard_def ascii_def)
  have sep: "\<not> is_digit CHR '',''" by (simp add: is_digit_def)
  have "json_members (Suc (Suc (Suc (Suc (Suc (Suc n)))))) ?ms = Some
     ([(''ID'', JStr (sh_ID sh)), (''Topic'', JStr (sh_Topic sh)),
      (''HashRangeStart'', JNum (FormatUint (uint (sh_HashRangeStart sh)))),
      (''HashRangeEnd'', JNum (FormatUint (uint (sh_HashRangeEnd sh)))), (''Phase'', JStr (sh_Phase sh))], rest)"
    by (simp only: sep_by.simps append_assoc append.simps)
       (intro json_members_more json_members_last json_value_string json_value_uint a sep; simp)
  moreover have "hd ?ms = dquote" "?ms \<noteq> []"
    by (simp_all add: marshal_member_def marshal_string_def)
  then have "skip_ws ?ms = ?ms" by (cases ?ms) (simp_all add: dquote_def)
  ultimately show ?thesis
    using \<open>hd ?ms = dquote\<close> \<open>?ms \<noteq> []\<close>
    by (cases ?ms) (simp_all add: marshal_shard_def json_of_shard_def numeral_nat dquote_def)
qed

lemma marshal_shard_shape: "\<exists>t. marshal_shard sh = CHR ''{'' # t \<and> 7 \<le> length t"
  by (simp add: marshal_shard_def marshal_member_def)

lemma marshal_shard_length: "8 \<le> length (marshal_shard sh)"
  using marshal_shard_shape [of sh] by auto

lemma json_elems_shards:
  assumes "list_all ascii_shard (sh # shs)"
  shows "json_elems (n + 8 + length shs) (sep_by '','' (map marshal_shard (sh # shs)) @ CHR '']'' # rest) =
    Some (map json_of_shard (sh # shs), rest)"
  using assms
proof (induction shs arbitrary: sh)
  case Nil
  then show ?case
    using json_value_shard [of sh n "CHR '']'' # rest"] by (simp add: numeral_nat)
next
  case (Cons sh' shs)
  let ?tl = "sep_by '','' (map marshal_shard (sh' # shs)) @ CHR '']'' # rest"
  have "json_value (n + 8 + length shs) (marshal_shard sh @ CHR '','' # ?tl) = Some (json_of_shard sh, CHR '','' # ?tl)"
    using json_value_shard [of sh "n + 1 + length shs"] Cons.prems by (simp add: algebra_simps)
  moreover have "json_elems (n + 8 + length shs) ?tl = Some (map json_of_shard (sh' # shs), rest)"
    using Cons by simp
  moreover have "n + 8 + length (sh' # shs) = Suc (n + 8 + length shs)" by simp
  ultimately show ?case by (simp only: json_elems.simps list.map sep_by.simps append_assoc append.simps) simp
qed

lemma into_shard_json: "into_shard (json_of_shard sh) = Inr sh"
proof -
  have names: "map ascii_lower ''ID'' = ''id''" "map ascii_lower ''Topic'' = ''topic''"
    "map ascii_lower ''HashRangeStart'' = ''hashrangestart''" "map ascii_lower ''HashRangeEnd'' = ''hashrangeend''"
    "map ascii_lower ''Phase'' = ''phase''" by code_simp+
  have num: "into_uint32 (JNum (FormatUint (uint w))) old = Inr w" for w old :: u32
  proof -
    have "uint w < 2 ^ 32" using uint_bounded [of w] by simp
    then show ?thesis by (simp add: into_uint32_def ParseUint_FormatUint)
  qed
  show ?thesis
    by (simp add: into_shard_def json_of_shard_def set_member_def names num into_string_def map_res_def
        zero_Shard_def del: list.map)
qed

lemma into_shards_json: "into_shards (map json_of_shard shs) = Inr shs"
  by (induction shs) (simp_all add: into_shard_json map_res_def)

lemma sep_by_length: "(\<And>x. x \<in> set xs \<Longrightarrow> k \<le> length x) \<Longrightarrow> k * length xs \<le> length (sep_by sep xs)"
proof (induction sep xs rule: sep_by.induct)
  case (3 sep x y xs)
  have "k \<le> length x" "k * length (y # xs) \<le> length (sep_by sep (y # xs))" using 3 by auto
  then show ?case by simp
qed simp_all

lemma unmarshal_marshal:
  assumes "list_all ascii_shard shs"
  shows "unmarshal_shards (marshal_shards shs) = Inr shs"
proof (cases shs)
  case Nil
  have "json_value 6 (marshal_shards []) = Some (JArr [], [])" by code_simp
  moreover have "2 * length (marshal_shards []) + 2 = 6" by (simp add: marshal_shards_def)
  ultimately show ?thesis using Nil by (simp add: unmarshal_shards_def)
next
  case (Cons sh rest)
  let ?body = "sep_by '','' (map marshal_shard (sh # rest))"
  let ?s = "marshal_shards shs"
  have "8 \<le> length x" if "x \<in> set (map marshal_shard (sh # rest))" for x
    using that marshal_shard_length by auto
  then have "8 * length (map marshal_shard (sh # rest)) \<le> length ?body" by (rule sep_by_length)
  then have "9 + length rest \<le> 2 * length ?s + 2" using Cons by (simp add: marshal_shards_def)
  then obtain n where n: "2 * length ?s + 2 = Suc (n + 8 + length rest)"
    by (metis add.assoc add.commute le_Suc_ex add_Suc_right Suc_numeral semiring_norm(5) add_Suc)
  obtain t where t: "?body = CHR ''{'' # t"
    using marshal_shard_shape [of sh] by (cases rest) auto
  have s: "?s = CHR ''['' # ?body @ CHR '']'' # []" using Cons by (simp add: marshal_shards_def)
  have el: "json_elems (n + 8 + length rest) (?body @ CHR '']'' # []) = Some (map json_of_shard (sh # rest), [])"
    using json_elems_shards [of sh rest n "[]"] assms Cons by simp
  have "json_value (Suc (n + 8 + length rest)) ?s = Some (JArr (map json_of_shard (sh # rest)), [])"
    using el unfolding s t by (simp only: json_value.simps) (simp add: dquote_def del: list.map)
  then show ?thesis
    using into_shards_json [of shs] Cons unfolding unmarshal_shards_def n by simp
qed

end
