(* ===== verification/Queue_Meta.thy ===== *)
theory Queue_Meta
  imports Inflight_Store Go_Json
begin

text \<open>
  Package \<^verbatim>\<open>internal/redis\<close>, files \<^verbatim>\<open>queuemeta.go\<close> and \<^verbatim>\<open>shardmap.go\<close>: the configuration snapshot
  and the shard map of a queue, published by the queue operator and read by the message
  plane. A point in time counts nanoseconds from the Unix epoch, the zero \<^verbatim>\<open>time.Time\<close> is the
  beginning of the year 1. The client library writes a boolean as 1 or 0, and the iterator
  over \<^verbatim>\<open>SCAN\<close> pages is one command here.
\<close>

section \<open>Queue configuration\<close>

record QueueMeta =
  qm_FIFO :: bool
  qm_VisibilityTimeoutSeconds :: int
  qm_MaxReceiveCount :: int
  qm_DLQQueueName :: string
  qm_PartitionsPerShard :: int
  qm_RetentionSeconds :: int
  qm_CreatedAt :: time

definition zero_time :: time where
  "zero_time = - 62135596800 * Second"

definition Unix :: "time \<Rightarrow> int" where
  "Unix t = t div Second"

definition queue_meta_fields :: "QueueMeta \<Rightarrow> time \<Rightarrow> (string \<times> string) list" where
  "queue_meta_fields m createdAt =
     [(''fifo'', if qm_FIFO m then ''1'' else ''0''),
      (''visibilityTimeoutSeconds'', FormatInt (qm_VisibilityTimeoutSeconds m)),
      (''maxReceiveCount'', FormatInt (qm_MaxReceiveCount m)),
      (''dlqQueueName'', qm_DLQQueueName m),
      (''partitionsPerShard'', FormatInt (qm_PartitionsPerShard m)),
      (''retentionSeconds'', FormatInt (qm_RetentionSeconds m)),
      (''createdAt'', FormatInt (Unix createdAt))]"

definition PutQueueMeta :: "'s redis \<Rightarrow> string \<Rightarrow> QueueMeta \<Rightarrow> time \<Rightarrow> 's \<Rightarrow> unit res \<times> 's" where
  "PutQueueMeta R queue m now s =
     (let key = QueueMetaKey queue;
          createdAt = (if qm_CreatedAt m = zero_time then now else qm_CreatedAt m) in
      on_ok (round_trip R (\<lambda>s. then_also (HSET R s key (queue_meta_fields m createdAt))
               (\<lambda>s. PUBLISH R s (QueueMetaChannel queue) ''invalidate'')) s)
        (wrapf (''put queue meta '' @ queue)) (\<lambda>_ s. (Inr (), s)))"

definition decode_queue_meta :: "(string \<times> string) list \<Rightarrow> QueueMeta" where
  "decode_queue_meta m = \<lparr>
     qm_FIFO = (map_field m ''fifo'' = ''1''),
     qm_VisibilityTimeoutSeconds = fst (ParseInt 32 (map_field m ''visibilityTimeoutSeconds'')),
     qm_MaxReceiveCount = fst (ParseInt 32 (map_field m ''maxReceiveCount'')),
     qm_DLQQueueName = map_field m ''dlqQueueName'',
     qm_PartitionsPerShard = fst (ParseInt 32 (map_field m ''partitionsPerShard'')),
     qm_RetentionSeconds = fst (ParseInt 32 (map_field m ''retentionSeconds'')),
     qm_CreatedAt = fst (ParseInt 64 (map_field m ''createdAt'')) * Second\<rparr>"

definition GetQueueMeta :: "'s redis \<Rightarrow> string \<Rightarrow> 's \<Rightarrow> QueueMeta option res \<times> 's" where
  "GetQueueMeta R queue s =
     on_ok (round_trip R (\<lambda>s. HGETALL R s (QueueMetaKey queue)) s)
       (wrapf (''get queue meta '' @ queue))
       (\<lambda>m s. if m = [] then (Inr None, s) else (Inr (Some (decode_queue_meta m)), s))"

definition DeleteQueueMeta :: "'s redis \<Rightarrow> string \<Rightarrow> 's \<Rightarrow> unit res \<times> 's" where
  "DeleteQueueMeta R queue s =
     on_ok (round_trip R (\<lambda>s. DEL R s (QueueMetaKey queue)) s)
       (wrapf (''delete queue meta '' @ queue)) (\<lambda>_ s. (Inr (), s))"

definition ListQueueNames :: "'s redis \<Rightarrow> 's \<Rightarrow> string list res \<times> 's" where
  "ListQueueNames R s =
     (let prefix = ''kmsvc:queue:'' in
      on_ok (round_trip R (\<lambda>s. SCAN R s prefix) s) (wrapf ''list queue names'')
        (\<lambda>ks s. (Inr (map (\<lambda>k. TrimPrefix k prefix) ks), s)))"

section \<open>Shard map\<close>

definition PutShardMap :: "'s redis \<Rightarrow> string \<Rightarrow> Shard list \<Rightarrow> 's \<Rightarrow> unit res \<times> 's" where
  "PutShardMap R queue shards s =
     (let data = marshal_shards shards in
      on_ok (round_trip R (\<lambda>s. then_also (SET R s (ShardMapKey queue) data)
               (\<lambda>s. PUBLISH R s (ShardMapChannel queue) ''invalidate'')) s)
        (wrapf (''put shard map '' @ queue)) (\<lambda>_ s. (Inr (), s)))"

definition GetShardMap :: "'s redis \<Rightarrow> string \<Rightarrow> 's \<Rightarrow> Shard list option res \<times> 's" where
  "GetShardMap R queue s =
     on_ok (round_trip R (\<lambda>s. GET R s (ShardMapKey queue)) s) (wrapf (''get shard map '' @ queue))
       (\<lambda>v s. case v of
          None \<Rightarrow> (Inr None, s)
        | Some data \<Rightarrow> (case unmarshal_shards data of
            Inl e \<Rightarrow> (Inl (wrapf (''unmarshal shard map '' @ queue) e), s)
          | Inr shards \<Rightarrow> (Inr (Some shards), s)))"

definition DeleteShardMap :: "'s redis \<Rightarrow> string \<Rightarrow> 's \<Rightarrow> unit res \<times> 's" where
  "DeleteShardMap R queue s =
     on_ok (round_trip R (\<lambda>s. DEL R s (ShardMapKey queue)) s)
       (wrapf (''delete shard map '' @ queue)) (\<lambda>_ s. (Inr (), s))"

section \<open>Lemmas\<close>

definition meta_in_range :: "QueueMeta \<Rightarrow> bool" where
  "meta_in_range m = (int_in_bits 32 (qm_VisibilityTimeoutSeconds m) \<and> int_in_bits 32 (qm_MaxReceiveCount m) \<and>
     int_in_bits 32 (qm_PartitionsPerShard m) \<and> int_in_bits 32 (qm_RetentionSeconds m))"

lemma queue_meta_fields_distinct: "distinct (map fst (queue_meta_fields m c))"
  by (simp add: queue_meta_fields_def)

lemma decode_queue_meta_put:
  assumes "meta_in_range m" and "int_in_bits 64 (Unix c)"
  shows "decode_queue_meta (hset_all (queue_meta_fields m c) h) = m\<lparr>qm_CreatedAt := Unix c * Second\<rparr>"
proof -
  have fields: "map_of (hset_all (queue_meta_fields m c) h) = map_of h ++ map_of (queue_meta_fields m c)"
    by (rule map_of_hset_all [OF queue_meta_fields_distinct])
  show ?thesis
    using assms unfolding decode_queue_meta_def map_field_def fields
    by (simp add: map_add_def queue_meta_fields_def meta_in_range_def ParseInt_FormatInt)
qed

lemma hset_all_nonempty: "fvs \<noteq> [] \<Longrightarrow> distinct (map fst fvs) \<Longrightarrow> hset_all fvs h \<noteq> []"
proof
  assume a: "fvs \<noteq> []" "distinct (map fst fvs)" "hset_all fvs h = []"
  then have "map_of h ++ map_of fvs = Map.empty" by (metis map_of_hset_all map_of.simps(1))
  then have "map_of fvs = Map.empty" by (metis map_add_None)
  with a(1) show False by simp
qed

context redis_quiet begin

lemma PutQueueMeta_ok:
  assumes "PutQueueMeta R q m now s = (Inr (), s')"
  shows "clock s \<le> clock s' \<and>
    (\<exists>e. cmd_hset (clock s') (queue_meta_fields m (if qm_CreatedAt m = zero_time then now else qm_CreatedAt m))
        (ks s (QueueMetaKey q)) = (Inr (), e) \<and> ks s' = (ks s)(QueueMetaKey q := e))"
  using assms unfolding PutQueueMeta_def Let_def
  by (elim round_tripE then_alsoE) (auto dest!: cmd_D)

lemma GetQueueMeta_ok:
  assumes "GetQueueMeta R q s = (Inr r, s')"
  shows "clock s \<le> clock s' \<and> ks s' = ks s \<and>
    r = (let m = as_hash (clock s') (ks s (QueueMetaKey q)) in if m = [] then None else Some (decode_queue_meta m))"
  using assms unfolding GetQueueMeta_def
  by (elim round_tripE) (auto dest!: cmd_D dest: hgetall_ok [OF sym] split: if_splits)

lemma DeleteQueueMeta_ok:
  assumes "DeleteQueueMeta R q s = (Inr (), s')"
  shows "clock s \<le> clock s' \<and> ks s' = (ks s)(QueueMetaKey q := None)"
  using assms unfolding DeleteQueueMeta_def by (elim round_tripE) (auto dest!: cmd_D)

lemma PutShardMap_ok:
  assumes "PutShardMap R q shards s = (Inr (), s')"
  shows "clock s \<le> clock s' \<and> ks s' = (ks s)(ShardMapKey q := Some (RStr (marshal_shards shards), None))"
  using assms unfolding PutShardMap_def Let_def
  by (elim round_tripE then_alsoE) (auto dest!: cmd_D)

lemma GetShardMap_ok:
  assumes "GetShardMap R q s = (Inr r, s')"
  shows "clock s \<le> clock s' \<and> ks s' = ks s \<and>
    (case as_str (clock s') (ks s (ShardMapKey q)) of
       None \<Rightarrow> r = None
     | Some data \<Rightarrow> (\<exists>shards. unmarshal_shards data = Inr shards \<and> r = Some shards))"
  using assms unfolding GetShardMap_def
  by (elim round_tripE) (auto dest!: cmd_D dest: get_ok [OF sym] split: option.splits sum.splits)

lemma DeleteShardMap_ok:
  assumes "DeleteShardMap R q s = (Inr (), s')"
  shows "clock s \<le> clock s' \<and> ks s' = (ks s)(ShardMapKey q := None)"
  using assms unfolding DeleteShardMap_def by (elim round_tripE) (auto dest!: cmd_D)

lemma PutQueueMeta_stored:
  assumes "PutQueueMeta R q m now s = (Inr (), s1)" and "deadline (ks s (QueueMetaKey q)) = None"
  shows "\<exists>h. ks s1 (QueueMetaKey q) = Some (RHash (hset_all (queue_meta_fields m
    (if qm_CreatedAt m = zero_time then now else qm_CreatedAt m)) h), None)"
proof -
  define c where "c = (if qm_CreatedAt m = zero_time then now else qm_CreatedAt m)"
  from PutQueueMeta_ok [OF assms(1)] obtain e where
    e: "cmd_hset (clock s1) (queue_meta_fields m c) (ks s (QueueMetaKey q)) = (Inr (), e)" "ks s1 (QueueMetaKey q) = e"
    unfolding c_def by auto
  with hset_alive [of "clock s1" "queue_meta_fields m c" "ks s (QueueMetaKey q)" "()"] assms(2) show ?thesis
    unfolding c_def by auto
qed

lemma meta_put_get:
  assumes "PutQueueMeta R q m now s = (Inr (), s1)" and "deadline (ks s (QueueMetaKey q)) = None"
    and "meta_in_range m" and "int_in_bits 64 (Unix c)"
    and c: "c = (if qm_CreatedAt m = zero_time then now else qm_CreatedAt m)"
    and "ks s2 (QueueMetaKey q) = ks s1 (QueueMetaKey q)" and "GetQueueMeta R q s2 = (Inr r, s3)"
  shows "r = Some (m\<lparr>qm_CreatedAt := Unix c * Second\<rparr>)"
proof -
  obtain h where "ks s1 (QueueMetaKey q) = Some (RHash (hset_all (queue_meta_fields m c) h), None)"
    using PutQueueMeta_stored [OF assms(1,2)] unfolding c by blast
  then have "as_hash (clock s3) (ks s2 (QueueMetaKey q)) = hset_all (queue_meta_fields m c) h"
    using assms(6) by (simp add: as_hash_def)
  moreover have "hset_all (queue_meta_fields m c) h \<noteq> []"
    by (rule hset_all_nonempty [OF _ queue_meta_fields_distinct]) (simp add: queue_meta_fields_def)
  ultimately show ?thesis
    using GetQueueMeta_ok [OF assms(7)] decode_queue_meta_put [OF assms(3,4)] by (simp add: Let_def)
qed

lemma shard_map_put_get:
  assumes "PutShardMap R q shards s = (Inr (), s1)" and "list_all ascii_shard shards"
    and "ks s2 (ShardMapKey q) = ks s1 (ShardMapKey q)" and "GetShardMap R q s2 = (Inr r, s3)"
  shows "r = Some shards"
  using PutShardMap_ok [OF assms(1)] GetShardMap_ok [OF assms(4)] assms(3) unmarshal_marshal [OF assms(2)]
  by (simp add: as_str_def)

lemma ListQueueNames_ok:
  assumes "ListQueueNames R s = (Inr names, s')"
  shows "set names = {q. live (clock s') (ks s (QueueMetaKey q))} \<and> ks s' = ks s"
proof -
  from assms obtain s0 found where f: "SCAN R s0 ''kmsvc:queue:'' = (Inr found, s')" "ks s0 = ks s"
    and names: "names = map (\<lambda>k. TrimPrefix k ''kmsvc:queue:'') found"
    unfolding ListQueueNames_def Let_def by (elim round_tripE) auto
  have s': "ks s' = ks s" "clock s' = clock s0"
    using scan_frame [of s0 "''kmsvc:queue:''"] f by simp_all
  have "set found = {k. HasPrefix k ''kmsvc:queue:'' \<and> live (clock s0) (ks s k)}"
    using scan_doc [of s0 "''kmsvc:queue:''" found] f by simp
  moreover have "HasPrefix k ''kmsvc:queue:'' \<longleftrightarrow> (\<exists>q. k = QueueMetaKey q)" for k
    unfolding HasPrefix_def QueueMetaKey_def by (metis append_eq_conv_conj append_take_drop_id)
  ultimately have "set found = QueueMetaKey ` {q. live (clock s0) (ks s (QueueMetaKey q))}" by auto
  moreover have "TrimPrefix (QueueMetaKey q) ''kmsvc:queue:'' = q" for q
    unfolding QueueMetaKey_def by (rule TrimPrefix_append)
  ultimately show ?thesis unfolding names s' by (simp add: image_image)
qed

end


section \<open>Properties\<close>

definition demo_meta :: QueueMeta where
  "demo_meta = \<lparr>qm_FIFO = True, qm_VisibilityTimeoutSeconds = 30, qm_MaxReceiveCount = 5,
     qm_DLQQueueName = ''orders-dlq'', qm_PartitionsPerShard = 6, qm_RetentionSeconds = 345600,
     qm_CreatedAt = 1700000000 * Second + 5\<rparr>"

definition demo_empty :: mem where
  "demo_empty = \<lparr>m_db = [], m_clock = 1000, m_links = []\<rparr>"

text \<open>
  The configuration the operator publishes is the configuration the message plane reads:
  after a successful \<^verbatim>\<open>PutQueueMeta\<close>, whatever fields the hash had before, \<^verbatim>\<open>GetQueueMeta\<close>
  returns every field as published, with the creation time (the time of the call when it was
  unset) cut to whole seconds.
\<close>

theorem queue_meta_round_trip:
  assumes "redis_quiet R ks clock"
    and "PutQueueMeta R q m now s = (Inr (), s1)" and "GetQueueMeta R q s1 = (Inr r, s2)"
    and "deadline (ks s (QueueMetaKey q)) = None" and "meta_in_range m"
    and "int_in_bits 64 (Unix (if qm_CreatedAt m = zero_time then now else qm_CreatedAt m))"
  shows "r = Some (m\<lparr>qm_CreatedAt :=
      Unix (if qm_CreatedAt m = zero_time then now else qm_CreatedAt m) * Second\<rparr>)"
  by (rule redis_quiet.meta_put_get [OF assms(1,2,4-6) refl refl assms(3)])

theorem queue_meta_round_trip_witness:
  "fst (GetQueueMeta mem_redis ''orders'' (snd (PutQueueMeta mem_redis ''orders'' demo_meta 0 demo_empty))) =
     Inr (Some (demo_meta\<lparr>qm_CreatedAt := 1700000000 * Second\<rparr>)) \<and>
   Some (demo_meta\<lparr>qm_CreatedAt := 1700000000 * Second\<rparr>) = Some (demo_meta\<lparr>qm_CreatedAt :=
      Unix (if qm_CreatedAt demo_meta = zero_time then 0 else qm_CreatedAt demo_meta) * Second\<rparr>)"
proof -
  let ?s1 = "snd (PutQueueMeta mem_redis ''orders'' demo_meta 0 demo_empty)"
  have p: "fst (PutQueueMeta mem_redis ''orders'' demo_meta 0 demo_empty) = Inr ()"
    and g: "fst (GetQueueMeta mem_redis ''orders'' ?s1) = Inr (Some (demo_meta\<lparr>qm_CreatedAt := 1700000000 * Second\<rparr>))"
    and d: "deadline (mem_ks demo_empty (QueueMetaKey ''orders'')) = None" "meta_in_range demo_meta"
      "int_in_bits 64 (Unix (if qm_CreatedAt demo_meta = zero_time then 0 else qm_CreatedAt demo_meta))"
    by code_simp+
  from queue_meta_round_trip [OF mem.redis_quiet_axioms, OF run_eqI [OF p] run_eqI [OF g] d] g show ?thesis by blast
qed

text \<open>
  C27. The shard map survives its JSON encoding: what \<^verbatim>\<open>PutShardMap\<close> has stored, \<^verbatim>\<open>GetShardMap\<close>
  decodes to the same shards in the same order, all five fields and the full range of 32-bit
  hash bounds included (names and phases being ASCII, as Kubernetes names are).
\<close>

theorem shard_map_round_trip:
  assumes "redis_quiet R ks clock" and "list_all ascii_shard shards"
    and "PutShardMap R q shards s = (Inr (), s1)" and "GetShardMap R q s1 = (Inr r, s2)"
  shows "r = Some shards"
  by (rule redis_quiet.shard_map_put_get [OF assms(1,3,2) refl assms(4)])

theorem shard_map_round_trip_witness:
  "fst (GetShardMap mem_redis ''orders'' (snd (PutShardMap mem_redis ''orders'' [shard0] demo_empty))) =
     Inr (Some [shard0]) \<and> Some [shard0] = Some [shard0]"
proof -
  let ?s1 = "snd (PutShardMap mem_redis ''orders'' [shard0] demo_empty)"
  have a: "list_all ascii_shard [shard0]"
    and p: "fst (PutShardMap mem_redis ''orders'' [shard0] demo_empty) = Inr ()"
    and g: "fst (GetShardMap mem_redis ''orders'' ?s1) = Inr (Some [shard0])" by code_simp+
  from shard_map_round_trip [OF mem.redis_quiet_axioms a, OF run_eqI [OF p] run_eqI [OF g]] g show ?thesis by blast
qed

text \<open>
  Queue discovery is exact: \<^verbatim>\<open>ListQueueNames\<close> returns the names of precisely the queues
  that have a published configuration, and changes nothing. Keys of other families, such as
  queue locks or invalidation channels, are never mistaken for queues.
\<close>

theorem ListQueueNames_exact:
  assumes "redis_quiet R ks clock" and "ListQueueNames R s = (Inr names, s')"
  shows "set names = {q. live (clock s') (ks s (QueueMetaKey q))} \<and> ks s' = ks s"
  by (rule redis_quiet.ListQueueNames_ok [OF assms])

theorem ListQueueNames_exact_witness:
  "mem_ks (snd (ListQueueNames mem_redis (snd (PutQueueMeta mem_redis ''orders'' demo_meta 0 demo_empty)))) =
     mem_ks (snd (PutQueueMeta mem_redis ''orders'' demo_meta 0 demo_empty)) \<and>
   fst (ListQueueNames mem_redis (snd (PutQueueMeta mem_redis ''orders'' demo_meta 0 demo_empty))) = Inr [''orders'']"
proof -
  let ?s1 = "snd (PutQueueMeta mem_redis ''orders'' demo_meta 0 demo_empty)"
  have l: "fst (ListQueueNames mem_redis ?s1) = Inr [''orders'']" by code_simp
  from ListQueueNames_exact [OF mem.redis_quiet_axioms, OF run_eqI [OF l]] l show ?thesis by blast
qed

end
