(* ===== verification/Kafka_Client.thy ===== *)
theory Kafka_Client
  imports Kafka_Topology
begin

text \<open>
  Package \<^verbatim>\<open>internal/kafka\<close>, files \<^verbatim>\<open>admin.go\<close>, \<^verbatim>\<open>produce.go\<close> and \<^verbatim>\<open>consume.go\<close>. The Kafka client
  library and the brokers are not part of the repository: the calls the program makes to
  them are the record \<open>'k kafka_api\<close> over an opaque state, a parameter of every definition.
  The functions here are the program's wrappers: which replies count as success, how errors
  are wrapped, what is summed. \<open>mem_kafka\<close> is an executable instance of the parameter for
  the concrete instances of the properties.
\<close>

section \<open>The client library as a parameter\<close>

record Record =
  kr_Topic :: string
  kr_Partition :: int
  kr_Offset :: int
  kr_Key :: string
  kr_Value :: string

text \<open>A described topic: its own error, and the replica broker ids of each partition.\<close>

record topic_detail =
  td_Err :: "go_error option"
  td_Partitions :: "int list list"

text \<open>A described consumer group: its error, and the total lag of each topic it has one for.\<close>

record described_group =
  dg_Error :: "go_error option"
  dg_TotalByTopic :: "string \<rightharpoonup> int"

record 'k kafka_api =
  ProduceSync :: "'k \<Rightarrow> string \<Rightarrow> int \<Rightarrow> string option \<Rightarrow> string \<Rightarrow> int res \<times> 'k"
  PollFetches :: "'k \<Rightarrow> duration \<Rightarrow> (go_error list \<times> Record list) \<times> 'k"
  CreateTopics :: "'k \<Rightarrow> int \<Rightarrow> int \<Rightarrow> (string \<times> string) list \<Rightarrow> string \<Rightarrow> go_error option list res \<times> 'k"
  DeleteTopics :: "'k \<Rightarrow> string \<Rightarrow> go_error option list res \<times> 'k"
  ListTopics :: "'k \<Rightarrow> string \<Rightarrow> (string \<rightharpoonup> topic_detail) res \<times> 'k"
  ListEndOffsets :: "'k \<Rightarrow> string \<Rightarrow> (go_error option \<times> int) list list res \<times> 'k"
  Lag :: "'k \<Rightarrow> string \<Rightarrow> (string \<rightharpoonup> described_group) res \<times> 'k"
  CommitOffsets :: "'k \<Rightarrow> string \<Rightarrow> string \<Rightarrow> int \<Rightarrow> int \<Rightarrow> go_error option res \<times> 'k"

section \<open>Producing and polling\<close>

definition Produce :: "'k kafka_api \<Rightarrow> string \<Rightarrow> int \<Rightarrow> string option \<Rightarrow> string \<Rightarrow> 'k \<Rightarrow> int res \<times> 'k" where
  "Produce K topic part key val k =
     on_ok (ProduceSync K k topic part key val)
       (wrapf (''producing to '' @ topic @ ''/'' @ FormatInt part)) (\<lambda>offset k. (Inr offset, k))"

text \<open>One error of the fetch hides all its records.\<close>

definition Poll :: "'k kafka_api \<Rightarrow> duration \<Rightarrow> 'k \<Rightarrow> Record list res \<times> 'k" where
  "Poll K timeout k =
     (case PollFetches K k timeout of ((errs, records), k') \<Rightarrow>
       (case errs of e # _ \<Rightarrow> Inl (wrapf ''poll fetches'' e) | [] \<Rightarrow> Inr records, k'))"

section \<open>Topic administration\<close>

record TopicConfig =
  tc_PartitionCount :: int
  tc_ReplicationFactor :: int
  tc_RetentionSeconds :: int
  tc_MinInsyncReplicas :: int

definition containsCode :: "go_error \<Rightarrow> string \<Rightarrow> bool" where
  "containsCode err code =
     (Error err = code \<or> (length code \<le> length (Error err) \<and> take (length code) (Error err) = code))"

definition isTopicExistsErr :: "go_error option \<Rightarrow> bool" where
  "isTopicExistsErr err = (case err of None \<Rightarrow> False
     | Some e \<Rightarrow> Error e = ''TOPIC_ALREADY_EXISTS'' \<or> containsCode e ''TOPIC_ALREADY_EXISTS'')"

definition isUnknownTopicErr :: "go_error option \<Rightarrow> bool" where
  "isUnknownTopicErr err = (case err of None \<Rightarrow> False
     | Some e \<Rightarrow> containsCode e ''UNKNOWN_TOPIC_OR_PARTITION'')"

text \<open>The first error of the per-topic responses that is not tolerated.\<close>

definition first_hard_error :: "(go_error option \<Rightarrow> bool) \<Rightarrow> go_error option list \<Rightarrow> go_error option" where
  "first_hard_error tolerated resp =
     (case List.find (\<lambda>t. t \<noteq> None \<and> \<not> tolerated t) resp of None \<Rightarrow> None | Some t \<Rightarrow> t)"

definition topic_configs :: "TopicConfig \<Rightarrow> (string \<times> string) list" where
  "topic_configs cfg =
     [(''retention.ms'', FormatInt (tc_RetentionSeconds cfg * 1000)),
      (''cleanup.policy'', ''delete''),
      (''min.insync.replicas'', FormatInt (tc_MinInsyncReplicas cfg))]"

definition CreateTopic :: "'k kafka_api \<Rightarrow> string \<Rightarrow> TopicConfig \<Rightarrow> 'k \<Rightarrow> unit res \<times> 'k" where
  "CreateTopic K topic cfg k =
     on_ok (CreateTopics K k (tc_PartitionCount cfg) (tc_ReplicationFactor cfg) (topic_configs cfg) topic)
       (wrapf (''create topic '' @ Quote topic))
       (\<lambda>resp k. case first_hard_error isTopicExistsErr resp of
          Some e \<Rightarrow> (Inl (wrapf (''create topic '' @ Quote topic) e), k)
        | None \<Rightarrow> (Inr (), k))"

definition DeleteTopic :: "'k kafka_api \<Rightarrow> string \<Rightarrow> 'k \<Rightarrow> unit res \<times> 'k" where
  "DeleteTopic K topic k =
     on_ok (DeleteTopics K k topic) (wrapf (''delete topic '' @ Quote topic))
       (\<lambda>resp k. case first_hard_error isUnknownTopicErr resp of
          Some e \<Rightarrow> (Inl (wrapf (''delete topic '' @ Quote topic) e), k)
        | None \<Rightarrow> (Inr (), k))"

definition found_topic :: "(string \<rightharpoonup> topic_detail) \<Rightarrow> string \<Rightarrow> topic_detail option" where
  "found_topic td topic = (case td topic of
     Some d \<Rightarrow> if td_Err d = None then Some d else None | None \<Rightarrow> None)"

definition DescribeTopic :: "'k kafka_api \<Rightarrow> string \<Rightarrow> 'k \<Rightarrow> int option res \<times> 'k" where
  "DescribeTopic K topic k =
     on_ok (ListTopics K k topic) (wrapf (''describe topic '' @ Quote topic))
       (\<lambda>td k. case found_topic td topic of
          None \<Rightarrow> (Inr None, k)
        | Some d \<Rightarrow> (Inr (Some (int (length (td_Partitions d)))), k))"

text \<open>The loop that keeps the first occurrence of every broker id.\<close>

fun collect_ids :: "int list \<Rightarrow> int list \<Rightarrow> int list" where
  "collect_ids ids [] = ids"
| "collect_ids ids (i # is) = collect_ids (if i \<in> set ids then ids else ids @ [i]) is"

definition ReplicaBrokerIDs :: "'k kafka_api \<Rightarrow> string \<Rightarrow> 'k \<Rightarrow> int list res \<times> 'k" where
  "ReplicaBrokerIDs K topic k =
     on_ok (ListTopics K k topic) (wrapf (''list topics '' @ Quote topic))
       (\<lambda>td k. case found_topic td topic of
          None \<Rightarrow> (Inr [], k)
        | Some d \<Rightarrow> (Inr (collect_ids [] (concat (td_Partitions d))), k))"

text \<open>An \<^verbatim>\<open>int64\<close> sum wraps around.\<close>

definition wrap64 :: "int \<Rightarrow> int" where
  "wrap64 n = (n + 2 ^ 63) mod 2 ^ 64 - 2 ^ 63"

fun sum_offsets :: "int \<Rightarrow> (go_error option \<times> int) list \<Rightarrow> int" where
  "sum_offsets acc [] = acc"
| "sum_offsets acc ((err, off) # os) = sum_offsets (if err \<noteq> None then acc else wrap64 (acc + off)) os"

definition LogEndOffsetSum :: "'k kafka_api \<Rightarrow> string \<Rightarrow> 'k \<Rightarrow> int res \<times> 'k" where
  "LogEndOffsetSum K topic k =
     on_ok (ListEndOffsets K k topic) (wrapf (''list end offsets '' @ Quote topic))
       (\<lambda>offsets k. (Inr (sum_offsets 0 (concat offsets)), k))"

definition ConsumerLag :: "'k kafka_api \<Rightarrow> string \<Rightarrow> string \<Rightarrow> 'k \<Rightarrow> int res \<times> 'k" where
  "ConsumerLag K grp topic k =
     on_ok (Lag K k grp) (wrapf (''lag for group '' @ Quote grp))
       (\<lambda>lags k. case lags grp of
          None \<Rightarrow> (Inr 0, k)
        | Some d \<Rightarrow>
            if dg_Error d \<noteq> None then (Inr 0, k)
            else (Inr (case dg_TotalByTopic d topic of Some l \<Rightarrow> l | None \<Rightarrow> 0), k))"

definition CommitOffset :: "'k kafka_api \<Rightarrow> string \<Rightarrow> string \<Rightarrow> int \<Rightarrow> int \<Rightarrow> 'k \<Rightarrow> unit res \<times> 'k" where
  "CommitOffset K grp topic part offset k =
     (let what = ''commit offset '' @ grp @ ''/'' @ topic @ ''/'' @ FormatInt part in
      on_ok (CommitOffsets K k grp topic part offset) (wrapf what)
        (\<lambda>resp k. case resp of Some e \<Rightarrow> (Inl (wrapf what e), k) | None \<Rightarrow> (Inr (), k)))"

section \<open>Lemmas\<close>

lemma containsCode_prefix: "containsCode e code \<longleftrightarrow> HasPrefix (Error e) code"
proof -
  have "take (length code) (Error e) = code \<Longrightarrow> length code \<le> length (Error e)"
    by (metis length_take min.cobounded1)
  then show ?thesis by (auto simp: containsCode_def HasPrefix_def)
qed

lemma first_hard_error_None:
  "first_hard_error tol resp = None \<longleftrightarrow> (\<forall>t \<in> set resp. t = None \<or> tol t)"
  unfolding first_hard_error_def by (induction resp) auto

lemma CreateTopic_ok:
  "fst (CreateTopic K topic cfg k) = Inr () \<longleftrightarrow>
    (\<exists>resp. fst (CreateTopics K k (tc_PartitionCount cfg) (tc_ReplicationFactor cfg) (topic_configs cfg) topic) = Inr resp \<and>
      (\<forall>t \<in> set resp. t = None \<or> isTopicExistsErr t))"
proof (cases "CreateTopics K k (tc_PartitionCount cfg) (tc_ReplicationFactor cfg) (topic_configs cfg) topic")
  case (Pair r k')
  then show ?thesis
    by (cases r) (auto simp: CreateTopic_def first_hard_error_None [symmetric] split: option.splits)
qed

lemma collect_ids_spec:
  "distinct ids \<Longrightarrow> distinct (collect_ids ids is) \<and> set (collect_ids ids is) = set ids \<union> set is"
proof (induction ids "is" rule: collect_ids.induct)
  case (2 ids i "is")
  then show ?case by (auto simp: insert_absorb)
qed simp

lemma wrap64_id: "int_in_bits 64 n \<Longrightarrow> wrap64 n = n"
  by (simp add: wrap64_def int_in_bits_def)

section \<open>Contract of topic administration\<close>

text \<open>
  \<open>topics\<close> are the existing topics, \<open>lag\<close> is what the client library reports as the lag of a
  group on a topic. A request for one topic is answered by one result; creating or deleting
  a topic concerns that topic only, and reading lags changes nothing.
\<close>

locale topic_store =
  fixes K :: "'k kafka_api" and topics :: "'k \<Rightarrow> string set" and lag :: "'k \<Rightarrow> string \<Rightarrow> string \<Rightarrow> int"
  assumes create: "CreateTopics K k n r cfg t = (Inr resp, k') \<Longrightarrow>
      \<exists>e. resp = [e] \<and> (e = None \<longrightarrow> topics k' = insert t (topics k)) \<and>
        (isTopicExistsErr e \<longrightarrow> t \<in> topics k \<and> topics k' = topics k)"
    and delete: "DeleteTopics K k t = (Inr resp, k') \<Longrightarrow>
      \<exists>e. resp = [e] \<and> (e = None \<or> isUnknownTopicErr e \<longrightarrow> topics k' = topics k - {t}) \<and>
        (\<forall>g t'. t' \<noteq> t \<longrightarrow> lag k' g t' = lag k g t')"
    and read_lag: "Lag K k g = (Inr m, k') \<Longrightarrow> topics k' = topics k \<and> lag k' = lag k \<and>
      (case m g of Some d \<Rightarrow> (if dg_Error d = None then (case dg_TotalByTopic d t of Some l \<Rightarrow> l | None \<Rightarrow> 0) else 0)
       | None \<Rightarrow> 0) = lag k g t"
begin

lemma CreateTopic_stored:
  assumes "CreateTopic K t cfg k = (Inr (), k')" shows "topics k' = insert t (topics k)"
proof -
  from assms obtain resp where c: "CreateTopics K k (tc_PartitionCount cfg) (tc_ReplicationFactor cfg) (topic_configs cfg) t = (Inr resp, k')"
    and "first_hard_error isTopicExistsErr resp = None"
    unfolding CreateTopic_def by (auto elim!: on_okE split: option.splits)
  with create [OF c] show ?thesis by (auto simp: first_hard_error_None)
qed

lemma DeleteTopic_stored:
  assumes "DeleteTopic K t k = (Inr (), k')"
  shows "topics k' = topics k - {t} \<and> (\<forall>g t'. t' \<noteq> t \<longrightarrow> lag k' g t' = lag k g t')"
proof -
  from assms obtain resp where c: "DeleteTopics K k t = (Inr resp, k')"
    and "first_hard_error isUnknownTopicErr resp = None"
    unfolding DeleteTopic_def by (auto elim!: on_okE split: option.splits)
  with delete [OF c] show ?thesis by (auto simp: first_hard_error_None)
qed

lemma ConsumerLag_reads:
  assumes "ConsumerLag K g t k = (Inr l, k')" shows "l = lag k g t \<and> topics k' = topics k \<and> lag k' = lag k"
  using assms read_lag [of k g _ k' t] unfolding ConsumerLag_def
  by (auto elim!: on_okE split: option.splits if_splits)

end

section \<open>A reference broker\<close>

text \<open>Logs per partition, a script of polls and produce failures, and the commits made.\<close>

record kmem =
  k_log :: "((string \<times> int) \<times> (string option \<times> string) list) list"
  k_down :: "bool list"
  k_polls :: "(go_error list \<times> Record list) list"
  k_commits :: "(string \<times> string \<times> int \<times> int) list"
  k_lags :: "(string \<times> string \<times> int) list"
  k_topics :: "string list"

definition klog :: "kmem \<Rightarrow> string \<Rightarrow> int \<Rightarrow> (string option \<times> string) list" where
  "klog k topic part = (case map_of (k_log k) (topic, part) of Some l \<Rightarrow> l | None \<Rightarrow> [])"

definition mem_kafka :: "kmem kafka_api" where
  "mem_kafka = \<lparr>
     ProduceSync = (\<lambda>k topic part key val.
       case k_down k of
         True # ds \<Rightarrow> (Inl (ErrText ''broker down''), k\<lparr>k_down := ds\<rparr>)
       | _ \<Rightarrow> (Inr (int (length (klog k topic part))),
            k\<lparr>k_down := tl (k_down k), k_log := AList.update (topic, part) (klog k topic part @ [(key, val)]) (k_log k)\<rparr>)),
     PollFetches = (\<lambda>k timeout. case k_polls k of [] \<Rightarrow> (([], []), k) | p # ps \<Rightarrow> (p, k\<lparr>k_polls := ps\<rparr>)),
     CreateTopics = (\<lambda>k n r cfg topic.
       if topic \<in> set (k_topics k) then (Inr [Some (ErrText ''TOPIC_ALREADY_EXISTS: Topic already exists.'')], k)
       else (Inr [None], k\<lparr>k_topics := topic # k_topics k\<rparr>)),
     DeleteTopics = (\<lambda>k topic. (Inr [None], k\<lparr>k_topics := removeAll topic (k_topics k)\<rparr>)),
     ListTopics = (\<lambda>k topic. (Inr (\<lambda>t. if t \<in> set (k_topics k) then Some \<lparr>td_Err = None, td_Partitions = [[1, 2], [2, 1]]\<rparr> else None), k)),
     ListEndOffsets = (\<lambda>k topic. (Inr [[(None, int (length (klog k topic 0)))]], k)),
     Lag = (\<lambda>k grp. (Inr [grp \<mapsto> \<lparr>dg_Error = None, dg_TotalByTopic =
        (\<lambda>topic. map_option snd (List.find (\<lambda>(t, _). t = topic) (map snd (filter (\<lambda>(g, _). g = grp) (k_lags k)))))\<rparr>], k)),
     CommitOffsets = (\<lambda>k grp topic part off. (Inr None, k\<lparr>k_commits := k_commits k @ [(grp, topic, part, off)]\<rparr>))\<rparr>"

definition kmem0 :: kmem where
  "kmem0 = \<lparr>k_log = [], k_down = [], k_polls = [], k_commits = [], k_lags = [], k_topics = []\<rparr>"

definition kmem_lag :: "kmem \<Rightarrow> string \<Rightarrow> string \<Rightarrow> int" where
  "kmem_lag k grp topic =
     (case List.find (\<lambda>(t, _). t = topic) (map snd (filter (\<lambda>(g, _). g = grp) (k_lags k))) of Some (_, l) \<Rightarrow> l | None \<Rightarrow> 0)"

lemma mem_kafka_admin:
  "CreateTopics mem_kafka k n r cfg t =
     (if t \<in> set (k_topics k) then (Inr [Some (ErrText ''TOPIC_ALREADY_EXISTS: Topic already exists.'')], k)
      else (Inr [None], k\<lparr>k_topics := t # k_topics k\<rparr>))"
  "DeleteTopics mem_kafka k t = (Inr [None], k\<lparr>k_topics := removeAll t (k_topics k)\<rparr>)"
  "Lag mem_kafka k grp = (Inr [grp \<mapsto> \<lparr>dg_Error = None, dg_TotalByTopic =
        (\<lambda>topic. map_option snd (List.find (\<lambda>(t, _). t = topic) (map snd (filter (\<lambda>(g, _). g = grp) (k_lags k)))))\<rparr>], k)"
  by (simp_all add: mem_kafka_def)

interpretation mem_topics: topic_store mem_kafka "\<lambda>k. set (k_topics k)" kmem_lag
proof
  show "\<exists>e. resp = [e] \<and> (e = None \<longrightarrow> set (k_topics k') = insert t (set (k_topics k))) \<and>
      (isTopicExistsErr e \<longrightarrow> t \<in> set (k_topics k) \<and> set (k_topics k') = set (k_topics k))"
    if "CreateTopics mem_kafka k n r cfg t = (Inr resp, k')" for k n r cfg t resp k'
    using that unfolding mem_kafka_admin by (auto simp: isTopicExistsErr_def split: if_splits)
  show "\<exists>e. resp = [e] \<and> (e = None \<or> isUnknownTopicErr e \<longrightarrow> set (k_topics k') = set (k_topics k) - {t}) \<and>
      (\<forall>g t'. t' \<noteq> t \<longrightarrow> kmem_lag k' g t' = kmem_lag k g t')"
    if "DeleteTopics mem_kafka k t = (Inr resp, k')" for k t resp k'
    using that unfolding mem_kafka_admin by (auto simp: kmem_lag_def)
  show "set (k_topics k') = set (k_topics k) \<and> kmem_lag k' = kmem_lag k \<and>
      (case m g of Some d \<Rightarrow> (if dg_Error d = None then (case dg_TotalByTopic d t of Some l \<Rightarrow> l | None \<Rightarrow> 0) else 0)
       | None \<Rightarrow> 0) = kmem_lag k g t" if "Lag mem_kafka k g = (Inr m, k')" for k g m k' t
    using that unfolding mem_kafka_admin by (auto simp: kmem_lag_def split: option.splits)
qed

end
