(* ===== verification/Message_Plane.thy ===== *)
theory Message_Plane
  imports Queue_Meta Kafka_Client
begin

text \<open>
  The state the message-plane services act on: the Redis server, the Kafka cluster and the
  process environment (clock, random identifiers, request context), each a parameter. A
  service call is a function of the whole world; \<open>redis_do\<close>, \<open>kafka_do\<close> and \<open>with_now\<close> run
  a call of one part in it. \<open>go_clock\<close> is the contract of package \<^verbatim>\<open>time\<close> that termination of
  the long poll rests on: reading the clock and sleeping never turn it back, and a sleep
  that is not interrupted lasts at least as long as asked.
\<close>

section \<open>Environment and world\<close>

record 'g go_env =
  Now :: "'g \<Rightarrow> time \<times> 'g"
  NewUUID :: "'g \<Rightarrow> string \<times> 'g"
  CtxErr :: "'g \<Rightarrow> go_error option"
  Sleep :: "'g \<Rightarrow> duration \<Rightarrow> go_error option \<times> 'g"

record ('s, 'k, 'g) sys =
  Redis :: "'s redis"
  Kafka :: "'k kafka_api"
  Env :: "'g go_env"

record ('s, 'k, 'g) world =
  w_redis :: 's
  w_kafka :: 'k
  w_env :: 'g

definition redis_do :: "('s \<Rightarrow> 'a \<times> 's) \<Rightarrow> ('s, 'k, 'g) world \<Rightarrow> 'a \<times> ('s, 'k, 'g) world" where
  "redis_do f w = (case f (w_redis w) of (r, s) \<Rightarrow> (r, w\<lparr>w_redis := s\<rparr>))"

definition kafka_do :: "('k \<Rightarrow> 'a \<times> 'k) \<Rightarrow> ('s, 'k, 'g) world \<Rightarrow> 'a \<times> ('s, 'k, 'g) world" where
  "kafka_do f w = (case f (w_kafka w) of (r, k) \<Rightarrow> (r, w\<lparr>w_kafka := k\<rparr>))"

definition with_now :: "('s, 'k, 'g) sys \<Rightarrow> (time \<Rightarrow> ('s, 'k, 'g) world \<Rightarrow> 'b) \<Rightarrow> ('s, 'k, 'g) world \<Rightarrow> 'b" where
  "with_now S f w = (case Now (Env S) (w_env w) of (t, g) \<Rightarrow> f t (w\<lparr>w_env := g\<rparr>))"

definition new_uuid :: "('s, 'k, 'g) sys \<Rightarrow> (string \<Rightarrow> ('s, 'k, 'g) world \<Rightarrow> 'b) \<Rightarrow> ('s, 'k, 'g) world \<Rightarrow> 'b" where
  "new_uuid S f w = (case NewUUID (Env S) (w_env w) of (u, g) \<Rightarrow> f u (w\<lparr>w_env := g\<rparr>))"

declare redis_do_def [code_unfold] kafka_do_def [code_unfold] with_now_def [code_unfold] new_uuid_def [code_unfold]

lemma redis_doE:
  assumes "on_ok (redis_do f w) wr k = (Inr v, w')"
  obtains u s where "f (w_redis w) = (Inr u, s)" and "k u (w\<lparr>w_redis := s\<rparr>) = (Inr v, w')"
  using assms by (elim on_okE) (auto simp: redis_do_def split: prod.splits)

lemma kafka_doE:
  assumes "on_ok (kafka_do f w) wr k = (Inr v, w')"
  obtains u s where "f (w_kafka w) = (Inr u, s)" and "k u (w\<lparr>w_kafka := s\<rparr>) = (Inr v, w')"
  using assms by (elim on_okE) (auto simp: kafka_do_def split: prod.splits)

lemma with_nowE:
  assumes "with_now S f w = x"
  obtains t g where "f t (w\<lparr>w_env := g\<rparr>) = x" and "Now (Env S) (w_env w) = (t, g)"
  using assms by (cases "Now (Env S) (w_env w)") (auto simp: with_now_def)

lemma new_uuidE:
  assumes "new_uuid S f w = x"
  obtains u g where "f u (w\<lparr>w_env := g\<rparr>) = x" and "NewUUID (Env S) (w_env w) = (u, g)"
  using assms by (cases "NewUUID (Env S) (w_env w)") (auto simp: new_uuid_def)

locale go_clock =
  fixes E :: "'g go_env" and time_of :: "'g \<Rightarrow> time"
  assumes now_reads: "Now E g = (t, g') \<Longrightarrow> time_of g \<le> t \<and> t \<le> time_of g'"
    and uuid_time: "time_of g \<le> time_of (snd (NewUUID E g))"
    and sleep_lasts: "Sleep E g d = (None, g') \<Longrightarrow> time_of g + d \<le> time_of g'"

section \<open>Shard router\<close>

definition router_shards :: "'s redis \<Rightarrow> string \<Rightarrow> 's \<Rightarrow> Shard list res \<times> 's" where
  "router_shards R queueName s =
     on_ok (GetShardMap R queueName s) (wrapf (''read shard map '' @ queueName))
       (\<lambda>m s. case m of
          None \<Rightarrow> (Inl (ErrText (''queue '' @ queueName @ '' has no shard map yet (not reconciled)'')), s)
        | Some shards \<Rightarrow>
            if shards = [] then (Inl (ErrText (''queue '' @ queueName @ '' has no shard map yet (not reconciled)'')), s)
            else (Inr shards, s))"

definition RouteForSend :: "'s redis \<Rightarrow> string \<Rightarrow> string \<Rightarrow> 's \<Rightarrow> Shard res \<times> 's" where
  "RouteForSend R queueName routingKey s =
     on_ok (router_shards R queueName s) id
       (\<lambda>shards s. case SelectShard (ActiveShards shards) routingKey of
          None \<Rightarrow> (Inl (ErrText (''no active shard covers the routing key for queue '' @ queueName)), s)
        | Some shard \<Rightarrow> (Inr shard, s))"

definition ConsumableShards :: "'s redis \<Rightarrow> string \<Rightarrow> 's \<Rightarrow> Shard list res \<times> 's" where
  "ConsumableShards R queueName s =
     on_ok (router_shards R queueName s) id
       (\<lambda>shards s. (Inr (filter (\<lambda>sh. sh_Phase sh \<noteq> ''Closed'') shards), s))"

section \<open>SendMessage\<close>

definition MaxMessageBodyBytes :: int where
  "MaxMessageBodyBytes = 256 * 1024"

definition defaultDedupWindow :: duration where
  "defaultDedupWindow = 5 * Minute"

record SendMessageInput =
  smi_QueueName :: string
  smi_Body :: string
  smi_MessageGroupID :: string
  smi_MessageDeduplicationID :: string

record SendMessageOutput =
  smo_MessageID :: string
  smo_SequenceNumber :: int

text \<open>
  The FIFO part: a missing group is refused, and a deduplication id is claimed for the
  window. \<open>Inr True\<close> is a duplicate.
\<close>

definition fifo_admission :: "'s redis \<Rightarrow> duration \<Rightarrow> SendMessageInput \<Rightarrow> QueueMeta \<Rightarrow> 's \<Rightarrow> bool res \<times> 's" where
  "fifo_admission R dedupWindow inp meta s =
     (if \<not> qm_FIFO meta then (Inr False, s)
      else if smi_MessageGroupID inp = '''' then
        (Inl (ErrText (''messageGroupId is required for FIFO queue '' @ smi_QueueName inp)), s)
      else if smi_MessageDeduplicationID inp = '''' then (Inr False, s)
      else
        let window = (if dedupWindow \<le> 0 then defaultDedupWindow else dedupWindow) in
        on_ok (TryDedup R (smi_QueueName inp) (smi_MessageGroupID inp) (smi_MessageDeduplicationID inp) window s)
          (wrapf (''send message '' @ smi_QueueName inp)) (\<lambda>fresh s. (Inr (\<not> fresh), s)))"

text \<open>The rest: route, compute the partition, produce.\<close>

definition route_and_produce ::
  "('s, 'k, 'g) sys \<Rightarrow> SendMessageInput \<Rightarrow> QueueMeta \<Rightarrow> string \<Rightarrow> ('s, 'k, 'g) world \<Rightarrow>
    SendMessageOutput res \<times> ('s, 'k, 'g) world" where
  "route_and_produce S inp meta routingKey w =
     on_ok (redis_do (RouteForSend (Redis S) (smi_QueueName inp) routingKey) w) id (\<lambda>shard w.
       let part = PartitionWithinShard routingKey (qm_PartitionsPerShard meta);
           key = (if qm_FIFO meta then Some (smi_MessageGroupID inp) else None) in
       on_ok (kafka_do (Produce (Kafka S) (sh_Topic shard) part key (smi_Body inp)) w)
         (wrapf (''send message '' @ smi_QueueName inp)) (\<lambda>offset w.
         new_uuid S (\<lambda>mid w. (Inr \<lparr>smo_MessageID = mid, smo_SequenceNumber = offset\<rparr>, w)) w))"

definition SendMessage ::
  "('s, 'k, 'g) sys \<Rightarrow> duration \<Rightarrow> SendMessageInput \<Rightarrow> ('s, 'k, 'g) world \<Rightarrow>
    SendMessageOutput res \<times> ('s, 'k, 'g) world" where
  "SendMessage S dedupWindow inp w =
     (if MaxMessageBodyBytes < int (length (smi_Body inp)) then
        (Inl (ErrText (''message body exceeds '' @ FormatInt MaxMessageBodyBytes @ '' bytes'')), w)
      else on_ok (redis_do (GetQueueMeta (Redis S) (smi_QueueName inp)) w)
        (wrapf (''send message '' @ smi_QueueName inp)) (\<lambda>m w.
        case m of
          None \<Rightarrow> (Inl (ErrText (''queue '' @ smi_QueueName inp @ '' not found'')), w)
        | Some meta \<Rightarrow>
            on_ok (redis_do (fifo_admission (Redis S) dedupWindow inp meta) w) id (\<lambda>duplicate w.
              if duplicate then
                (Inr \<lparr>smo_MessageID = smi_MessageDeduplicationID inp, smo_SequenceNumber = 0\<rparr>, w)
              else if smi_MessageGroupID inp = '''' then
                new_uuid S (\<lambda>routingKey. route_and_produce S inp meta routingKey) w
              else route_and_produce S inp meta (smi_MessageGroupID inp) w)))"

section \<open>What the operator has published\<close>

text \<open>
  \<open>published k q meta shards\<close>: the store holds a configuration and a non-empty shard map of
  queue \<open>q\<close>, neither with an expiry. \<^verbatim>\<open>PutQueueMeta\<close> and \<^verbatim>\<open>PutShardMap\<close> leave this behind.
\<close>

definition published :: "keyspace \<Rightarrow> string \<Rightarrow> QueueMeta \<Rightarrow> Shard list \<Rightarrow> bool" where
  "published k q meta shards =
     ((case k (QueueMetaKey q) of
         Some (RHash h, None) \<Rightarrow> h \<noteq> [] \<and> decode_queue_meta h = meta | _ \<Rightarrow> False) \<and>
      (case k (ShardMapKey q) of
         Some (RStr data, None) \<Rightarrow> unmarshal_shards data = Inr shards \<and> shards \<noteq> [] | _ \<Rightarrow> False))"

lemma publishedE:
  assumes "published k q meta shards"
  obtains h data where "k (QueueMetaKey q) = Some (RHash h, None)" "h \<noteq> []" "decode_queue_meta h = meta"
    "k (ShardMapKey q) = Some (RStr data, None)" "unmarshal_shards data = Inr shards" "shards \<noteq> []"
  using assms by (auto simp: published_def split: option.splits prod.splits rvalue.splits)

lemma published_cong:
  "k (QueueMetaKey q) = k' (QueueMetaKey q) \<Longrightarrow> k (ShardMapKey q) = k' (ShardMapKey q) \<Longrightarrow>
    published k q meta shards = published k' q meta shards"
  by (simp add: published_def)

context redis_quiet begin

lemma GetQueueMeta_published:
  assumes "published (ks s) q meta shards" and "GetQueueMeta R q s = (Inr r, s')"
  shows "r = Some meta \<and> ks s' = ks s \<and> clock s \<le> clock s'"
  using assms(1) GetQueueMeta_ok [OF assms(2)] by (elim publishedE) (auto simp: as_hash_def Let_def)

lemma router_shards_published:
  assumes "published (ks s) q meta shards" and "router_shards R q s = (Inr r, s')"
  shows "r = shards \<and> ks s' = ks s \<and> clock s \<le> clock s'"
proof -
  from assms(2) obtain m s1 where g: "GetShardMap R q s = (Inr m, s1)"
    and rest: "(case m of None \<Rightarrow> (Inl (ErrText (''queue '' @ q @ '' has no shard map yet (not reconciled)'')), s1)
        | Some shards \<Rightarrow> if shards = [] then (Inl (ErrText (''queue '' @ q @ '' has no shard map yet (not reconciled)'')), s1)
            else (Inr shards, s1)) = (Inr r, s')"
    unfolding router_shards_def by (rule on_okE)
  with GetShardMap_ok [OF g] assms(1) show ?thesis
    by (elim publishedE) (auto simp: as_str_def split: option.splits if_splits)
qed

lemma RouteForSend_published:
  assumes "published (ks s) q meta shards" and "RouteForSend R q key s = (Inr sh, s')"
  shows "SelectShard (ActiveShards shards) key = Some sh \<and> ks s' = ks s \<and> clock s \<le> clock s'"
proof -
  from assms(2) obtain shs s1 where r: "router_shards R q s = (Inr shs, s1)"
    and rest: "(case SelectShard (ActiveShards shs) key of
          None \<Rightarrow> (Inl (ErrText (''no active shard covers the routing key for queue '' @ q)), s1)
        | Some shard \<Rightarrow> (Inr shard, s1)) = (Inr sh, s')"
    unfolding RouteForSend_def by (rule on_okE)
  with router_shards_published [OF assms(1) r] show ?thesis by (auto split: option.splits)
qed

lemma ConsumableShards_published:
  assumes "published (ks s) q meta shards" and "ConsumableShards R q s = (Inr r, s')"
  shows "r = filter (\<lambda>sh. sh_Phase sh \<noteq> ''Closed'') shards \<and> ks s' = ks s \<and> clock s \<le> clock s'"
  using assms(2) unfolding ConsumableShards_def
  by (elim on_okE) (auto dest!: router_shards_published [OF assms(1)])

lemma fifo_admission_ok:
  assumes "fifo_admission R win inp meta s = (Inr dup, s')"
  defines "key \<equiv> DedupKey (smi_QueueName inp) (smi_MessageGroupID inp) (smi_MessageDeduplicationID inp)"
    and "window \<equiv> (if win \<le> 0 then defaultDedupWindow else win)"
  shows "clock s \<le> clock s' \<and> (qm_FIFO meta \<longrightarrow> smi_MessageGroupID inp \<noteq> '''') \<and>
    (if qm_FIFO meta \<and> smi_MessageDeduplicationID inp \<noteq> ''''
     then dup = (alive (clock s') (ks s key) \<noteq> None) \<and>
       ks s' = (if dup then ks s else (ks s)(key := Some (RStr ''1'', ttl_deadline (clock s') window)))
     else \<not> dup \<and> ks s' = ks s)"
  using assms(1) unfolding fifo_admission_def key_def window_def
  by (auto simp: Let_def split: if_splits elim!: on_okE dest!: TryDedup_ok)

end

section \<open>Contract of the message plane\<close>

locale message_plane = redis_quiet "Redis S" ks clock
  for S :: "('s, 'k, 'g) sys" and ks :: "'s \<Rightarrow> keyspace" and clock :: "'s \<Rightarrow> int"
begin

text \<open>The key space and the server time of a world.\<close>

abbreviation wks :: "('s, 'k, 'g) world \<Rightarrow> keyspace" where "wks w \<equiv> ks (w_redis w)"
abbreviation wclock :: "('s, 'k, 'g) world \<Rightarrow> int" where "wclock w \<equiv> clock (w_redis w)"

lemma route_and_produce_ok:
  assumes "route_and_produce S inp meta key w = (Inr out, w')" and "published (wks w) (smi_QueueName inp) meta' shards"
  shows "wks w' = wks w \<and> wclock w \<le> wclock w' \<and> (\<exists>shard.
      SelectShard (ActiveShards shards) key = Some shard \<and>
      ProduceSync (Kafka S) (w_kafka w) (sh_Topic shard) (PartitionWithinShard key (qm_PartitionsPerShard meta))
        (if qm_FIFO meta then Some (smi_MessageGroupID inp) else None) (smi_Body inp) =
        (Inr (smo_SequenceNumber out), w_kafka w'))"
  using assms(1) unfolding route_and_produce_def Let_def
  by (elim redis_doE kafka_doE new_uuidE)
     (auto dest!: RouteForSend_published [OF assms(2)] simp: Produce_def elim!: on_okE)

lemma SendMessage_ok:
  assumes "SendMessage S win inp w = (Inr out, w')" and pub: "published (wks w) (smi_QueueName inp) meta shards"
  defines "dkey \<equiv> DedupKey (smi_QueueName inp) (smi_MessageGroupID inp) (smi_MessageDeduplicationID inp)"
    and "window \<equiv> (if win \<le> 0 then defaultDedupWindow else win)"
    and "dedups \<equiv> (qm_FIFO meta \<and> smi_MessageDeduplicationID inp \<noteq> '''')"
  shows "int (length (smi_Body inp)) \<le> MaxMessageBodyBytes \<and> (qm_FIFO meta \<longrightarrow> smi_MessageGroupID inp \<noteq> '''') \<and>
    (\<exists>t. wclock w \<le> t \<and> t \<le> wclock w' \<and>
      (if dedups \<and> alive t (wks w dkey) \<noteq> None
       then w_kafka w' = w_kafka w \<and> smo_MessageID out = smi_MessageDeduplicationID inp \<and> wks w' = wks w
       else (\<exists>key shard. (smi_MessageGroupID inp \<noteq> '''' \<longrightarrow> key = smi_MessageGroupID inp) \<and>
         SelectShard (ActiveShards shards) key = Some shard \<and>
         ProduceSync (Kafka S) (w_kafka w) (sh_Topic shard) (PartitionWithinShard key (qm_PartitionsPerShard meta))
           (if qm_FIFO meta then Some (smi_MessageGroupID inp) else None) (smi_Body inp) =
           (Inr (smo_SequenceNumber out), w_kafka w')) \<and>
         wks w' = (if dedups then (wks w)(dkey := Some (RStr ''1'', ttl_deadline t window)) else wks w)))"
proof -
  have len: "int (length (smi_Body inp)) \<le> MaxMessageBodyBytes"
    using assms(1) by (auto simp: SendMessage_def split: if_splits)
  from assms(1) len obtain m s0 where m: "GetQueueMeta (Redis S) (smi_QueueName inp) (w_redis w) = (Inr m, s0)"
    and r1: "(case m of None \<Rightarrow> (Inl (ErrText (''queue '' @ smi_QueueName inp @ '' not found'')), w\<lparr>w_redis := s0\<rparr>)
        | Some meta \<Rightarrow>
            on_ok (redis_do (fifo_admission (Redis S) win inp meta) (w\<lparr>w_redis := s0\<rparr>)) id (\<lambda>duplicate w.
              if duplicate then
                (Inr \<lparr>smo_MessageID = smi_MessageDeduplicationID inp, smo_SequenceNumber = 0\<rparr>, w)
              else if smi_MessageGroupID inp = '''' then
                new_uuid S (\<lambda>routingKey. route_and_produce S inp meta routingKey) w
              else route_and_produce S inp meta (smi_MessageGroupID inp) w)) = (Inr out, w')"
    unfolding SendMessage_def by (auto elim!: redis_doE)
  from GetQueueMeta_published [OF pub m] have m0: "m = Some meta" "ks s0 = wks w" "wclock w \<le> clock s0" by auto
  from r1 m0(1) obtain dup s1 where adm: "fifo_admission (Redis S) win inp meta s0 = (Inr dup, s1)"
    and r2: "(if dup then (Inr \<lparr>smo_MessageID = smi_MessageDeduplicationID inp, smo_SequenceNumber = 0\<rparr>, w\<lparr>w_redis := s1\<rparr>)
      else if smi_MessageGroupID inp = '''' then new_uuid S (\<lambda>routingKey. route_and_produce S inp meta routingKey) (w\<lparr>w_redis := s1\<rparr>)
      else route_and_produce S inp meta (smi_MessageGroupID inp) (w\<lparr>w_redis := s1\<rparr>)) = (Inr out, w')"
    by (auto elim!: redis_doE cong: if_cong)
  note a = fifo_admission_ok [OF adm, folded dkey_def window_def, unfolded m0(2)]
  show ?thesis
  proof (cases dup)
    case True
    with r2 have "w' = w\<lparr>w_redis := s1\<rparr>" "smo_MessageID out = smi_MessageDeduplicationID inp" by auto
    with True a m0 len show ?thesis
      by (intro conjI exI [of _ "clock s1"]) (auto simp: dedups_def split: if_splits)
  next
    case False
    have pub1: "published (ks s1) (smi_QueueName inp) meta shards"
      using False a pub by (auto simp: dkey_def split: if_splits cong: published_cong)
    from r2 False obtain key g where key: "smi_MessageGroupID inp \<noteq> '''' \<longrightarrow> key = smi_MessageGroupID inp"
      and rp: "route_and_produce S inp meta key (w\<lparr>w_redis := s1, w_env := g\<rparr>) = (Inr out, w')"
    proof (cases "smi_MessageGroupID inp = ''''")
      case True
      with r2 False that show ?thesis by (auto elim!: new_uuidE)
    next
      case g: False
      have "w\<lparr>w_redis := s1, w_env := w_env w\<rparr> = w\<lparr>w_redis := s1\<rparr>" by simp
      with r2 False g that [of "smi_MessageGroupID inp" "w_env w"] show ?thesis by simp
    qed
    from route_and_produce_ok [OF rp, of meta shards] pub1 have
      p: "wks w' = ks s1" "clock s1 \<le> wclock w'" "\<exists>shard. SelectShard (ActiveShards shards) key = Some shard \<and>
      ProduceSync (Kafka S) (w_kafka w) (sh_Topic shard) (PartitionWithinShard key (qm_PartitionsPerShard meta))
        (if qm_FIFO meta then Some (smi_MessageGroupID inp) else None) (smi_Body inp) =
        (Inr (smo_SequenceNumber out), w_kafka w')" by simp_all
    have "(if dedups \<and> alive (clock s1) (wks w dkey) \<noteq> None then False
       else wks w' = (if dedups then (wks w)(dkey := Some (RStr ''1'', ttl_deadline (clock s1) window)) else wks w))"
      using False a p(1) by (auto simp: dedups_def split: if_splits)
    with a p key m0 len show ?thesis
      by (intro conjI exI [of _ "clock s1"]) (auto split: if_splits)
  qed
qed

end

section \<open>Reference environment\<close>

record genv =
  g_time :: time
  g_uuid :: int
  g_ctx :: "go_error option"

definition mem_env :: "genv go_env" where
  "mem_env = \<lparr>
     Now = (\<lambda>g. (g_time g, g)),
     NewUUID = (\<lambda>g. (''id-'' @ FormatInt (g_uuid g), g\<lparr>g_uuid := g_uuid g + 1\<rparr>)),
     CtxErr = g_ctx,
     Sleep = (\<lambda>g d. (g_ctx g, g\<lparr>g_time := g_time g + d\<rparr>))\<rparr>"

definition mem_sys :: "(mem, kmem, genv) sys" where
  "mem_sys = \<lparr>Redis = mem_redis, Kafka = mem_kafka, Env = mem_env\<rparr>"

interpretation mem_time: go_clock mem_env g_time
  by unfold_locales (auto simp: mem_env_def)

interpretation mp: message_plane mem_sys mem_ks m_clock
proof -
  have "Redis mem_sys = mem_redis" by (simp add: mem_sys_def)
  then show "message_plane mem_sys mem_ks m_clock"
    using mem.redis_quiet_axioms by (simp add: message_plane_def)
qed

section \<open>Properties of SendMessage\<close>

definition demo_world :: "(mem, kmem, genv) world" where
  "demo_world = \<lparr>
     w_redis = \<lparr>m_db = [(''kmsvc:queue:orders'', RHash [(''fifo'', ''1''), (''visibilityTimeoutSeconds'', ''30''),
         (''maxReceiveCount'', ''5''), (''dlqQueueName'', ''orders-dlq''), (''partitionsPerShard'', ''6''),
         (''retentionSeconds'', ''345600''), (''createdAt'', ''1700000000'')], None),
       (''kmsvc:shardmap:orders'', RStr (marshal_shards [shard0]), None)], m_clock = 1000, m_links = []\<rparr>,
     w_kafka = kmem0,
     w_env = \<lparr>g_time = Second, g_uuid = 0, g_ctx = None\<rparr>\<rparr>"

definition demo_config :: QueueMeta where
  "demo_config = \<lparr>qm_FIFO = True, qm_VisibilityTimeoutSeconds = 30, qm_MaxReceiveCount = 5,
     qm_DLQQueueName = ''orders-dlq'', qm_PartitionsPerShard = 6, qm_RetentionSeconds = 345600,
     qm_CreatedAt = 1700000000 * Second\<rparr>"

definition demo_send :: SendMessageInput where
  "demo_send = \<lparr>smi_QueueName = ''orders'', smi_Body = ''hello'', smi_MessageGroupID = ''g'',
     smi_MessageDeduplicationID = ''d1''\<rparr>"

lemma demo_published: "published (mem_ks (w_redis demo_world)) ''orders'' demo_config [shard0]"
  by code_simp

text \<open>
  C17. What a successful \<^verbatim>\<open>SendMessage\<close> has done. The body was within the size cap and a FIFO
  queue was given a group. Either the deduplication id of a FIFO message was already claimed,
  and then nothing was produced and the id itself is returned; or exactly one record was
  produced, to the active shard that owns the routing key, on the partition the key hashes
  to, with the group as its key, and a FIFO deduplication id is now claimed for the window.
  The routing key is the message group whenever there is one, so all messages of a group go
  to one partition of one shard as long as the shard map stands.
\<close>

theorem SendMessage_effect:
  assumes "message_plane S ks clock"
    and "SendMessage S win inp w = (Inr out, w')"
    and "published (ks (w_redis w)) (smi_QueueName inp) meta shards"
  defines "dkey \<equiv> DedupKey (smi_QueueName inp) (smi_MessageGroupID inp) (smi_MessageDeduplicationID inp)"
    and "window \<equiv> (if win \<le> 0 then defaultDedupWindow else win)"
    and "dedups \<equiv> (qm_FIFO meta \<and> smi_MessageDeduplicationID inp \<noteq> '''')"
  shows "int (length (smi_Body inp)) \<le> MaxMessageBodyBytes \<and> (qm_FIFO meta \<longrightarrow> smi_MessageGroupID inp \<noteq> '''') \<and>
    (\<exists>t. clock (w_redis w) \<le> t \<and> t \<le> clock (w_redis w') \<and>
      (if dedups \<and> alive t (ks (w_redis w) dkey) \<noteq> None
       then w_kafka w' = w_kafka w \<and> smo_MessageID out = smi_MessageDeduplicationID inp \<and> ks (w_redis w') = ks (w_redis w)
       else (\<exists>key shard. (smi_MessageGroupID inp \<noteq> '''' \<longrightarrow> key = smi_MessageGroupID inp) \<and>
         SelectShard (ActiveShards shards) key = Some shard \<and>
         ProduceSync (Kafka S) (w_kafka w) (sh_Topic shard) (PartitionWithinShard key (qm_PartitionsPerShard meta))
           (if qm_FIFO meta then Some (smi_MessageGroupID inp) else None) (smi_Body inp) =
           (Inr (smo_SequenceNumber out), w_kafka w')) \<and>
         ks (w_redis w') = (if dedups then (ks (w_redis w))(dkey := Some (RStr ''1'', ttl_deadline t window))
           else ks (w_redis w))))"
  unfolding dkey_def window_def dedups_def
  using assms(1-3) by (rule message_plane.SendMessage_ok)

theorem SendMessage_effect_witness:
  "int (length (smi_Body demo_send)) \<le> MaxMessageBodyBytes \<and>
   fst (SendMessage mem_sys 0 demo_send demo_world) = Inr \<lparr>smo_MessageID = ''id-0'', smo_SequenceNumber = 0\<rparr>"
proof -
  have r: "fst (SendMessage mem_sys 0 demo_send demo_world) = Inr \<lparr>smo_MessageID = ''id-0'', smo_SequenceNumber = 0\<rparr>"
    by code_simp
  have q: "smi_QueueName demo_send = ''orders''" by (simp add: demo_send_def)
  from SendMessage_effect [OF mp.message_plane_axioms, OF run_eqI [OF r]] demo_published r show ?thesis
    unfolding q by blast
qed


text \<open>
  C18. Deduplication: of two successful sends of the same message group and deduplication id
  to a FIFO queue, the second within the window, only the first produces a record. The second
  reports success with the deduplication id as message id. (The window is measured from the
  first call and must be at least a millisecond; the queue's configuration stays.)
\<close>

lemma ttl_deadline_later:
  assumes "Millisecond \<le> window" and "t0 \<le> t" and "t' < t0 + window div Millisecond"
  shows "alive t' (Some (v, ttl_deadline t window)) \<noteq> None"
  using assms by (simp add: ttl_deadline_def)

theorem SendMessage_deduplicates:
  assumes "message_plane S ks clock"
    and "SendMessage S win inp w = (Inr out, w1)" and "SendMessage S win inp' w1 = (Inr out', w2)"
    and "published (ks (w_redis w)) (smi_QueueName inp) meta shards" and "qm_FIFO meta"
    and "smi_QueueName inp' = smi_QueueName inp" and "smi_MessageGroupID inp' = smi_MessageGroupID inp"
    and "smi_MessageDeduplicationID inp' = smi_MessageDeduplicationID inp" and "smi_MessageDeduplicationID inp \<noteq> ''''"
    and "ks (w_redis w) (DedupKey (smi_QueueName inp) (smi_MessageGroupID inp) (smi_MessageDeduplicationID inp)) = None"
    and "Millisecond \<le> win" and "clock (w_redis w2) < clock (w_redis w) + win div Millisecond"
  shows "w_kafka w2 = w_kafka w1 \<and> smo_MessageID out' = smi_MessageDeduplicationID inp"
proof -
  let ?key = "DedupKey (smi_QueueName inp) (smi_MessageGroupID inp) (smi_MessageDeduplicationID inp)"
  have win: "\<not> win \<le> 0" using assms(11) by simp
  from message_plane.SendMessage_ok [OF assms(1,2,4)] assms(5,9,10) win obtain t where
    t: "clock (w_redis w) \<le> t" and k1: "ks (w_redis w1) = (ks (w_redis w))(?key := Some (RStr ''1'', ttl_deadline t win))"
    by auto
  then have "published (ks (w_redis w1)) (smi_QueueName inp') meta shards"
    using assms(4,6) by (simp add: published_def)
  from message_plane.SendMessage_ok [OF assms(1,3) this] assms(5-9) obtain t' where
    t': "t' \<le> clock (w_redis w2)" and
    dup: "alive t' (ks (w_redis w1) ?key) \<noteq> None \<Longrightarrow>
      w_kafka w2 = w_kafka w1 \<and> smo_MessageID out' = smi_MessageDeduplicationID inp" by auto
  have "alive t' (ks (w_redis w1) ?key) \<noteq> None"
    unfolding k1 fun_upd_same using ttl_deadline_later [OF assms(11) t] t' assms(12) by simp
  then show ?thesis by (rule dup)
qed

theorem SendMessage_deduplicates_witness:
  "w_kafka (snd (SendMessage mem_sys Second (demo_send\<lparr>smi_Body := ''again''\<rparr>) (snd (SendMessage mem_sys Second demo_send demo_world)))) =
     w_kafka (snd (SendMessage mem_sys Second demo_send demo_world))"
proof -
  let ?w1 = "snd (SendMessage mem_sys Second demo_send demo_world)"
  let ?in = "demo_send\<lparr>smi_Body := ''again''\<rparr>"
  have r1: "fst (SendMessage mem_sys Second demo_send demo_world) = Inr \<lparr>smo_MessageID = ''id-0'', smo_SequenceNumber = 0\<rparr>"
    and r2: "fst (SendMessage mem_sys Second ?in ?w1) = Inr \<lparr>smo_MessageID = ''d1'', smo_SequenceNumber = 0\<rparr>"
    and c: "m_clock (w_redis (snd (SendMessage mem_sys Second ?in ?w1))) < m_clock (w_redis demo_world) + Second div Millisecond"
    and n: "mem_ks (w_redis demo_world) (DedupKey (smi_QueueName demo_send) (smi_MessageGroupID demo_send)
      (smi_MessageDeduplicationID demo_send)) = None"
    and f: "qm_FIFO demo_config" and q: "smi_QueueName demo_send = ''orders''"
      "smi_QueueName ?in = smi_QueueName demo_send" "smi_MessageGroupID ?in = smi_MessageGroupID demo_send"
      "smi_MessageDeduplicationID ?in = smi_MessageDeduplicationID demo_send" "smi_MessageDeduplicationID demo_send \<noteq> ''''"
    by code_simp+
  have win: "Millisecond \<le> Second" by simp
  have pub: "published (mem_ks (w_redis demo_world)) (smi_QueueName demo_send) demo_config [shard0]"
    unfolding q(1) by (rule demo_published)
  from SendMessage_deduplicates [OF mp.message_plane_axioms, OF run_eqI [OF r1] run_eqI [OF r2] pub f q(2-5) n win c]
  show ?thesis by blast
qed

text \<open>
  C33. The deduplication id is claimed before the record is produced and stays claimed when
  producing fails. In this run the broker is down for the first send, which reports an error;
  the client's retry with the same deduplication id, the broker being up again, reports
  success, and no record has been produced: the message is lost.
\<close>

definition demo_down :: "(mem, kmem, genv) world" where
  "demo_down = demo_world\<lparr>w_kafka := kmem0\<lparr>k_down := [True]\<rparr>\<rparr>"


text \<open>
  Requests that must be refused are refused without side effects: a body over 256 KiB
  is refused before anything is read, and a FIFO queue refuses a message without a group
  after reading the configuration, claiming and producing nothing.
\<close>

theorem SendMessage_refuses:
  assumes "message_plane S ks clock"
    and "SendMessage S win inp w = (r, w')"
    and "published (ks (w_redis w)) (smi_QueueName inp) meta shards"
    and "MaxMessageBodyBytes < int (length (smi_Body inp)) \<or> (qm_FIFO meta \<and> smi_MessageGroupID inp = '''')"
  shows "isl r \<and> w_kafka w' = w_kafka w \<and> ks (w_redis w') = ks (w_redis w)"
proof (cases "MaxMessageBodyBytes < int (length (smi_Body inp))")
  case True
  with assms(2) show ?thesis by (auto simp: SendMessage_def)
next
  case False
  with assms(4) have g: "qm_FIFO meta" "smi_MessageGroupID inp = ''''" by auto
  obtain m s0 where m: "GetQueueMeta (Redis S) (smi_QueueName inp) (w_redis w) = (m, s0)" by force
  have frame: "ks s0 = ks (w_redis w)"
  proof -
    have q: "redis_quiet (Redis S) ks clock" using assms(1) by (simp add: message_plane_def)
    have "ks (snd (GetQueueMeta (Redis S) (smi_QueueName inp) (w_redis w))) = ks (w_redis w)"
      unfolding GetQueueMeta_def
      by (rule on_ok_inv [where P = "\<lambda>s. ks s = ks (w_redis w)"])
         (simp_all add: redis_quiet.round_trip_read [OF q] redis_server.hgetall_doc [OF redis_quiet.axioms(1) [OF q]])
    with m show ?thesis by simp
  qed
  show ?thesis
  proof (cases m)
    case (Inl e)
    with assms(2) m False frame show ?thesis by (auto simp: SendMessage_def redis_do_def)
  next
    case (Inr mo)
    have "mo = Some meta"
      using redis_quiet.GetQueueMeta_published [of "Redis S" ks clock] assms(1,3) m Inr
      by (simp add: message_plane_def)
    with assms(2) m Inr False frame g show ?thesis
      by (auto simp: SendMessage_def redis_do_def fifo_admission_def)
  qed
qed

theorem SendMessage_refuses_witness:
  "isl (fst (SendMessage mem_sys 0 (demo_send\<lparr>smi_MessageGroupID := ''''\<rparr>) demo_world))"
proof -
  let ?in = "demo_send\<lparr>smi_MessageGroupID := ''''\<rparr>"
  have "published (mem_ks (w_redis demo_world)) (smi_QueueName ?in) demo_config [shard0]"
    using demo_published by (simp add: demo_send_def)
  moreover have "MaxMessageBodyBytes < int (length (smi_Body ?in)) \<or> (qm_FIFO demo_config \<and> smi_MessageGroupID ?in = '''')"
    by (simp add: demo_config_def)
  ultimately show ?thesis
    using SendMessage_refuses [OF mp.message_plane_axioms, OF prod.collapse [symmetric]] by blast
qed

end
