(* ===== verification/Kube_Api.thy ===== *)
theory Kube_Api
  imports Message_Plane
begin

text \<open>
  The custom resources of \<^verbatim>\<open>apis/kmsvc/v1\<close> (\<^verbatim>\<open>queue_types.go\<close>, \<^verbatim>\<open>temporalworker_types.go\<close>), the
  parts of the Kubernetes types the operator fills in, and the calls it makes to the
  Kubernetes API, to \<^verbatim>\<open>controllerutil\<close> and to the Temporal frontend as a parameter
  \<open>'c kube_api\<close> over an opaque cluster state. \<open>kube_store\<close> is the contract of the API server
  the properties rest on: a get returns the stored object, an update of the status
  subresource changes the status of its object only, a plain update leaves the status
  alone. \<open>mem_kube\<close> is an executable instance of the parameter and meets the contract.
  Values that the program only copies (conditions, resource requirements, affinity,
  tolerations) are \<open>opaque\<close>.
\<close>

section \<open>Metadata\<close>

datatype opaque = Opaque string

record ObjectMeta =
  om_Name :: string
  om_Namespace :: string
  om_Labels :: "(string \<times> string) list option"
  om_Finalizers :: "string list"
  om_CreationTimestamp :: time
  om_DeletionTimestamp :: "time option"

section \<open>Queue\<close>

type_synonym QueuePhase = string

definition QueuePhasePending :: QueuePhase where "QueuePhasePending = ''Pending''"
definition QueuePhaseReady :: QueuePhase where "QueuePhaseReady = ''Ready''"
definition QueuePhaseFailed :: QueuePhase where "QueuePhaseFailed = ''Failed''"

record QueueSpec =
  qs_FIFOQueue :: bool
  qs_VisibilityTimeoutSeconds :: int
  qs_MessageRetentionPeriodSeconds :: int
  qs_MaxReceiveCount :: int
  qs_DeadLetterTargetQueue :: string
  qs_PartitionsPerShard :: int
  qs_DelaySeconds :: int
  qs_IsDLQ :: bool
  qs_MinShards :: int
  qs_MaxShards :: int
  qs_ShardSplitThresholdBytesPerSec :: int
  qs_ShardSplitCooldownSeconds :: int

type_synonym ShardPhase = string

definition ShardPhaseActive :: ShardPhase where "ShardPhaseActive = ''Active''"
definition ShardPhaseClosing :: ShardPhase where "ShardPhaseClosing = ''Closing''"
definition ShardPhaseClosed :: ShardPhase where "ShardPhaseClosed = ''Closed''"

lemmas shard_phases = ShardPhaseActive_def ShardPhaseClosing_def ShardPhaseClosed_def

record ShardStatus =
  ss_ID :: string
  ss_Topic :: string
  ss_HashRangeStart :: int
  ss_HashRangeEnd :: int
  ss_Phase :: ShardPhase
  ss_ParentID :: string
  ss_CreatedAt :: time
  ss_AvailabilityZones :: "string list"

record QueueStatus =
  qst_Phase :: QueuePhase
  qst_Shards :: "ShardStatus list"
  qst_Conditions :: "opaque list"

record Queue =
  q_Meta :: ObjectMeta
  q_Spec :: QueueSpec
  q_Status :: QueueStatus

abbreviation q_Name :: "Queue \<Rightarrow> string" where "q_Name q \<equiv> om_Name (q_Meta q)"
abbreviation q_Shards :: "Queue \<Rightarrow> ShardStatus list" where "q_Shards q \<equiv> qst_Shards (q_Status q)"

definition with_shards :: "Queue \<Rightarrow> ShardStatus list \<Rightarrow> Queue" where
  "with_shards q shards = q\<lparr>q_Status := (q_Status q)\<lparr>qst_Shards := shards\<rparr>\<rparr>"

definition with_phase :: "Queue \<Rightarrow> QueuePhase \<Rightarrow> Queue" where
  "with_phase q p = q\<lparr>q_Status := (q_Status q)\<lparr>qst_Phase := p\<rparr>\<rparr>"

lemma with_shards_simps [simp]:
  "q_Shards (with_shards q shards) = shards" "q_Meta (with_shards q shards) = q_Meta q"
  "q_Spec (with_shards q shards) = q_Spec q" "with_shards q (q_Shards q) = q"
  "with_shards (with_shards q a) b = with_shards q b"
  by (simp_all add: with_shards_def)

lemma with_phase_simps [simp]:
  "q_Shards (with_phase q p) = q_Shards q" "q_Meta (with_phase q p) = q_Meta q"
  "q_Spec (with_phase q p) = q_Spec q" "qst_Phase (q_Status (with_phase q p)) = p"
  by (simp_all add: with_phase_def)

section \<open>TemporalWorker and the Deployment it stands for\<close>

type_synonym TemporalWorkerPhase = string

definition TemporalWorkerPhasePending :: TemporalWorkerPhase where "TemporalWorkerPhasePending = ''Pending''"
definition TemporalWorkerPhaseReady :: TemporalWorkerPhase where "TemporalWorkerPhaseReady = ''Ready''"
definition TemporalWorkerPhaseFailed :: TemporalWorkerPhase where "TemporalWorkerPhaseFailed = ''Failed''"

record TemporalWorkerSpec =
  tws_Namespace :: string
  tws_Image :: string
  tws_ImagePullPolicy :: string
  tws_Replicas :: "int option"
  tws_Resources :: "opaque option"
  tws_NodeSelector :: "(string \<times> string) list"
  tws_Affinity :: "opaque option"
  tws_Tolerations :: "opaque list"

record TemporalWorkerStatus =
  twst_Phase :: TemporalWorkerPhase
  twst_Replicas :: int
  twst_ReadyReplicas :: int
  twst_Conditions :: "opaque list"

record TemporalWorker =
  tw_Meta :: ObjectMeta
  tw_Spec :: TemporalWorkerSpec
  tw_Status :: TemporalWorkerStatus

record Container =
  c_Name :: string
  c_Image :: string
  c_ImagePullPolicy :: string
  c_Env :: "(string \<times> string) list"
  c_Resources :: "opaque option"

record Deployment =
  d_Meta :: ObjectMeta
  d_Owner :: "(string \<times> string) option"
  d_Replicas :: "int option"
  d_Selector :: "(string \<times> string) list"
  d_TemplateLabels :: "(string \<times> string) list"
  d_Containers :: "Container list"
  d_NodeSelector :: "(string \<times> string) list"
  d_Affinity :: "opaque option"
  d_Tolerations :: "opaque list"
  d_ReadyReplicas :: int

text \<open>The zero values the program starts an object from, with the name and namespace set.\<close>

definition meta_of :: "string \<Rightarrow> string \<Rightarrow> ObjectMeta" where
  "meta_of name namespace = \<lparr>om_Name = name, om_Namespace = namespace, om_Labels = None,
     om_Finalizers = [], om_CreationTimestamp = zero_time, om_DeletionTimestamp = None\<rparr>"

definition new_TemporalWorker :: "string \<Rightarrow> string \<Rightarrow> TemporalWorker" where
  "new_TemporalWorker name namespace = \<lparr>
     tw_Meta = meta_of name namespace,
     tw_Spec = \<lparr>tws_Namespace = '''', tws_Image = '''', tws_ImagePullPolicy = '''', tws_Replicas = None,
       tws_Resources = None, tws_NodeSelector = [], tws_Affinity = None, tws_Tolerations = []\<rparr>,
     tw_Status = \<lparr>twst_Phase = '''', twst_Replicas = 0, twst_ReadyReplicas = 0, twst_Conditions = []\<rparr>\<rparr>"

definition new_Deployment :: "string \<Rightarrow> string \<Rightarrow> Deployment" where
  "new_Deployment name namespace = \<lparr>
     d_Meta = meta_of name namespace, d_Owner = None, d_Replicas = None, d_Selector = [],
     d_TemplateLabels = [], d_Containers = [], d_NodeSelector = [], d_Affinity = None,
     d_Tolerations = [], d_ReadyReplicas = 0\<rparr>"

section \<open>The cluster as a parameter\<close>

text \<open>
  A \<open>None\<close> answer of a get, and \<open>False\<close> of a delete, is the error \<^verbatim>\<open>apierrors.IsNotFound\<close>
  recognises. Updates answer the object as the server stored it, which the client writes
  back into the caller's variable. \<open>CreateOrUpdate\<close> is given the seed object and the
  caller's mutate function. The reply of the Temporal frontend keeps the one code the
  program distinguishes.
\<close>

datatype rpc_reply = RpcOk | RpcAlreadyExists go_error | RpcFailed go_error

record 'c kube_api =
  GetQueue :: "'c \<Rightarrow> string \<Rightarrow> string \<Rightarrow> Queue option res \<times> 'c"
  UpdateQueue :: "'c \<Rightarrow> Queue \<Rightarrow> Queue res \<times> 'c"
  UpdateQueueStatus :: "'c \<Rightarrow> Queue \<Rightarrow> Queue res \<times> 'c"
  GetWorker :: "'c \<Rightarrow> string \<Rightarrow> string \<Rightarrow> TemporalWorker option res \<times> 'c"
  UpdateWorker :: "'c \<Rightarrow> TemporalWorker \<Rightarrow> TemporalWorker res \<times> 'c"
  UpdateWorkerStatus :: "'c \<Rightarrow> TemporalWorker \<Rightarrow> TemporalWorker res \<times> 'c"
  DeleteWorker :: "'c \<Rightarrow> TemporalWorker \<Rightarrow> bool res \<times> 'c"
  CreateOrUpdateWorker :: "'c \<Rightarrow> TemporalWorker \<Rightarrow> (TemporalWorker \<Rightarrow> TemporalWorker res) \<Rightarrow> TemporalWorker res \<times> 'c"
  CreateOrUpdateDeployment :: "'c \<Rightarrow> Deployment \<Rightarrow> (Deployment \<Rightarrow> Deployment res) \<Rightarrow> Deployment res \<times> 'c"
  SetControllerReference :: "TemporalWorker \<Rightarrow> Deployment \<Rightarrow> Deployment res"
  ContainsFinalizer :: "string list \<Rightarrow> string \<Rightarrow> bool"
  AddFinalizer :: "string list \<Rightarrow> string \<Rightarrow> string list"
  RemoveFinalizer :: "string list \<Rightarrow> string \<Rightarrow> string list"
  GetPodNodeName :: "'c \<Rightarrow> string \<Rightarrow> string \<Rightarrow> string option res \<times> 'c"
  GetNodeLabels :: "'c \<Rightarrow> string \<Rightarrow> (string \<times> string) list option res \<times> 'c"
  RegisterNamespaceRPC :: "'c \<Rightarrow> string \<Rightarrow> duration \<Rightarrow> rpc_reply \<times> 'c"

section \<open>Contract of the API server\<close>

text \<open>
  \<open>queues c\<close> is the set of stored queues by namespace and name. The laws are the documented
  behaviour of the API server for a resource with a status subresource and of the finalizer
  helpers: an update of a queue that is being deleted and has no finalizer left removes it.
  No other client changes queues in between.
\<close>

abbreviation queue_key :: "Queue \<Rightarrow> string \<times> string" where
  "queue_key q \<equiv> (om_Namespace (q_Meta q), om_Name (q_Meta q))"

definition stored_after_update :: "Queue \<Rightarrow> Queue option" where
  "stored_after_update q =
     (if om_DeletionTimestamp (q_Meta q) \<noteq> None \<and> om_Finalizers (q_Meta q) = [] then None else Some q)"

locale kube_store =
  fixes K :: "'c kube_api" and queues :: "'c \<Rightarrow> string \<times> string \<rightharpoonup> Queue"
  assumes stored_key: "queues c (ns, n) = Some q \<Longrightarrow> queue_key q = (ns, n)"
    and get_queue: "GetQueue K c ns n = (Inr r, c') \<Longrightarrow> r = queues c (ns, n) \<and> queues c' = queues c"
    and get_queue_error: "GetQueue K c ns n = (Inl e, c') \<Longrightarrow> queues c' = queues c"
    and update_queue: "UpdateQueue K c q = (Inr q', c') \<Longrightarrow>
      \<exists>q0. queues c (queue_key q) = Some q0 \<and> q' = q\<lparr>q_Status := q_Status q0\<rparr> \<and>
        queues c' = (queues c)(queue_key q := stored_after_update q')"
    and update_queue_error: "UpdateQueue K c q = (Inl e, c') \<Longrightarrow> queues c' = queues c"
    and update_status: "UpdateQueueStatus K c q = (Inr q', c') \<Longrightarrow>
      \<exists>q0. queues c (queue_key q) = Some q0 \<and> q' = q0\<lparr>q_Status := q_Status q\<rparr> \<and>
        queues c' = (queues c)(queue_key q \<mapsto> q')"
    and update_status_error: "UpdateQueueStatus K c q = (Inl e, c') \<Longrightarrow> queues c' = queues c"
    and worker_frame: "queues (snd (CreateOrUpdateWorker K c tw mutate)) = queues c"
      "queues (snd (DeleteWorker K c tw)) = queues c"
      "queues (snd (GetPodNodeName K c ns n)) = queues c"
      "queues (snd (GetNodeLabels K c n)) = queues c"
      "queues (snd (RegisterNamespaceRPC K c ns d)) = queues c"
    and contains_finalizer: "ContainsFinalizer K fs fin \<longleftrightarrow> fin \<in> set fs"
    and add_finalizer: "set (AddFinalizer K fs fin) = insert fin (set fs)"
    and remove_finalizer: "set (RemoveFinalizer K fs fin) = set fs - {fin}"

section \<open>A reference cluster\<close>

text \<open>
  Association lists of objects, and the replies of the Temporal frontend as the list of known
  namespaces. A create fills in nothing; an existing object is replaced by the mutated one.
\<close>

record kcluster =
  kc_queues :: "((string \<times> string) \<times> Queue) list"
  kc_workers :: "((string \<times> string) \<times> TemporalWorker) list"
  kc_deployments :: "((string \<times> string) \<times> Deployment) list"
  kc_pods :: "((string \<times> string) \<times> string) list"
  kc_nodes :: "(string \<times> (string \<times> string) list) list"
  kc_namespaces :: "string list"

definition not_found :: go_error where
  "not_found = ErrText ''not found''"

abbreviation meta_key :: "ObjectMeta \<Rightarrow> string \<times> string" where
  "meta_key m \<equiv> (om_Namespace m, om_Name m)"

definition put_obj :: "'k \<Rightarrow> 'v option \<Rightarrow> ('k \<times> 'v) list \<Rightarrow> ('k \<times> 'v) list" where
  "put_obj k v l = (case v of Some x \<Rightarrow> AList.update k x l | None \<Rightarrow> AList.delete k l)"

lemma map_of_put_obj [simp]: "map_of (put_obj k v l) = (map_of l)(k := v)"
  by (auto simp: put_obj_def update_conv' delete_conv' fun_eq_iff split: option.splits)

definition mem_kube :: "kcluster kube_api" where
  "mem_kube = \<lparr>
     GetQueue = (\<lambda>c ns n. (Inr (case map_of (kc_queues c) (ns, n) of
        Some q \<Rightarrow> if queue_key q = (ns, n) then Some q else None | None \<Rightarrow> None), c)),
     UpdateQueue = (\<lambda>c q. case map_of (kc_queues c) (queue_key q) of
         Some q0 \<Rightarrow> if queue_key q0 = queue_key q then
           let q' = q\<lparr>q_Status := q_Status q0\<rparr> in
           (Inr q', c\<lparr>kc_queues := put_obj (queue_key q) (stored_after_update q') (kc_queues c)\<rparr>) else (Inl not_found, c)
       | None \<Rightarrow> (Inl not_found, c)),
     UpdateQueueStatus = (\<lambda>c q. case map_of (kc_queues c) (queue_key q) of
         Some q0 \<Rightarrow> if queue_key q0 = queue_key q then
           let q' = q0\<lparr>q_Status := q_Status q\<rparr> in
           (Inr q', c\<lparr>kc_queues := put_obj (queue_key q) (Some q') (kc_queues c)\<rparr>) else (Inl not_found, c)
       | None \<Rightarrow> (Inl not_found, c)),
     GetWorker = (\<lambda>c ns n. (Inr (map_of (kc_workers c) (ns, n)), c)),
     UpdateWorker = (\<lambda>c t. case map_of (kc_workers c) (meta_key (tw_Meta t)) of
         Some t0 \<Rightarrow> let t' = t\<lparr>tw_Status := tw_Status t0\<rparr> in
           (Inr t', c\<lparr>kc_workers := put_obj (meta_key (tw_Meta t))
              (if om_DeletionTimestamp (tw_Meta t) \<noteq> None \<and> om_Finalizers (tw_Meta t) = [] then None else Some t') (kc_workers c)\<rparr>)
       | None \<Rightarrow> (Inl not_found, c)),
     UpdateWorkerStatus = (\<lambda>c t. case map_of (kc_workers c) (meta_key (tw_Meta t)) of
         Some t0 \<Rightarrow> let t' = t0\<lparr>tw_Status := tw_Status t\<rparr> in
           (Inr t', c\<lparr>kc_workers := put_obj (meta_key (tw_Meta t)) (Some t') (kc_workers c)\<rparr>)
       | None \<Rightarrow> (Inl not_found, c)),
     DeleteWorker = (\<lambda>c t. case map_of (kc_workers c) (meta_key (tw_Meta t)) of
         Some t0 \<Rightarrow> (Inr True, c\<lparr>kc_workers := put_obj (meta_key (tw_Meta t)) None (kc_workers c)\<rparr>)
       | None \<Rightarrow> (Inr False, c)),
     CreateOrUpdateWorker = (\<lambda>c t f. let t0 = (case map_of (kc_workers c) (meta_key (tw_Meta t)) of Some x \<Rightarrow> x | None \<Rightarrow> t) in
         case f t0 of Inl e \<Rightarrow> (Inl e, c)
         | Inr t' \<Rightarrow> (Inr t', c\<lparr>kc_workers := put_obj (meta_key (tw_Meta t)) (Some t') (kc_workers c)\<rparr>)),
     CreateOrUpdateDeployment = (\<lambda>c t f. let t0 = (case map_of (kc_deployments c) (meta_key (d_Meta t)) of Some x \<Rightarrow> x | None \<Rightarrow> t) in
         case f t0 of Inl e \<Rightarrow> (Inl e, c)
         | Inr t' \<Rightarrow> (Inr t', c\<lparr>kc_deployments := put_obj (meta_key (d_Meta t)) (Some t') (kc_deployments c)\<rparr>)),
     SetControllerReference = (\<lambda>t d. case d_Owner d of
         Some o' \<Rightarrow> if o' = meta_key (tw_Meta t) then Inr d else Inl (ErrText ''already owned by another controller'')
       | None \<Rightarrow> Inr (d\<lparr>d_Owner := Some (meta_key (tw_Meta t))\<rparr>)),
     ContainsFinalizer = (\<lambda>fs f. f \<in> set fs),
     AddFinalizer = (\<lambda>fs f. if f \<in> set fs then fs else fs @ [f]),
     RemoveFinalizer = (\<lambda>fs f. removeAll f fs),
     GetPodNodeName = (\<lambda>c ns n. (Inr (map_of (kc_pods c) (ns, n)), c)),
     GetNodeLabels = (\<lambda>c n. (Inr (map_of (kc_nodes c) n), c)),
     RegisterNamespaceRPC = (\<lambda>c ns d. if ns \<in> set (kc_namespaces c) then (RpcAlreadyExists (ErrText ''namespace already exists''), c)
        else (RpcOk, c\<lparr>kc_namespaces := ns # kc_namespaces c\<rparr>))\<rparr>"

definition mem_queues :: "kcluster \<Rightarrow> string \<times> string \<rightharpoonup> Queue" where
  "mem_queues c key = (case map_of (kc_queues c) key of
     Some q \<Rightarrow> if queue_key q = key then Some q else None | None \<Rightarrow> None)"

lemma mem_queues_put:
  "(case v of Some q \<Rightarrow> queue_key q = k | None \<Rightarrow> True) \<Longrightarrow>
    mem_queues (c\<lparr>kc_queues := put_obj k v (kc_queues c)\<rparr>) = (mem_queues c)(k := v)"
  by (auto simp: mem_queues_def fun_eq_iff split: option.splits)

lemma mem_queues_frame [simp]:
  "mem_queues (c\<lparr>kc_workers := x\<rparr>) = mem_queues c" "mem_queues (c\<lparr>kc_namespaces := y\<rparr>) = mem_queues c"
  by (simp_all add: mem_queues_def fun_eq_iff)

interpretation mem_store: kube_store mem_kube mem_queues
proof
  fix c c' :: kcluster and ns n :: string and q q' :: Queue and r and e
  show "queue_key q = (ns, n)" if "mem_queues c (ns, n) = Some q"
    using that by (auto simp: mem_queues_def split: option.splits if_splits)
  show "r = mem_queues c (ns, n) \<and> mem_queues c' = mem_queues c" if "GetQueue mem_kube c ns n = (Inr r, c')"
    using that by (auto simp: mem_kube_def mem_queues_def)
  show "mem_queues c' = mem_queues c" if "GetQueue mem_kube c ns n = (Inl e, c')"
    using that by (auto simp: mem_kube_def)
  show "\<exists>q0. mem_queues c (queue_key q) = Some q0 \<and> q' = q\<lparr>q_Status := q_Status q0\<rparr> \<and>
      mem_queues c' = (mem_queues c)(queue_key q := stored_after_update q')" if "UpdateQueue mem_kube c q = (Inr q', c')"
    using that by (auto simp: mem_kube_def mem_queues_def [of c "queue_key q"] stored_after_update_def mem_queues_put Let_def
        split: option.splits if_splits)
  show "mem_queues c' = mem_queues c" if "UpdateQueue mem_kube c q = (Inl e, c')"
    using that by (auto simp: mem_kube_def Let_def split: option.splits if_splits)
  show "\<exists>q0. mem_queues c (queue_key q) = Some q0 \<and> q' = q0\<lparr>q_Status := q_Status q\<rparr> \<and>
      mem_queues c' = (mem_queues c)(queue_key q \<mapsto> q')" if "UpdateQueueStatus mem_kube c q = (Inr q', c')"
    using that by (auto simp: mem_kube_def mem_queues_def [of c "queue_key q"] mem_queues_put Let_def
        split: option.splits if_splits)
  show "mem_queues c' = mem_queues c" if "UpdateQueueStatus mem_kube c q = (Inl e, c')"
    using that by (auto simp: mem_kube_def Let_def split: option.splits if_splits)
qed (auto simp: mem_kube_def Let_def split: option.splits sum.splits)

end
