(* ===== verification/Shard_Lifecycle.thy ===== *)
theory Shard_Lifecycle
  imports Kube_Api
begin

text \<open>
  Package \<^verbatim>\<open>internal/operator\<close>, the life of the shards of a queue: \<^verbatim>\<open>shard_split.go\<close>,
  \<^verbatim>\<open>shard_drain.go\<close> and the functions of \<^verbatim>\<open>queue_controller.go\<close> they use (\<^verbatim>\<open>newShard\<close>,
  \<^verbatim>\<open>nextShardID\<close>). The reconciler's own memory (the throughput samples and the node zone
  cache) is part of the operator's world. The split decision is computed on \<^verbatim>\<open>float64\<close> values.
  \<open>shard_step\<close> is the abstract life cycle: a shard is opened, split, closed or annotated. The
  loops of the code refine sequences of such steps, and the steps keep the key space tiled.
\<close>

section \<open>The reconciler and its world\<close>

definition finalizerName :: string where "finalizerName = ''kmsvc.io/queue-operator''"
definition avgMessageSizeBytesEstimate :: int where "avgMessageSizeBytesEstimate = 1024"
definition replicationFactor :: int where "replicationFactor = 3"
definition minInsyncReplicas :: int where "minInsyncReplicas = 2"

record sample =
  sm_offsetSum :: int
  sm_at :: time

record ZoneLocator =
  zl_Namespace :: string
  zl_ClusterName :: string
  zl_PoolName :: string

record ('s, 'k, 'g, 'c) QueueReconciler =
  qr_Client :: "'c kube_api"
  qr_sys :: "('s, 'k, 'g) sys"
  qr_Now :: "('g \<Rightarrow> time \<times> 'g) option"
  qr_Zones :: "ZoneLocator option"
  qr_Getenv :: "string \<Rightarrow> string"

record ('s, 'k, 'g, 'c) op_world =
  o_world :: "('s, 'k, 'g) world"
  o_kube :: 'c
  o_sampleState :: "string \<rightharpoonup> sample"
  o_nodeZoneCache :: "string \<rightharpoonup> string"

definition plane_do ::
  "(('s, 'k, 'g) world \<Rightarrow> 'a \<times> ('s, 'k, 'g) world) \<Rightarrow> ('s, 'k, 'g, 'c) op_world \<Rightarrow> 'a \<times> ('s, 'k, 'g, 'c) op_world" where
  "plane_do f w = (case f (o_world w) of (r, v) \<Rightarrow> (r, w\<lparr>o_world := v\<rparr>))"

definition admin_do ::
  "('s, 'k, 'g, 'c) QueueReconciler \<Rightarrow> ('k kafka_api \<Rightarrow> 'k \<Rightarrow> 'a \<times> 'k) \<Rightarrow>
    ('s, 'k, 'g, 'c) op_world \<Rightarrow> 'a \<times> ('s, 'k, 'g, 'c) op_world" where
  "admin_do R f w = plane_do (kafka_do (f (Kafka (qr_sys R)))) w"

definition kube_do ::
  "('s, 'k, 'g, 'c) QueueReconciler \<Rightarrow> ('c kube_api \<Rightarrow> 'c \<Rightarrow> 'a \<times> 'c) \<Rightarrow>
    ('s, 'k, 'g, 'c) op_world \<Rightarrow> 'a \<times> ('s, 'k, 'g, 'c) op_world" where
  "kube_do R f w = (case f (qr_Client R) (o_kube w) of (r, c) \<Rightarrow> (r, w\<lparr>o_kube := c\<rparr>))"

definition reconciler_now ::
  "('s, 'k, 'g, 'c) QueueReconciler \<Rightarrow> ('s, 'k, 'g, 'c) op_world \<Rightarrow> time \<times> ('s, 'k, 'g, 'c) op_world" where
  "reconciler_now R w =
     (let clock = (case qr_Now R of Some f \<Rightarrow> f | None \<Rightarrow> Now (Env (qr_sys R))) in
      case clock (w_env (o_world w)) of (t, g) \<Rightarrow> (t, w\<lparr>o_world := (o_world w)\<lparr>w_env := g\<rparr>\<rparr>))"

declare plane_do_def [code_unfold] admin_do_def [code_unfold] kube_do_def [code_unfold]

section \<open>Creating shards\<close>

definition to_int32 :: "int \<Rightarrow> int" where
  "to_int32 n = sint (word_of_int n :: u32)"

definition to_uint32 :: "int \<Rightarrow> u32" where
  "to_uint32 n = word_of_int n"

definition newShard ::
  "('s, 'k, 'g, 'c) QueueReconciler \<Rightarrow> string \<Rightarrow> string \<Rightarrow> u32 \<Rightarrow> u32 \<Rightarrow> Queue \<Rightarrow>
    ('s, 'k, 'g, 'c) op_world \<Rightarrow> ShardStatus \<times> ('s, 'k, 'g, 'c) op_world" where
  "newShard R sid parentID start end' queue w =
     (case reconciler_now R w of (now, w) \<Rightarrow>
       (\<lparr>ss_ID = sid, ss_Topic = ShardTopicName (q_Name queue) (qs_FIFOQueue (q_Spec queue)) sid,
         ss_HashRangeStart = uint start, ss_HashRangeEnd = uint end', ss_Phase = ShardPhaseActive,
         ss_ParentID = parentID, ss_CreatedAt = now, ss_AvailabilityZones = []\<rparr>, w))"

definition Atoi :: "string \<Rightarrow> int \<times> num_error option" where
  "Atoi s = ParseInt 64 s"

fun max_shard_id :: "int \<Rightarrow> ShardStatus list \<Rightarrow> int" where
  "max_shard_id m [] = m"
| "max_shard_id m (s # ss) =
     (case Atoi (ss_ID s) of (n, err) \<Rightarrow> max_shard_id (if err = None \<and> m < n then n else m) ss)"

definition nextShardID :: "ShardStatus list \<Rightarrow> string" where
  "nextShardID shards = FormatInt (wrap64 (max_shard_id (-1) shards + 1))"

definition secondsToDuration :: "int \<Rightarrow> duration" where
  "secondsToDuration s = s * Second"

section \<open>Splitting\<close>

text \<open>
  One iteration up to the decision: \<open>Inr (Some now)\<close> when the shard is to be split,
  \<open>Inr None\<close> for every \<^verbatim>\<open>continue\<close>.
\<close>

definition over_threshold :: "int \<Rightarrow> duration \<Rightarrow> int \<Rightarrow> bool" where
  "over_threshold records elapsed threshold =
     (let elapsed = Seconds elapsed in
      if \<not> f64_less (f64_of_int 0) elapsed then False
      else
        let recordsPerSec = f64_div (f64_of_int records) elapsed;
            bytesPerSec = f64_mul recordsPerSec (f64_of_int avgMessageSizeBytesEstimate) in
        \<not> f64_less bytesPerSec (f64_of_int threshold))"

definition sample_shard ::
  "('s, 'k, 'g, 'c) QueueReconciler \<Rightarrow> int \<Rightarrow> ShardStatus \<Rightarrow>
    ('s, 'k, 'g, 'c) op_world \<Rightarrow> time option res \<times> ('s, 'k, 'g, 'c) op_world" where
  "sample_shard R threshold s w =
     on_ok (admin_do R (\<lambda>K. LogEndOffsetSum K (ss_Topic s)) w) (wrapf (''sample throughput '' @ ss_Topic s))
       (\<lambda>offsetSum w.
         case reconciler_now R w of (now, w) \<Rightarrow>
         let prev = o_sampleState w (ss_Topic s);
             w = w\<lparr>o_sampleState := (o_sampleState w)(ss_Topic s \<mapsto> \<lparr>sm_offsetSum = offsetSum, sm_at = now\<rparr>)\<rparr> in
         case prev of
           None \<Rightarrow> (Inr None, w)
         | Some p \<Rightarrow>
             if over_threshold (wrap64 (offsetSum - sm_offsetSum p)) (time_Sub now (sm_at p)) threshold
             then (Inr (Some now), w) else (Inr None, w))"

definition split_due ::
  "('s, 'k, 'g, 'c) QueueReconciler \<Rightarrow> int \<Rightarrow> int \<Rightarrow> ShardStatus \<Rightarrow>
    ('s, 'k, 'g, 'c) op_world \<Rightarrow> time option res \<times> ('s, 'k, 'g, 'c) op_world" where
  "split_due R threshold cooldown s w =
     (if ss_CreatedAt s = zero_time then sample_shard R threshold s w
      else case reconciler_now R w of (now, w) \<Rightarrow>
        if now < ss_CreatedAt s + secondsToDuration cooldown then (Inr None, w)
        else sample_shard R threshold s w)"

definition split_shard ::
  "('s, 'k, 'g, 'c) QueueReconciler \<Rightarrow> Queue \<Rightarrow> nat \<Rightarrow> time \<Rightarrow> ShardStatus list \<Rightarrow>
    ('s, 'k, 'g, 'c) op_world \<Rightarrow> ShardStatus list \<times> ('s, 'k, 'g, 'c) op_world" where
  "split_shard R queue i now shards w =
     (let s = shards ! i;
          start = to_uint32 (ss_HashRangeStart s); end' = to_uint32 (ss_HashRangeEnd s);
          mid = SplitHashRange start end';
          childAID = nextShardID shards in
      case newShard R childAID (ss_ID s) start mid queue w of (childA, w) \<Rightarrow>
      let childBID = FormatInt (wrap64 (fst (Atoi childAID) + 1)) in
      case newShard R childBID (ss_ID s) mid end' queue w of (childB, w) \<Rightarrow>
        (shards[i := s\<lparr>ss_Phase := ShardPhaseClosing\<rparr>] @ [childA\<lparr>ss_CreatedAt := now\<rparr>, childB\<lparr>ss_CreatedAt := now\<rparr>],
         w\<lparr>o_sampleState := (o_sampleState w)(ss_Topic s := None)\<rparr>))"

text \<open>
  The loop runs over the indices of the list as it was at the start; the children appended on
  the way are not visited. It answers the error, if any, and the list as it then stands.
\<close>

fun split_loop ::
  "('s, 'k, 'g, 'c) QueueReconciler \<Rightarrow> Queue \<Rightarrow> int \<Rightarrow> int \<Rightarrow> int \<Rightarrow> nat list \<Rightarrow> ShardStatus list \<Rightarrow> int \<Rightarrow>
    ('s, 'k, 'g, 'c) op_world \<Rightarrow> (unit res \<times> ShardStatus list) \<times> ('s, 'k, 'g, 'c) op_world" where
  "split_loop R queue maxShards threshold cooldown [] shards activeCount w = ((Inr (), shards), w)"
| "split_loop R queue maxShards threshold cooldown (i # is) shards activeCount w =
     (let s = shards ! i in
      if ss_Phase s \<noteq> ShardPhaseActive then split_loop R queue maxShards threshold cooldown is shards activeCount w
      else if maxShards \<le> to_int32 activeCount then ((Inr (), shards), w)
      else case split_due R threshold cooldown s w of (r, w) \<Rightarrow>
        case r of
          Inl e \<Rightarrow> ((Inl e, shards), w)
        | Inr None \<Rightarrow> split_loop R queue maxShards threshold cooldown is shards activeCount w
        | Inr (Some now) \<Rightarrow>
            case split_shard R queue i now shards w of (shards', w) \<Rightarrow>
              split_loop R queue maxShards threshold cooldown is shards' (activeCount + 1) w)"

definition active_count :: "ShardStatus list \<Rightarrow> int" where
  "active_count shards = int (length (filter (\<lambda>s. ss_Phase s = ShardPhaseActive) shards))"

definition max_shards :: "QueueSpec \<Rightarrow> int" where
  "max_shards spec = (if qs_MaxShards spec \<le> 0 then 8 else qs_MaxShards spec)"

definition reconcileSplits ::
  "('s, 'k, 'g, 'c) QueueReconciler \<Rightarrow> Queue \<Rightarrow>
    ('s, 'k, 'g, 'c) op_world \<Rightarrow> (unit res \<times> Queue) \<times> ('s, 'k, 'g, 'c) op_world" where
  "reconcileSplits R queue w =
     (let spec = q_Spec queue; threshold = qs_ShardSplitThresholdBytesPerSec spec in
      if threshold \<le> 0 then ((Inr (), queue), w)
      else case split_loop R queue (max_shards spec) threshold (qs_ShardSplitCooldownSeconds spec)
          [0..<length (q_Shards queue)] (q_Shards queue) (active_count (q_Shards queue)) w of
        ((r, shards), w) \<Rightarrow> ((r, with_shards queue shards), w))"

section \<open>Draining\<close>

fun drain_loop ::
  "('s, 'k, 'g, 'c) QueueReconciler \<Rightarrow> string \<Rightarrow> duration \<Rightarrow> ShardStatus list \<Rightarrow>
    ('s, 'k, 'g, 'c) op_world \<Rightarrow> ShardStatus list res \<times> ('s, 'k, 'g, 'c) op_world" where
  "drain_loop R grp retention [] w = (Inr [], w)"
| "drain_loop R grp retention (s # ss) w =
     (let keep = (\<lambda>s' w. on_ok (drain_loop R grp retention ss w) id (\<lambda>kept w. (Inr (s' # kept), w))) in
      if ss_Phase s \<noteq> ShardPhaseClosing then keep s w
      else on_ok (admin_do R (\<lambda>K. ConsumerLag K grp (ss_Topic s)) w) (wrapf (''consumer lag '' @ ss_Topic s))
        (\<lambda>lag w.
          if 0 < lag then keep s w
          else case reconciler_now R w of (now, w) \<Rightarrow>
            if now < ss_CreatedAt s + retention then keep s w
            else on_ok (admin_do R (\<lambda>K. DeleteTopic K (ss_Topic s)) w)
              (wrapf (''delete drained topic '' @ ss_Topic s))
              (\<lambda>_ w. keep (s\<lparr>ss_Phase := ShardPhaseClosed\<rparr>) w)))"

text \<open>On an error the status keeps the list it had, also for topics already deleted.\<close>

definition reconcileDrains ::
  "('s, 'k, 'g, 'c) QueueReconciler \<Rightarrow> Queue \<Rightarrow>
    ('s, 'k, 'g, 'c) op_world \<Rightarrow> Queue res \<times> ('s, 'k, 'g, 'c) op_world" where
  "reconcileDrains R queue w =
     on_ok (drain_loop R (ConsumerGroup (q_Name queue))
              (secondsToDuration (qs_MessageRetentionPeriodSeconds (q_Spec queue))) (q_Shards queue) w) id
       (\<lambda>kept w. (Inr (with_shards queue kept), w))"

section \<open>The abstract life cycle\<close>

text \<open>
  \<open>status_shard\<close> is the shard as it is published to the message plane. \<open>shards_wf\<close> is the
  invariant: the shards are numbered by their position, their topics are the ones of the
  queue, and the ranges of the active ones tile the key space.
\<close>

definition status_shard :: "ShardStatus \<Rightarrow> Shard" where
  "status_shard s = \<lparr>sh_ID = ss_ID s, sh_Topic = ss_Topic s, sh_HashRangeStart = to_uint32 (ss_HashRangeStart s),
     sh_HashRangeEnd = to_uint32 (ss_HashRangeEnd s), sh_Phase = ss_Phase s\<rparr>"

definition shard_ok :: "string \<Rightarrow> bool \<Rightarrow> nat \<Rightarrow> ShardStatus \<Rightarrow> bool" where
  "shard_ok name fifo i s =
     (ss_ID s = FormatInt (int i) \<and> ss_Topic s = ShardTopicName name fifo (ss_ID s) \<and>
      0 \<le> ss_HashRangeStart s \<and> ss_HashRangeStart s \<le> ss_HashRangeEnd s \<and> ss_HashRangeEnd s < 2 ^ 32 \<and>
      ss_Phase s \<in> {ShardPhaseActive, ShardPhaseClosing, ShardPhaseClosed})"

definition shards_wf :: "string \<Rightarrow> bool \<Rightarrow> ShardStatus list \<Rightarrow> bool" where
  "shards_wf name fifo shards =
     (tiles (ActiveShards (map status_shard shards)) 0 FullHashRangeEnd \<and>
      (\<forall>i < length shards. shard_ok name fifo i (shards ! i)))"

definition is_half :: "string \<Rightarrow> bool \<Rightarrow> nat \<Rightarrow> ShardStatus \<Rightarrow> u32 \<Rightarrow> u32 \<Rightarrow> ShardStatus \<Rightarrow> bool" where
  "is_half name fifo n parent lo hi s =
     (ss_ID s = FormatInt (int n) \<and> ss_Topic s = ShardTopicName name fifo (ss_ID s) \<and>
      ss_HashRangeStart s = uint lo \<and> ss_HashRangeEnd s = uint hi \<and>
      ss_Phase s = ShardPhaseActive \<and> ss_ParentID s = ss_ID parent)"

inductive shard_step :: "string \<Rightarrow> bool \<Rightarrow> ShardStatus list \<Rightarrow> ShardStatus list \<Rightarrow> bool"
  for name :: string and fifo :: bool where
  Split: "\<lbrakk>i < length ss; ss_Phase (ss ! i) = ShardPhaseActive;
      lo = to_uint32 (ss_HashRangeStart (ss ! i)); hi = to_uint32 (ss_HashRangeEnd (ss ! i));
      is_half name fifo (length ss) (ss ! i) lo (SplitHashRange lo hi) a;
      is_half name fifo (Suc (length ss)) (ss ! i) (SplitHashRange lo hi) hi b\<rbrakk> \<Longrightarrow>
    shard_step name fifo ss (ss[i := (ss ! i)\<lparr>ss_Phase := ShardPhaseClosing\<rparr>] @ [a, b])"
| Close: "\<lbrakk>i < length ss; ss_Phase (ss ! i) = ShardPhaseClosing\<rbrakk> \<Longrightarrow>
    shard_step name fifo ss (ss[i := (ss ! i)\<lparr>ss_Phase := ShardPhaseClosed\<rparr>])"
| Annotate: "i < length ss \<Longrightarrow> shard_step name fifo ss (ss[i := (ss ! i)\<lparr>ss_AvailabilityZones := zones\<rparr>])"

abbreviation shard_steps :: "string \<Rightarrow> bool \<Rightarrow> ShardStatus list \<Rightarrow> ShardStatus list \<Rightarrow> bool" where
  "shard_steps name fifo \<equiv> (shard_step name fifo)\<^sup>*\<^sup>*"

subsection \<open>Steps keep the invariant\<close>

lemma to_uint32_uint [simp]: "to_uint32 (uint w) = w"
  by (simp add: to_uint32_def)

lemma to_uint32_mono: "0 \<le> m \<Longrightarrow> m \<le> n \<Longrightarrow> n < 2 ^ 32 \<Longrightarrow> to_uint32 m \<le> to_uint32 n"
  by (simp add: to_uint32_def word_le_def unsigned_of_int take_bit_int_eq_self)

lemma ActiveShards_append [simp]: "ActiveShards (a @ b) = ActiveShards a @ ActiveShards b"
  by (simp add: ActiveShards_def)

lemma ActiveShards_Nil [simp]: "ActiveShards [] = []"
  by (simp add: ActiveShards_def)

lemma ActiveShards_Cons:
  "ActiveShards (s # ss) = (if sh_Phase s = '''' \<or> sh_Phase s = ''Active'' then s # ActiveShards ss else ActiveShards ss)"
  by (simp add: ActiveShards_def)

lemma owner_count_update:
  assumes "i < length ss"
  shows "owner_count (ActiveShards (map status_shard (ss[i := s']))) h + owner_count (ActiveShards [status_shard (ss ! i)]) h =
    owner_count (ActiveShards (map status_shard ss)) h + owner_count (ActiveShards [status_shard s']) h"
proof -
  have "ss = take i ss @ ss ! i # drop (Suc i) ss" by (rule id_take_nth_drop [OF assms])
  then have "map status_shard ss = map status_shard (take i ss) @ status_shard (ss ! i) # map status_shard (drop (Suc i) ss)"
    by (metis list.simps(9) map_append)
  moreover have "map status_shard (ss[i := s']) =
      map status_shard (take i ss) @ status_shard s' # map status_shard (drop (Suc i) ss)"
    by (simp add: upd_conv_take_nth_drop [OF assms])
  ultimately show ?thesis by (simp add: ActiveShards_Cons)
qed

lemma tiles_update:
  assumes "i < length ss" and "tiles (ActiveShards (map status_shard ss)) lo hi"
    and "\<And>h. owner_count (ActiveShards [status_shard s']) h + owner_count (ActiveShards (map status_shard ts)) h =
      owner_count (ActiveShards [status_shard (ss ! i)]) h"
  shows "tiles (ActiveShards (map status_shard (ss[i := s'] @ ts))) lo hi"
  unfolding tiles_def
proof
  fix h
  have "owner_count (ActiveShards (map status_shard (ss[i := s'] @ ts))) h =
      owner_count (ActiveShards (map status_shard ss)) h"
    using owner_count_update [OF assms(1), of s' h] assms(3) [of h] ActiveShards_append by simp
  with assms(2) show "owner_count (ActiveShards (map status_shard (ss[i := s'] @ ts))) h =
      (if lo \<le> h \<and> h < hi then 1 else 0)" by (simp add: tiles_def)
qed

lemma split_keeps_owners:
  assumes "shard_ok name fifo n s" and "ss_Phase s = ShardPhaseActive"
    and "lo = to_uint32 (ss_HashRangeStart s)" "hi = to_uint32 (ss_HashRangeEnd s)"
    and "is_half name fifo na s lo (SplitHashRange lo hi) a" and "is_half name fifo nb s (SplitHashRange lo hi) hi b"
  shows "owner_count (ActiveShards [status_shard a, status_shard b]) h = owner_count (ActiveShards [status_shard s]) h"
proof -
  have "lo \<le> hi" using assms(1,3,4) by (simp add: shard_ok_def to_uint32_mono)
  with owner_count_split [of "status_shard s" "status_shard a" "status_shard b" h] assms show ?thesis
    by (simp add: ActiveShards_Cons status_shard_def is_half_def shard_phases ActiveShards_def)
qed

lemma shard_ok_half:
  assumes "is_half name fifo n s lo hi t" and "lo \<le> hi"
  shows "shard_ok name fifo n t"
proof -
  have "uint hi < 2 ^ 32" using uint_bounded [of hi] by simp
  with assms show ?thesis by (simp add: shard_ok_def is_half_def word_le_def)
qed

lemma shard_ok_update [simp]:
  "p \<in> {ShardPhaseActive, ShardPhaseClosing, ShardPhaseClosed} \<Longrightarrow> shard_ok name fifo i s \<Longrightarrow>
    shard_ok name fifo i (s\<lparr>ss_Phase := p\<rparr>)"
  "shard_ok name fifo i (s\<lparr>ss_AvailabilityZones := zones\<rparr>) = shard_ok name fifo i s"
  by (simp_all add: shard_ok_def)

lemma shards_ok_list_update:
  assumes "\<forall>i < length ss. shard_ok name fifo i (ss ! i)" and "shard_ok name fifo k s'"
  shows "\<forall>i < length (ss[k := s']). shard_ok name fifo i (ss[k := s'] ! i)"
  using assms by (metis length_list_update nth_list_update_eq nth_list_update_neq)

lemma shards_ok_append:
  assumes "\<forall>i < length ss. shard_ok name fifo i (ss ! i)"
    and "shard_ok name fifo (length ss) a" and "shard_ok name fifo (Suc (length ss)) b"
  shows "\<forall>i < length (ss @ [a, b]). shard_ok name fifo i ((ss @ [a, b]) ! i)"
  using assms by (auto simp: nth_append less_Suc_eq)

lemma shard_step_wf:
  assumes "shard_step name fifo ss ss'" and "shards_wf name fifo ss"
  shows "shards_wf name fifo ss'"
  using assms
proof (cases rule: shard_step.cases)
  case (Split i lo hi a b)
  let ?p = "(ss ! i)\<lparr>ss_Phase := ShardPhaseClosing\<rparr>"
  have ok: "shard_ok name fifo i (ss ! i)" using Split(2) assms(2) by (simp add: shards_wf_def)
  have le: "lo \<le> hi" using ok Split(4,5) by (simp add: shard_ok_def to_uint32_mono)
  have "tiles (ActiveShards (map status_shard (ss[i := ?p] @ [a, b]))) 0 FullHashRangeEnd"
  proof (rule tiles_update [OF Split(2)])
    show "owner_count (ActiveShards [status_shard ?p]) h + owner_count (ActiveShards (map status_shard [a, b])) h =
        owner_count (ActiveShards [status_shard (ss ! i)]) h" for h
      using split_keeps_owners [OF ok Split(3-7), of h]
      by (simp add: ActiveShards_Cons [of "status_shard ?p"]) (simp add: status_shard_def shard_phases)
  qed (use assms(2) in \<open>simp add: shards_wf_def\<close>)
  moreover have "shard_ok name fifo (length ss) a" "shard_ok name fifo (Suc (length ss)) b"
    using shard_ok_half [OF Split(6)] shard_ok_half [OF Split(7)] SplitHashRange_between [OF le] by simp_all
  moreover have "\<forall>j < length (ss[i := ?p]). shard_ok name fifo j (ss[i := ?p] ! j)"
    by (rule shards_ok_list_update) (use assms(2) ok in \<open>simp_all add: shards_wf_def\<close>)
  ultimately show ?thesis
    using shards_ok_append [of "ss[i := ?p]" name fifo a b] unfolding shards_wf_def Split(1) by simp
next
  case (Close i)
  let ?s = "(ss ! i)\<lparr>ss_Phase := ShardPhaseClosed\<rparr>"
  have "tiles (ActiveShards (map status_shard (ss[i := ?s] @ []))) 0 FullHashRangeEnd"
    by (rule tiles_update [OF Close(2)])
      (use assms(2) Close(3) in \<open>simp_all add: shards_wf_def ActiveShards_Cons status_shard_def shard_phases\<close>)
  moreover have "\<forall>j < length (ss[i := ?s]). shard_ok name fifo j (ss[i := ?s] ! j)"
    by (rule shards_ok_list_update) (use assms(2) Close(2) in \<open>simp_all add: shards_wf_def\<close>)
  ultimately show ?thesis unfolding shards_wf_def Close(1) by simp
next
  case (Annotate i zones)
  let ?s = "(ss ! i)\<lparr>ss_AvailabilityZones := zones\<rparr>"
  have "tiles (ActiveShards (map status_shard (ss[i := ?s] @ []))) 0 FullHashRangeEnd"
    by (rule tiles_update [OF Annotate(2)])
      (use assms(2) in \<open>simp_all add: shards_wf_def ActiveShards_Cons status_shard_def\<close>)
  moreover have "\<forall>j < length (ss[i := ?s]). shard_ok name fifo j (ss[i := ?s] ! j)"
    by (rule shards_ok_list_update) (use assms(2) Annotate(2) in \<open>simp_all add: shards_wf_def\<close>)
  ultimately show ?thesis unfolding shards_wf_def Annotate(1) by simp
qed

lemma shard_steps_wf: "shard_steps name fifo ss ss' \<Longrightarrow> shards_wf name fifo ss \<Longrightarrow> shards_wf name fifo ss'"
  by (induction rule: rtranclp_induct) (auto intro: shard_step_wf)

subsection \<open>The loops refine the life cycle\<close>

lemma Atoi_FormatInt: "int_in_bits 64 n \<Longrightarrow> Atoi (FormatInt n) = (n, None)"
  by (simp add: Atoi_def ParseInt_FormatInt)

lemma max_shard_id_numbered:
  assumes "\<forall>i < length ss. ss_ID (ss ! i) = FormatInt (int (k + i))" and "int (k + length ss) < 2 ^ 63"
  shows "max_shard_id (int k - 1) ss = int (k + length ss) - 1"
  using assms
proof (induction ss arbitrary: k)
  case (Cons s ss)
  have sid: "ss_ID s = FormatInt (int k)" using Cons.prems(1) by (metis add_0_right length_greater_0_conv list.distinct(1) nth_Cons_0)
  have "int_in_bits 64 (int k)" using Cons.prems(2) by (simp add: int_in_bits_def)
  then have "max_shard_id (int k - 1) (s # ss) = max_shard_id (int (Suc k) - 1) ss"
    by (simp add: sid Atoi_FormatInt)
  also have "\<dots> = int (Suc k + length ss) - 1"
  proof (rule Cons.IH)
    show "\<forall>i < length ss. ss_ID (ss ! i) = FormatInt (int (Suc k + i))"
      using Cons.prems(1) by fastforce
  qed (use Cons.prems(2) in simp)
  finally show ?case by simp
qed simp

lemma nextShardID_wf:
  assumes "\<forall>i < length ss. shard_ok name fifo i (ss ! i)" and "int (length ss) < 2 ^ 62"
  shows "nextShardID ss = FormatInt (int (length ss))"
proof -
  have "max_shard_id (int 0 - 1) ss = int (0 + length ss) - 1"
    by (rule max_shard_id_numbered) (use assms in \<open>auto simp: shard_ok_def\<close>)
  then have "max_shard_id (-1) ss + 1 = int (length ss)" by simp
  moreover have "wrap64 (int (length ss)) = int (length ss)"
    by (rule wrap64_id) (use assms(2) in \<open>simp add: int_in_bits_def\<close>)
  ultimately show ?thesis by (simp add: nextShardID_def)
qed

lemma newShard_half:
  assumes "newShard R (FormatInt (int n)) (ss_ID p) lo hi queue w = (t, w')"
  shows "is_half (q_Name queue) (qs_FIFOQueue (q_Spec queue)) n p lo hi (t\<lparr>ss_CreatedAt := now\<rparr>)"
  using assms by (auto simp: newShard_def is_half_def split: prod.splits)

lemma split_shard_step:
  assumes "\<forall>i < length ss. shard_ok name fifo i (ss ! i)" and "int (length ss) < 2 ^ 62"
    and "i < length ss" and "ss_Phase (ss ! i) = ShardPhaseActive"
    and "name = q_Name queue" "fifo = qs_FIFOQueue (q_Spec queue)"
    and "split_shard R queue i now ss w = (ss', w')"
  shows "shard_step name fifo ss ss'"
proof -
  have n: "nextShardID ss = FormatInt (int (length ss))" by (rule nextShardID_wf [OF assms(1,2)])
  have small: "int_in_bits 64 (int (length ss))" "int_in_bits 64 (int (length ss) + 1)"
    using assms(2) by (simp_all add: int_in_bits_def)
  then have "FormatInt (wrap64 (fst (Atoi (FormatInt (int (length ss)))) + 1)) = FormatInt (int (Suc (length ss)))"
    by (simp add: Atoi_FormatInt wrap64_id)
  note ids = n this
  let ?lo = "to_uint32 (ss_HashRangeStart (ss ! i))" and ?hi = "to_uint32 (ss_HashRangeEnd (ss ! i))"
  obtain a w1 where a: "newShard R (FormatInt (int (length ss))) (ss_ID (ss ! i)) ?lo (SplitHashRange ?lo ?hi) queue w = (a, w1)"
    by fastforce
  obtain b w2 where b: "newShard R (FormatInt (int (Suc (length ss)))) (ss_ID (ss ! i)) (SplitHashRange ?lo ?hi) ?hi queue w1 = (b, w2)"
    by fastforce
  from assms(7) have "ss' = ss[i := (ss ! i)\<lparr>ss_Phase := ShardPhaseClosing\<rparr>] @ [a\<lparr>ss_CreatedAt := now\<rparr>, b\<lparr>ss_CreatedAt := now\<rparr>]"
    unfolding split_shard_def Let_def ids a b prod.case by simp
  then show ?thesis
    using shard_step.Split [OF assms(3,4) refl refl newShard_half [OF a] newShard_half [OF b]] assms(5,6) by simp
qed

lemma shard_step_length: "shard_step name fifo ss ss' \<Longrightarrow> length ss \<le> length ss' \<and> length ss' \<le> length ss + 2"
  by (induction rule: shard_step.induct) simp_all

lemma split_loop_steps:
  assumes "shards_wf (q_Name queue) (qs_FIFOQueue (q_Spec queue)) ss"
    and "\<forall>i \<in> set is. i < length ss" and "int (length ss + 2 * length is) < 2 ^ 62"
  shows "shard_steps (q_Name queue) (qs_FIFOQueue (q_Spec queue)) ss
    (snd (fst (split_loop R queue maxShards threshold cooldown is ss n w)))"
  using assms
proof (induction "is" arbitrary: ss n w)
  case (Cons i "is")
  let ?steps = "shard_steps (q_Name queue) (qs_FIFOQueue (q_Spec queue))"
  have skip: "?steps ss (snd (fst (split_loop R queue maxShards threshold cooldown is ss n w)))" for w
    by (rule Cons.IH) (use Cons.prems in simp_all)
  have split: "?steps ss (snd (fst (split_loop R queue maxShards threshold cooldown is ss' (n + 1) w2)))"
    if s: "split_shard R queue i now ss w1 = (ss', w2)" and act: "ss_Phase (ss ! i) = ShardPhaseActive" for now w1 ss' w2
  proof -
    have step: "shard_step (q_Name queue) (qs_FIFOQueue (q_Spec queue)) ss ss'"
      by (rule split_shard_step [OF _ _ _ act refl refl s]) (use Cons.prems in \<open>auto simp: shards_wf_def\<close>)
    note len = shard_step_length [OF step]
    have "?steps ss' (snd (fst (split_loop R queue maxShards threshold cooldown is ss' (n + 1) w2)))"
    proof (rule Cons.IH)
      show "shards_wf (q_Name queue) (qs_FIFOQueue (q_Spec queue)) ss'"
        by (rule shard_step_wf [OF step Cons.prems(1)])
      show "\<forall>i \<in> set is. i < length ss'" using Cons.prems(2) len by auto
      show "int (length ss' + 2 * length is) < 2 ^ 62" using Cons.prems(3) len by simp
    qed
    with step show ?thesis by (rule converse_rtranclp_into_rtranclp)
  qed
  show ?case
    using skip split by (auto simp: Let_def split: prod.splits sum.splits option.splits)
qed simp

text \<open>Independent steps of single elements add up to steps of the list.\<close>

lemma pointwise_steps:
  assumes "list_all2 (\<lambda>s s'. \<forall>pre post. r\<^sup>*\<^sup>* (pre @ s # post) (pre @ s' # post)) ss ss'"
  shows "r\<^sup>*\<^sup>* (pre @ ss) (pre @ ss')"
  using assms
proof (induction arbitrary: pre rule: list_all2_induct)
  case (Cons s ss s' ss')
  have "r\<^sup>*\<^sup>* (pre @ s # ss) (pre @ s' # ss)" using Cons.hyps(1) by blast
  also have "r\<^sup>*\<^sup>* (pre @ s' # ss) (pre @ s' # ss')" using Cons.IH [of "pre @ [s']"] by simp
  finally show ?case .
qed simp

lemma close_step:
  "ss_Phase s = ShardPhaseClosing \<Longrightarrow>
    shard_step name fifo (pre @ s # post) (pre @ s\<lparr>ss_Phase := ShardPhaseClosed\<rparr> # post)"
  using shard_step.Close [of "length pre" "pre @ s # post" name fifo] by simp

lemma annotate_step: "shard_step name fifo (pre @ s # post) (pre @ s\<lparr>ss_AvailabilityZones := zones\<rparr> # post)"
  using shard_step.Annotate [of "length pre" "pre @ s # post" name fifo zones] by simp

definition drained :: "ShardStatus \<Rightarrow> ShardStatus \<Rightarrow> bool" where
  "drained s s' = (s' = s \<or> ss_Phase s = ShardPhaseClosing \<and> s' = s\<lparr>ss_Phase := ShardPhaseClosed\<rparr>)"

lemma drained_refl [simp]: "drained s s"
  by (simp add: drained_def)

lemma drained_closed [simp]: "ss_Phase s = ShardPhaseClosing \<Longrightarrow> drained s (s\<lparr>ss_Phase := ShardPhaseClosed\<rparr>)"
  by (simp add: drained_def)

lemma drain_loop_drained:
  "drain_loop R grp retention ss w = (Inr kept, w') \<Longrightarrow> list_all2 drained ss kept"
proof (induction ss arbitrary: w kept w')
  case (Cons s ss)
  from Cons.prems show ?case
    by (auto simp: Let_def split: if_splits prod.splits elim!: on_okE dest: Cons.IH)
qed simp

lemma drained_steps: "list_all2 drained ss ss' \<Longrightarrow> shard_steps name fifo ss ss'"
  using pointwise_steps [of "shard_step name fifo" ss ss' "[]"]
  by (force simp: drained_def intro: close_step list_all2_mono)

subsection \<open>Consequences of the life cycle\<close>

text \<open>No shard disappears, changes identity or range, or returns to an earlier phase.\<close>

definition phase_rank :: "ShardPhase \<Rightarrow> nat" where
  "phase_rank p = (if p = ShardPhaseActive then 0 else if p = ShardPhaseClosing then 1 else 2)"

definition later :: "ShardStatus \<Rightarrow> ShardStatus \<Rightarrow> bool" where
  "later s s' = (ss_ID s' = ss_ID s \<and> ss_Topic s' = ss_Topic s \<and> ss_HashRangeStart s' = ss_HashRangeStart s \<and>
     ss_HashRangeEnd s' = ss_HashRangeEnd s \<and> ss_ParentID s' = ss_ParentID s \<and> ss_CreatedAt s' = ss_CreatedAt s \<and>
     phase_rank (ss_Phase s) \<le> phase_rank (ss_Phase s'))"

lemma later_refl [simp]: "later s s"
  by (simp add: later_def)

lemma later_trans: "later s t \<Longrightarrow> later t u \<Longrightarrow> later s u"
  by (auto simp: later_def)

lemma shard_step_later: "shard_step name fifo ss ss' \<Longrightarrow> i < length ss \<Longrightarrow> later (ss ! i) (ss' ! i)"
  by (induction rule: shard_step.induct)
    (auto simp: nth_append nth_list_update later_def phase_rank_def shard_phases)

lemma shard_steps_later:
  assumes "shard_steps name fifo ss ss'"
  shows "length ss \<le> length ss' \<and> (\<forall>i < length ss. later (ss ! i) (ss' ! i))"
  using assms
proof (induction rule: rtranclp_induct)
  case (step y z)
  have len: "length ss \<le> length y" "length y \<le> length z"
    using step.IH shard_step_length [OF step.hyps(2)] by simp_all
  have "later (ss ! i) (z ! i)" if "i < length ss" for i
    using step.IH shard_step_later [OF step.hyps(2), of i] that len by (auto intro: later_trans)
  with len show ?case by simp
qed simp

text \<open>The number of active shards grows by one with each split and stops at the limit.\<close>

lemma active_count_append: "active_count (a @ b) = active_count a + active_count b"
  by (simp add: active_count_def)

lemma active_count_Nil [simp]: "active_count [] = 0"
  by (simp add: active_count_def)

lemma active_count_Cons:
  "active_count (s # ss) = (if ss_Phase s = ShardPhaseActive then 1 else 0) + active_count ss"
  by (simp add: active_count_def)

lemma active_count_update:
  assumes "i < length ss"
  shows "active_count (ss[i := s']) = active_count ss - active_count [ss ! i] + active_count [s']"
proof -
  have "active_count ss = active_count (take i ss) + (active_count [ss ! i] + active_count (drop (Suc i) ss))"
    using arg_cong [OF id_take_nth_drop [OF assms], of active_count]
    by (simp add: active_count_append active_count_Cons [of "ss ! i"])
  moreover have "active_count (ss[i := s']) = active_count (take i ss) + (active_count [s'] + active_count (drop (Suc i) ss))"
    by (simp add: upd_conv_take_nth_drop [OF assms] active_count_append active_count_Cons [of s'])
  ultimately show ?thesis by simp
qed

lemma to_int32_id: "int_in_bits 32 n \<Longrightarrow> to_int32 n = n"
  by (simp add: to_int32_def int_in_bits_def signed_of_int signed_take_bit_int_eq_self)

lemma split_shard_active:
  assumes "i < length ss" and "ss_Phase (ss ! i) = ShardPhaseActive" and "split_shard R queue i now ss w = (ss', w')"
  shows "active_count ss' = active_count ss + 1 \<and> length ss' = length ss + 2"
proof -
  from assms(3) obtain a b where ss': "ss' = ss[i := (ss ! i)\<lparr>ss_Phase := ShardPhaseClosing\<rparr>] @ [a, b]"
    and "ss_Phase a = ShardPhaseActive" "ss_Phase b = ShardPhaseActive"
    by (auto simp: split_shard_def newShard_def Let_def split: prod.splits)
  then show ?thesis using assms(2)
    by (simp add: active_count_append active_count_update [OF assms(1)] active_count_Cons shard_phases)
qed

lemma split_loop_active:
  assumes "\<forall>i \<in> set is. i < length ss" and "n = active_count ss" and "n + int (length is) < 2 ^ 31"
  shows "active_count (snd (fst (split_loop R queue maxShards threshold cooldown is ss n w))) \<le> max n maxShards"
  using assms
proof (induction "is" arbitrary: ss n w)
  case (Cons i "is")
  have skip: "active_count (snd (fst (split_loop R queue maxShards threshold cooldown is ss n w))) \<le> max n maxShards" for w
    by (rule Cons.IH) (use Cons.prems in simp_all)
  have "int_in_bits 32 n" using Cons.prems(2,3) by (simp add: int_in_bits_def active_count_def)
  note n32 = to_int32_id [OF this]
  have split: "active_count (snd (fst (split_loop R queue maxShards threshold cooldown is ss' (n + 1) w2))) \<le> max n maxShards"
    if s: "split_shard R queue i now ss w1 = (ss', w2)" and act: "ss_Phase (ss ! i) = ShardPhaseActive"
      and room: "n < maxShards" for now w1 ss' w2
  proof -
    note grown = split_shard_active [OF _ act s]
    have "active_count (snd (fst (split_loop R queue maxShards threshold cooldown is ss' (n + 1) w2))) \<le> max (n + 1) maxShards"
      by (rule Cons.IH) (use Cons.prems grown in auto)
    with room show ?thesis by simp
  qed
  show ?case
    using skip split Cons.prems(2) n32 by (auto simp: Let_def not_le split: prod.splits sum.splits option.splits)
qed simp


lemma shards_wf_initial:
  assumes "newShard R ''0'' parent 0 FullHashRangeEnd queue w = (s, w')"
  shows "shards_wf (q_Name queue) (qs_FIFOQueue (q_Spec queue)) [s]"
proof -
  have zero: "FormatInt 0 = ''0''" by code_simp
  from assms have s: "ss_ID s = ''0''" "ss_Topic s = ShardTopicName (q_Name queue) (qs_FIFOQueue (q_Spec queue)) ''0''"
    "ss_HashRangeStart s = uint (0 :: u32)" "ss_HashRangeEnd s = uint FullHashRangeEnd" "ss_Phase s = ShardPhaseActive"
    by (auto simp: newShard_def split: prod.splits)
  have "uint FullHashRangeEnd < 2 ^ 32" using uint_bounded [of FullHashRangeEnd] by simp
  with s zero have "shard_ok (q_Name queue) (qs_FIFOQueue (q_Spec queue)) 0 s" by (simp add: shard_ok_def)
  moreover have "tiles (ActiveShards (map status_shard [s])) 0 FullHashRangeEnd"
    using tiles_single [of "status_shard s"] s
    by (simp add: ActiveShards_Cons status_shard_def shard_phases to_uint32_def)
  ultimately show ?thesis by (simp add: shards_wf_def)
qed

lemma reconcileSplits_steps:
  assumes "shards_wf (q_Name queue) (qs_FIFOQueue (q_Spec queue)) (q_Shards queue)"
    and "int (3 * length (q_Shards queue)) < 2 ^ 62" and "reconcileSplits R queue w = ((r, queue'), w')"
  shows "shard_steps (q_Name queue) (qs_FIFOQueue (q_Spec queue)) (q_Shards queue) (q_Shards queue') \<and>
    queue' = with_shards queue (q_Shards queue')"
  using assms(3) split_loop_steps [OF assms(1), of "[0..<length (q_Shards queue)]" R] assms(2)
  by (auto simp: reconcileSplits_def Let_def split: if_splits prod.splits) (metis fst_conv snd_conv)

lemma reconcileDrains_steps:
  assumes "reconcileDrains R queue w = (Inr queue', w')"
  shows "list_all2 drained (q_Shards queue) (q_Shards queue') \<and> queue' = with_shards queue (q_Shards queue')"
  using assms unfolding reconcileDrains_def by (elim on_okE) (auto dest: drain_loop_drained)

section \<open>Properties\<close>

definition demo_reconciler :: "(mem, kmem, genv, kcluster) QueueReconciler" where
  "demo_reconciler = \<lparr>qr_Client = mem_kube, qr_sys = mem_sys, qr_Now = None, qr_Zones = None, qr_Getenv = (\<lambda>_. '''')\<rparr>"

definition demo_spec :: QueueSpec where
  "demo_spec = \<lparr>qs_FIFOQueue = True, qs_VisibilityTimeoutSeconds = 30, qs_MessageRetentionPeriodSeconds = 60,
     qs_MaxReceiveCount = 5, qs_DeadLetterTargetQueue = ''orders-dlq'', qs_PartitionsPerShard = 6, qs_DelaySeconds = 0,
     qs_IsDLQ = False, qs_MinShards = 1, qs_MaxShards = 4, qs_ShardSplitThresholdBytesPerSec = 1000,
     qs_ShardSplitCooldownSeconds = 10\<rparr>"

definition demo_shard_status :: ShardStatus where
  "demo_shard_status = \<lparr>ss_ID = ''0'', ss_Topic = ''kmsvc.orders.fifo.shard-0'', ss_HashRangeStart = 0,
     ss_HashRangeEnd = 0xFFFFFFFF, ss_Phase = ''Active'', ss_ParentID = '''', ss_CreatedAt = Second,
     ss_AvailabilityZones = []\<rparr>"

definition demo_queue :: Queue where
  "demo_queue = \<lparr>q_Meta = \<lparr>om_Name = ''orders'', om_Namespace = ''sqs'', om_Labels = None,
       om_Finalizers = [''kmsvc.io/queue-operator''], om_CreationTimestamp = Second, om_DeletionTimestamp = None\<rparr>,
     q_Spec = demo_spec,
     q_Status = \<lparr>qst_Phase = ''Ready'', qst_Shards = [demo_shard_status], qst_Conditions = []\<rparr>\<rparr>"

text \<open>At second 100, a second after the last sample, the topic has one record more, not yet consumed.\<close>

definition demo_busy :: "(mem, kmem, genv, kcluster) op_world" where
  "demo_busy = \<lparr>
     o_world = \<lparr>w_redis = demo_empty,
       w_kafka = kmem0\<lparr>k_log := [((''kmsvc.orders.fifo.shard-0'', 0), [(Some ''g'', ''hello'')])],
         k_topics := [''kmsvc.orders.fifo.shard-0''],
         k_lags := [(''kmsvc-consumer-orders'', ''kmsvc.orders.fifo.shard-0'', 1)]\<rparr>,
       w_env = \<lparr>g_time = 100 * Second, g_uuid = 0, g_ctx = None\<rparr>\<rparr>,
     o_kube = \<lparr>kc_queues = [((''sqs'', ''orders''), demo_queue)], kc_workers = [], kc_deployments = [],
       kc_pods = [], kc_nodes = [], kc_namespaces = []\<rparr>,
     o_sampleState = [''kmsvc.orders.fifo.shard-0'' \<mapsto> \<lparr>sm_offsetSum = 0, sm_at = 99 * Second\<rparr>],
     o_nodeZoneCache = Map.empty\<rparr>"

definition demo_halves :: "ShardStatus list" where
  "demo_halves = [demo_shard_status\<lparr>ss_Phase := ''Closing''\<rparr>,
     demo_shard_status\<lparr>ss_ID := ''1'', ss_Topic := ''kmsvc.orders.fifo.shard-1'', ss_HashRangeEnd := 0x7FFFFFFF,
       ss_ParentID := ''0'', ss_CreatedAt := 100 * Second\<rparr>,
     demo_shard_status\<lparr>ss_ID := ''2'', ss_Topic := ''kmsvc.orders.fifo.shard-2'', ss_HashRangeStart := 0x7FFFFFFF,
       ss_ParentID := ''0'', ss_CreatedAt := 100 * Second\<rparr>]"

lemma demo_wf: "shards_wf ''orders'' True [demo_shard_status]"
proof -
  have "shard_ok ''orders'' True 0 demo_shard_status" by code_simp
  moreover have "tiles (ActiveShards (map status_shard [demo_shard_status])) 0 FullHashRangeEnd"
    using tiles_single [of "status_shard demo_shard_status"]
    by (simp add: ActiveShards_Cons status_shard_def demo_shard_status_def to_uint32_def FullHashRangeEnd_def)
  ultimately show ?thesis by (simp add: shards_wf_def)
qed

lemma demo_queue_sel: "q_Name demo_queue = ''orders''" "qs_FIFOQueue (q_Spec demo_queue) = True"
  "q_Shards demo_queue = [demo_shard_status]"
  by code_simp+

text \<open>
  C3. Splitting refines the abstract life cycle. From a well-formed shard list (numbered by
  position, topics of the queue, active ranges tiling the key space) \<^verbatim>\<open>reconcileSplits\<close>, also
  when it stops with an error half way, performs a sequence of abstract split steps and
  nothing else on the queue: each replaces an active shard by itself closing and two new
  active halves with fresh numbers. Afterwards the list is well formed again: no hash is
  lost and none is owned twice.
\<close>

theorem reconcileSplits_refines:
  assumes "shards_wf (q_Name queue) (qs_FIFOQueue (q_Spec queue)) (q_Shards queue)"
    and "int (3 * length (q_Shards queue)) < 2 ^ 62" and "reconcileSplits R queue w = ((r, queue'), w')"
  shows "shard_steps (q_Name queue) (qs_FIFOQueue (q_Spec queue)) (q_Shards queue) (q_Shards queue') \<and>
    shards_wf (q_Name queue) (qs_FIFOQueue (q_Spec queue)) (q_Shards queue') \<and>
    queue' = with_shards queue (q_Shards queue')"
  using reconcileSplits_steps [OF assms] shard_steps_wf [OF _ assms(1)] by blast

theorem reconcileSplits_refines_witness:
  "fst (reconcileSplits demo_reconciler demo_queue demo_busy) = (Inr (), with_shards demo_queue demo_halves) \<and>
   shards_wf ''orders'' True demo_halves"
proof -
  have r: "fst (reconcileSplits demo_reconciler demo_queue demo_busy) = (Inr (), with_shards demo_queue demo_halves)"
    by code_simp
  then have e: "reconcileSplits demo_reconciler demo_queue demo_busy =
      ((Inr (), with_shards demo_queue demo_halves), snd (reconcileSplits demo_reconciler demo_queue demo_busy))"
    by (metis prod.collapse)
  have "shards_wf (q_Name demo_queue) (qs_FIFOQueue (q_Spec demo_queue)) (q_Shards demo_queue)"
    and "int (3 * length (q_Shards demo_queue)) < 2 ^ 62"
    by (simp_all add: demo_queue_sel demo_wf)
  from reconcileSplits_refines [OF this e] r show ?thesis by (simp add: demo_queue_sel)
qed

text \<open>
  C30. The number of active shards never exceeds the limit of the specification (eight when
  it is not set), unless it already did: each split adds one active shard, and the loop
  stops at the limit, whatever the throughput samples say and also when it ends with an error.
\<close>

theorem reconcileSplits_bounded:
  assumes "int (length (q_Shards queue)) < 2 ^ 30" and "reconcileSplits R queue w = ((r, queue'), w')"
  shows "active_count (q_Shards queue') \<le> max (active_count (q_Shards queue)) (max_shards (q_Spec queue))"
proof -
  have "active_count (q_Shards queue) \<le> int (length (q_Shards queue))" by (simp add: active_count_def)
  with assms(1) have "active_count (q_Shards queue) + int (length [0..<length (q_Shards queue)]) < 2 ^ 31" by simp
  from split_loop_active [OF _ refl this, of R queue "max_shards (q_Spec queue)"] assms(2) show ?thesis
    by (auto simp: reconcileSplits_def Let_def split: if_splits prod.splits) (metis fst_conv snd_conv)
qed

theorem reconcileSplits_bounded_witness:
  "active_count (q_Shards (snd (fst (reconcileSplits demo_reconciler demo_queue demo_busy)))) = 2 \<and>
   active_count (q_Shards (snd (fst (reconcileSplits demo_reconciler demo_queue demo_busy)))) \<le> 4"
proof -
  let ?x = "reconcileSplits demo_reconciler demo_queue demo_busy"
  have e: "?x = ((fst (fst ?x), snd (fst ?x)), snd ?x)" by simp
  have c: "active_count (q_Shards (snd (fst ?x))) = 2"
    "max (active_count (q_Shards demo_queue)) (max_shards (q_Spec demo_queue)) = 4" by code_simp+
  have "int (length (q_Shards demo_queue)) < 2 ^ 30" by (simp add: demo_queue_sel)
  from reconcileSplits_bounded [OF this e] c show ?thesis by simp
qed

end
