(* ===== verification/Zone_Locator.thy ===== *)
theory Zone_Locator
  imports Shard_Lifecycle
begin

text \<open>
  Package \<^verbatim>\<open>internal/operator\<close>, file \<^verbatim>\<open>zone_locator.go\<close>: from broker ids to the availability
  zones their pods run in, with a cache of node zones. \<open>placement\<close> is the contract of the
  reads: pods and nodes are as the cluster has them and reading changes neither.
\<close>

section \<open>Operations\<close>

definition zoneLabel :: string where "zoneLabel = ''topology.kubernetes.io/zone''"

definition pod_name :: "ZoneLocator \<Rightarrow> int \<Rightarrow> string" where
  "pod_name z brokerID = zl_ClusterName z @ ''-'' @ zl_PoolName z @ ''-'' @ FormatInt brokerID"

definition nodeNameForBroker ::
  "('s, 'k, 'g, 'c) QueueReconciler \<Rightarrow> ZoneLocator \<Rightarrow> int \<Rightarrow>
    ('s, 'k, 'g, 'c) op_world \<Rightarrow> string res \<times> ('s, 'k, 'g, 'c) op_world" where
  "nodeNameForBroker R z brokerID w =
     (let podName = pod_name z brokerID in
      on_ok (kube_do R (\<lambda>K c. GetPodNodeName K c (zl_Namespace z) podName) w) (wrapf (''get broker pod '' @ podName))
        (\<lambda>pod w. (Inr (case pod of None \<Rightarrow> '''' | Some nodeName \<Rightarrow> nodeName), w)))"

definition zoneForNode ::
  "('s, 'k, 'g, 'c) QueueReconciler \<Rightarrow> string \<Rightarrow>
    ('s, 'k, 'g, 'c) op_world \<Rightarrow> string res \<times> ('s, 'k, 'g, 'c) op_world" where
  "zoneForNode R nodeName w =
     (case o_nodeZoneCache w nodeName of
        Some zone \<Rightarrow> (Inr zone, w)
      | None \<Rightarrow>
          on_ok (kube_do R (\<lambda>K c. GetNodeLabels K c nodeName) w) (wrapf (''get node '' @ nodeName))
            (\<lambda>node w. case node of
               None \<Rightarrow> (Inr '''', w)
             | Some labels \<Rightarrow>
                 let zone = map_field labels zoneLabel in
                 (Inr zone, w\<lparr>o_nodeZoneCache := (o_nodeZoneCache w)(nodeName \<mapsto> zone)\<rparr>)))"

text \<open>\<open>zones\<close> is both the result so far and the set \<^verbatim>\<open>seen\<close>.\<close>

fun zones_loop ::
  "('s, 'k, 'g, 'c) QueueReconciler \<Rightarrow> ZoneLocator \<Rightarrow> int list \<Rightarrow> string list \<Rightarrow>
    ('s, 'k, 'g, 'c) op_world \<Rightarrow> string list \<times> ('s, 'k, 'g, 'c) op_world" where
  "zones_loop R z [] zones w = (zones, w)"
| "zones_loop R z (i # is) zones w =
     (case nodeNameForBroker R z i w of (node, w) \<Rightarrow>
      case node of
        Inl e \<Rightarrow> zones_loop R z is zones w
      | Inr nodeName \<Rightarrow>
          if nodeName = '''' then zones_loop R z is zones w
          else case zoneForNode R nodeName w of (r, w) \<Rightarrow>
            case r of
              Inl e \<Rightarrow> zones_loop R z is zones w
            | Inr zone \<Rightarrow>
                if zone = '''' then zones_loop R z is zones w
                else zones_loop R z is (if zone \<in> set zones then zones else zones @ [zone]) w)"

definition ZonesForBrokers ::
  "('s, 'k, 'g, 'c) QueueReconciler \<Rightarrow> ZoneLocator \<Rightarrow> int list \<Rightarrow>
    ('s, 'k, 'g, 'c) op_world \<Rightarrow> string list res \<times> ('s, 'k, 'g, 'c) op_world" where
  "ZonesForBrokers R z brokerIDs w =
     (case zones_loop R z brokerIDs [] w of (zones, w) \<Rightarrow> (Inr (sort zones), w))"

section \<open>Contract of the reads\<close>

locale placement =
  fixes K :: "'c kube_api" and pods :: "'c \<Rightarrow> string \<times> string \<rightharpoonup> string"
    and nodes :: "'c \<Rightarrow> string \<rightharpoonup> (string \<times> string) list"
  assumes get_pod: "GetPodNodeName K c ns n = (Inr r, c') \<Longrightarrow> r = pods c (ns, n)"
    and get_pod_frame: "pods (snd (GetPodNodeName K c ns n)) = pods c" "nodes (snd (GetPodNodeName K c ns n)) = nodes c"
    and get_node: "GetNodeLabels K c n = (Inr r', c') \<Longrightarrow> r' = nodes c n"
    and get_node_frame: "pods (snd (GetNodeLabels K c n)) = pods c" "nodes (snd (GetNodeLabels K c n)) = nodes c"

text \<open>The zone of a broker: through its pod and node, \<open>None\<close> when some part of the chain is missing.\<close>

definition node_zone :: "(string \<rightharpoonup> (string \<times> string) list) \<Rightarrow> string \<Rightarrow> string" where
  "node_zone nodes n = (case nodes n of None \<Rightarrow> '''' | Some labels \<Rightarrow> map_field labels zoneLabel)"

definition broker_zone ::
  "(string \<times> string \<rightharpoonup> string) \<Rightarrow> (string \<rightharpoonup> (string \<times> string) list) \<Rightarrow> ZoneLocator \<Rightarrow> int \<Rightarrow> string" where
  "broker_zone pods nodes z i = (case pods (zl_Namespace z, pod_name z i) of
     None \<Rightarrow> '''' | Some n \<Rightarrow> if n = '''' then '''' else node_zone nodes n)"

definition cache_ok :: "(string \<rightharpoonup> (string \<times> string) list) \<Rightarrow> (string \<rightharpoonup> string) \<Rightarrow> bool" where
  "cache_ok nodes cache = (\<forall>n zone. cache n = Some zone \<longrightarrow> node_zone nodes n = zone)"

lemma cache_okD: "cache_ok nodes cache \<Longrightarrow> cache n = Some zone \<Longrightarrow> node_zone nodes n = zone"
  by (simp add: cache_ok_def)

lemma cache_ok_update: "cache_ok nodes cache \<Longrightarrow> node_zone nodes n = zone \<Longrightarrow> cache_ok nodes (cache(n \<mapsto> zone))"
  by (simp add: cache_ok_def)

definition reads_ok :: "'c kube_api \<Rightarrow> bool" where
  "reads_ok K = ((\<forall>c ns n e. fst (GetPodNodeName K c ns n) \<noteq> Inl e) \<and> (\<forall>c n e. fst (GetNodeLabels K c n) \<noteq> Inl e))"

context placement begin

lemma nodeNameForBroker_spec:
  assumes "qr_Client R = K" and "nodeNameForBroker R z i w = (r, w')"
  shows "pods (o_kube w') = pods (o_kube w) \<and> nodes (o_kube w') = nodes (o_kube w) \<and>
    o_nodeZoneCache w' = o_nodeZoneCache w \<and>
    (\<forall>n. r = Inr n \<longrightarrow> n = (case pods (o_kube w) (zl_Namespace z, pod_name z i) of None \<Rightarrow> '''' | Some n \<Rightarrow> n)) \<and>
    (reads_ok K \<longrightarrow> (\<exists>n. r = Inr n))"
proof (cases "GetPodNodeName K (o_kube w) (zl_Namespace z) (pod_name z i)")
  case (Pair a c)
  with assms get_pod [of "o_kube w" "zl_Namespace z" "pod_name z i"] get_pod_frame [of "o_kube w" "zl_Namespace z" "pod_name z i"]
  show ?thesis by (cases a) (auto simp: nodeNameForBroker_def kube_do_def Let_def reads_ok_def, metis fst_conv)
qed

lemma zoneForNode_spec:
  assumes "qr_Client R = K" and "cache_ok (nodes (o_kube w)) (o_nodeZoneCache w)" and "zoneForNode R n w = (r, w')"
  shows "pods (o_kube w') = pods (o_kube w) \<and> nodes (o_kube w') = nodes (o_kube w) \<and>
    cache_ok (nodes (o_kube w)) (o_nodeZoneCache w') \<and>
    (\<forall>zone. r = Inr zone \<longrightarrow> zone = node_zone (nodes (o_kube w)) n) \<and> (reads_ok K \<longrightarrow> (\<exists>zone. r = Inr zone))"
proof (cases "o_nodeZoneCache w n")
  case (Some zone)
  then show ?thesis using assms cache_okD [OF assms(2) Some] by (auto simp: zoneForNode_def)
next
  case None
  obtain a c where g: "GetNodeLabels K (o_kube w) n = (a, c)" by fastforce
  note frame = get_node_frame [of "o_kube w" n, unfolded g snd_conv]
  show ?thesis
  proof (cases a)
    case (Inl e)
    then have "\<not> reads_ok K" using g unfolding reads_ok_def by (metis fst_conv)
    then show ?thesis using Inl assms None g frame by (auto simp: zoneForNode_def kube_do_def)
  next
    case (Inr node)
    then have "node = nodes (o_kube w) n" using get_node g by simp
    then show ?thesis using assms None g frame Inr
      by (auto simp: zoneForNode_def kube_do_def Let_def node_zone_def [of _ n] intro!: cache_ok_update split: option.splits)
  qed
qed

lemma zones_loop_spec:
  assumes "qr_Client R = K" and "cache_ok (nodes (o_kube w)) (o_nodeZoneCache w)" and "zones_loop R z is zones w = (zs, w')"
    and "distinct zones" and "'''' \<notin> set zones"
  shows "distinct zs \<and> '''' \<notin> set zs \<and> set zs \<subseteq> set zones \<union> broker_zone (pods (o_kube w)) (nodes (o_kube w)) z ` set is \<and>
    (reads_ok K \<longrightarrow> set zones \<union> (broker_zone (pods (o_kube w)) (nodes (o_kube w)) z ` set is - {''''}) \<subseteq> set zs) \<and>
    pods (o_kube w') = pods (o_kube w) \<and> nodes (o_kube w') = nodes (o_kube w) \<and> cache_ok (nodes (o_kube w)) (o_nodeZoneCache w')"
  using assms(2-)
proof (induction "is" arbitrary: zones w)
  case (Cons i "is")
  obtain node w1 where n: "nodeNameForBroker R z i w = (node, w1)" by fastforce
  note ns = nodeNameForBroker_spec [OF assms(1) n]
  have ok1: "cache_ok (nodes (o_kube w1)) (o_nodeZoneCache w1)" using Cons.prems(1) ns by simp
  show ?case
  proof (cases "\<exists>nodeName. node = Inr nodeName \<and> nodeName \<noteq> ''''")
    case False
    then have "zones_loop R z is zones w1 = (zs, w')" using Cons.prems(2) n by (auto split: sum.splits if_splits)
    moreover have "reads_ok K \<Longrightarrow> broker_zone (pods (o_kube w)) (nodes (o_kube w)) z i = ''''"
      using False ns by (auto simp: broker_zone_def split: option.splits)
    ultimately show ?thesis using Cons.IH [OF ok1 _ Cons.prems(3,4)] ns by auto
  next
    case True
    then obtain nodeName where nn: "node = Inr nodeName" "nodeName \<noteq> ''''" by blast
    obtain r w2 where zr: "zoneForNode R nodeName w1 = (r, w2)" by fastforce
    note zs = zoneForNode_spec [OF assms(1) ok1 zr]
    have ok2: "cache_ok (nodes (o_kube w2)) (o_nodeZoneCache w2)" using zs by simp
    define zones' where "zones' = (case r of Inl e \<Rightarrow> zones
      | Inr zone \<Rightarrow> if zone = '''' \<or> zone \<in> set zones then zones else zones @ [zone])"
    have run: "zones_loop R z is zones' w2 = (zs, w')"
      using Cons.prems(2) n nn zr by (auto simp: zones'_def split: sum.splits if_splits)
    have bz: "broker_zone (pods (o_kube w)) (nodes (o_kube w)) z i = node_zone (nodes (o_kube w)) nodeName"
      using ns nn by (auto simp: broker_zone_def split: option.splits)
    have set': "set zones' \<subseteq> insert (broker_zone (pods (o_kube w)) (nodes (o_kube w)) z i) (set zones)"
      "distinct zones'" "'''' \<notin> set zones'"
      using Cons.prems(3,4) zs ns bz by (auto simp: zones'_def split: sum.splits)
    have full: "reads_ok K \<Longrightarrow> set zones \<union> ({broker_zone (pods (o_kube w)) (nodes (o_kube w)) z i} - {''''}) \<subseteq> set zones'"
      using zs ns bz by (auto simp: zones'_def split: sum.splits)
    have fr: "pods (o_kube w2) = pods (o_kube w)" "nodes (o_kube w2) = nodes (o_kube w)" using zs ns by simp_all
    note IH = Cons.IH [OF ok2 run set'(2,3), unfolded fr]
    then have "reads_ok K \<longrightarrow> set zones \<union> (broker_zone (pods (o_kube w)) (nodes (o_kube w)) z ` set (i # is) - {''''}) \<subseteq> set zs"
      using full unfolding list.set image_insert by blast
    with IH set'(1) show ?thesis unfolding list.set image_insert by blast
  qed
qed auto

end

interpretation mem_place: placement mem_kube "\<lambda>c. map_of (kc_pods c)" "\<lambda>c. map_of (kc_nodes c)"
  by unfold_locales (auto simp: mem_kube_def)

lemma mem_reads_ok: "reads_ok mem_kube"
  by (simp add: reads_ok_def mem_kube_def)

section \<open>Property\<close>

text \<open>
  C31. \<^verbatim>\<open>ZonesForBrokers\<close> never fails and answers a sorted list without repetitions or empty
  names that holds only zones the brokers' pods run in, and all of them unless a read
  failed. The node cache only ever holds zones the nodes have, so an answer from the cache
  is the answer the cluster would give.
\<close>

theorem ZonesForBrokers_exact:
  assumes "placement (qr_Client R) pods nodes" and "cache_ok (nodes (o_kube w)) (o_nodeZoneCache w)"
    and "ZonesForBrokers R z ids w = (r, w')"
  shows "\<exists>zones. r = Inr zones \<and> sorted zones \<and> distinct zones \<and>
    set zones \<subseteq> broker_zone (pods (o_kube w)) (nodes (o_kube w)) z ` set ids - {''''} \<and>
    (reads_ok (qr_Client R) \<longrightarrow> set zones = broker_zone (pods (o_kube w)) (nodes (o_kube w)) z ` set ids - {''''}) \<and>
    cache_ok (nodes (o_kube w')) (o_nodeZoneCache w')"
proof -
  obtain zs where run: "zones_loop R z ids [] w = (zs, w')" and r: "r = Inr (sort zs)"
    using assms(3) by (auto simp: ZonesForBrokers_def split: prod.splits)
  from placement.zones_loop_spec [OF assms(1) refl assms(2) run] r show ?thesis by auto
qed

definition demo_locator :: ZoneLocator where
  "demo_locator = \<lparr>zl_Namespace = ''sqs'', zl_ClusterName = ''kmsvc'', zl_PoolName = ''kmsvc-pool''\<rparr>"

definition demo_placed :: "(mem, kmem, genv, kcluster) op_world" where
  "demo_placed = demo_busy\<lparr>o_kube := (o_kube demo_busy)\<lparr>
     kc_pods := [((''sqs'', ''kmsvc-kmsvc-pool-0''), ''n1''), ((''sqs'', ''kmsvc-kmsvc-pool-1''), ''n2''), ((''sqs'', ''kmsvc-kmsvc-pool-2''), ''n1'')],
     kc_nodes := [(''n1'', [(''topology.kubernetes.io/zone'', ''zone-b'')]), (''n2'', [(''topology.kubernetes.io/zone'', ''zone-a'')])]\<rparr>\<rparr>"

theorem ZonesForBrokers_exact_witness:
  "fst (ZonesForBrokers demo_reconciler demo_locator [0, 1, 2, 7] demo_placed) = Inr [''zone-a'', ''zone-b''] \<and>
   {''zone-a'', ''zone-b''} = broker_zone (map_of (kc_pods (o_kube demo_placed))) (map_of (kc_nodes (o_kube demo_placed)))
      demo_locator ` set [0, 1, 2, 7] - {''''}"
proof -
  have client: "qr_Client demo_reconciler = mem_kube" by (simp add: demo_reconciler_def)
  have pl: "placement (qr_Client demo_reconciler) (\<lambda>c. map_of (kc_pods c)) (\<lambda>c. map_of (kc_nodes c))"
    unfolding client by (rule mem_place.placement_axioms)
  have c: "cache_ok (map_of (kc_nodes (o_kube demo_placed))) (o_nodeZoneCache demo_placed)"
    by (simp add: cache_ok_def demo_placed_def demo_busy_def)
  have z: "fst (ZonesForBrokers demo_reconciler demo_locator [0, 1, 2, 7] demo_placed) = Inr [''zone-a'', ''zone-b'']"
    by code_simp
  from ZonesForBrokers_exact [OF pl c run_eqI [OF z]] z mem_reads_ok client show ?thesis by auto
qed

end
