(* ===== verification/Queue_Controller.thy ===== *)
theory Queue_Controller
  imports Zone_Locator
begin

text \<open>
  Package \<^verbatim>\<open>internal/operator\<close>, file \<^verbatim>\<open>queue_controller.go\<close>, with \<^verbatim>\<open>RegisterNamespace\<close> of
  \<^verbatim>\<open>internal/temporal/client.go\<close>: one reconcile of a queue, from the read of the object to the
  update of its status. The queue object the Go code passes by pointer is passed along
  explicitly: each step answers it as it stands then, also on an error, because \<^verbatim>\<open>setFailed\<close>
  writes that status back. Logging and the ten second limit of the namespace registration
  are left out.
\<close>

section \<open>Topics and zones of the shards\<close>

definition topic_config :: "Queue \<Rightarrow> TopicConfig" where
  "topic_config queue = \<lparr>tc_PartitionCount = qs_PartitionsPerShard (q_Spec queue), tc_ReplicationFactor = replicationFactor,
     tc_RetentionSeconds = qs_MessageRetentionPeriodSeconds (q_Spec queue), tc_MinInsyncReplicas = minInsyncReplicas\<rparr>"

fun ensure_topics ::
  "('s, 'k, 'g, 'c) QueueReconciler \<Rightarrow> TopicConfig \<Rightarrow> ShardStatus list \<Rightarrow>
    ('s, 'k, 'g, 'c) op_world \<Rightarrow> unit res \<times> ('s, 'k, 'g, 'c) op_world" where
  "ensure_topics R cfg [] w = (Inr (), w)"
| "ensure_topics R cfg (s # ss) w =
     (if ss_Phase s = ShardPhaseClosed then ensure_topics R cfg ss w
      else on_ok (admin_do R (\<lambda>K. CreateTopic K (ss_Topic s) cfg) w) (wrapf (''ensure topic '' @ ss_Topic s))
        (\<lambda>_ w. ensure_topics R cfg ss w))"

definition ensureShardTopics ::
  "('s, 'k, 'g, 'c) QueueReconciler \<Rightarrow> Queue \<Rightarrow>
    ('s, 'k, 'g, 'c) op_world \<Rightarrow> unit res \<times> ('s, 'k, 'g, 'c) op_world" where
  "ensureShardTopics R queue w = ensure_topics R (topic_config queue) (q_Shards queue) w"

definition annotate_shard ::
  "('s, 'k, 'g, 'c) QueueReconciler \<Rightarrow> ZoneLocator \<Rightarrow> ShardStatus \<Rightarrow>
    ('s, 'k, 'g, 'c) op_world \<Rightarrow> ShardStatus \<times> ('s, 'k, 'g, 'c) op_world" where
  "annotate_shard R z s w =
     (if ss_Phase s = ShardPhaseClosed then (s, w)
      else case admin_do R (\<lambda>K. ReplicaBrokerIDs K (ss_Topic s)) w of (ids, w) \<Rightarrow>
        case ids of
          Inl e \<Rightarrow> (s, w)
        | Inr brokerIDs \<Rightarrow>
            if brokerIDs = [] then (s, w)
            else case ZonesForBrokers R z brokerIDs w of (r, w) \<Rightarrow>
              case r of
                Inl e \<Rightarrow> (s, w)
              | Inr zones \<Rightarrow> if zones = [] then (s, w) else (s\<lparr>ss_AvailabilityZones := zones\<rparr>, w))"

fun annotate_loop ::
  "('s, 'k, 'g, 'c) QueueReconciler \<Rightarrow> ZoneLocator \<Rightarrow> ShardStatus list \<Rightarrow>
    ('s, 'k, 'g, 'c) op_world \<Rightarrow> ShardStatus list \<times> ('s, 'k, 'g, 'c) op_world" where
  "annotate_loop R z [] w = ([], w)"
| "annotate_loop R z (s # ss) w =
     (case annotate_shard R z s w of (s', w) \<Rightarrow> case annotate_loop R z ss w of (ss', w) \<Rightarrow> (s' # ss', w))"

definition annotateAvailabilityZones ::
  "('s, 'k, 'g, 'c) QueueReconciler \<Rightarrow> Queue \<Rightarrow>
    ('s, 'k, 'g, 'c) op_world \<Rightarrow> Queue \<times> ('s, 'k, 'g, 'c) op_world" where
  "annotateAvailabilityZones R queue w =
     (case qr_Zones R of
        None \<Rightarrow> (queue, w)
      | Some z \<Rightarrow> case annotate_loop R z (q_Shards queue) w of (ss, w) \<Rightarrow> (with_shards queue ss, w))"

section \<open>Status and published state\<close>

definition setFailed ::
  "('s, 'k, 'g, 'c) QueueReconciler \<Rightarrow> Queue \<Rightarrow> string \<Rightarrow> go_error \<Rightarrow>
    ('s, 'k, 'g, 'c) op_world \<Rightarrow> unit res \<times> ('s, 'k, 'g, 'c) op_world" where
  "setFailed R queue reason cause w =
     on_ok (kube_do R (\<lambda>K c. UpdateQueueStatus K c (with_phase queue QueuePhaseFailed)) w)
       (wrapf (''update failed status '' @ q_Name queue @ '' (reason='' @ reason @ '', cause='' @ Error cause @ '')''))
       (\<lambda>_ w. (Inl (wrapf (''reconcile '' @ q_Name queue @ '' failed ('' @ reason @ '')'') cause), w))"

definition queue_meta :: "Queue \<Rightarrow> QueueMeta" where
  "queue_meta queue = (let spec = q_Spec queue in \<lparr>
     qm_FIFO = qs_FIFOQueue spec, qm_VisibilityTimeoutSeconds = qs_VisibilityTimeoutSeconds spec,
     qm_MaxReceiveCount = qs_MaxReceiveCount spec, qm_DLQQueueName = qs_DeadLetterTargetQueue spec,
     qm_PartitionsPerShard = qs_PartitionsPerShard spec, qm_RetentionSeconds = qs_MessageRetentionPeriodSeconds spec,
     qm_CreatedAt = om_CreationTimestamp (q_Meta queue)\<rparr>)"

definition published_shards :: "ShardStatus list \<Rightarrow> Shard list" where
  "published_shards ss = map status_shard (filter (\<lambda>s. ss_Phase s \<noteq> ShardPhaseClosed) ss)"

text \<open>The clock is read by \<^verbatim>\<open>PutQueueMeta\<close> only for a queue without creation time.\<close>

definition publishRedisState ::
  "('s, 'k, 'g, 'c) QueueReconciler \<Rightarrow> Queue \<Rightarrow>
    ('s, 'k, 'g, 'c) op_world \<Rightarrow> unit res \<times> ('s, 'k, 'g, 'c) op_world" where
  "publishRedisState R queue w =
     (let S = qr_sys R; m = queue_meta queue;
          put = (\<lambda>t. redis_do (PutQueueMeta (Redis S) (q_Name queue) m t)) in
      on_ok (plane_do (if qm_CreatedAt m = zero_time then with_now S put else put 0) w) id
        (\<lambda>_ w. plane_do (redis_do (PutShardMap (Redis S) (q_Name queue) (published_shards (q_Shards queue)))) w))"

section \<open>Temporal namespaces\<close>

definition temporal_char :: "char \<Rightarrow> bool" where
  "temporal_char ch = (let n = (of_char ch :: int) in
     97 \<le> n \<and> n \<le> 122 \<or> 48 \<le> n \<and> n \<le> 57 \<or> ch = CHR ''_'' \<or> ch = CHR ''-'')"

definition isValidTemporalNamespace :: "string \<Rightarrow> bool" where
  "isValidTemporalNamespace namespace =
     (if namespace = '''' \<or> 255 < length namespace then False else list_all temporal_char namespace)"

text \<open>
  \<^verbatim>\<open>%q\<close> of an ASCII character; the names checked here are built from an accepted namespace and
  are ASCII.
\<close>

definition quote_rune :: "char \<Rightarrow> string" where
  "quote_rune c = [CHR 0x27] @ (if c = CHR 0x27 then [CHR 0x5C, c] else if c = CHR 0x22 then [c] else quote_byte c) @ [CHR 0x27]"

fun validate_chars :: "nat \<Rightarrow> nat \<Rightarrow> string \<Rightarrow> unit res" where
  "validate_chars len i [] = Inr ()"
| "validate_chars len i (ch # cs) =
     (let n = (of_char ch :: int);
          isLower = (97 \<le> n \<and> n \<le> 122); isDigit = (48 \<le> n \<and> n \<le> 57); isHyphen = (ch = CHR ''-'') in
      if \<not> (isLower \<or> isDigit \<or> isHyphen) then
        Inl (ErrText (''name contains invalid character '' @ quote_rune ch @ '' at position '' @ FormatInt (int i)))
      else if i = 0 \<and> (isHyphen \<or> isDigit) then Inl (ErrText ''name must start with lowercase letter'')
      else if i = len - 1 \<and> isHyphen then Inl (ErrText ''name must end with lowercase letter or digit'')
      else validate_chars len (Suc i) cs)"

definition validateKubernetesName :: "string \<Rightarrow> unit res" where
  "validateKubernetesName name =
     (if name = '''' \<or> 253 < length name then Inl (ErrText ''name length must be 1-253 characters'')
      else validate_chars (length name) 0 name)"

definition defaultRetentionPeriod :: duration where
  "defaultRetentionPeriod = 72 * 60 * Minute"

definition RegisterNamespace ::
  "('s, 'k, 'g, 'c) QueueReconciler \<Rightarrow> string \<Rightarrow>
    ('s, 'k, 'g, 'c) op_world \<Rightarrow> unit res \<times> ('s, 'k, 'g, 'c) op_world" where
  "RegisterNamespace R namespace w =
     (case kube_do R (\<lambda>K c. RegisterNamespaceRPC K c namespace defaultRetentionPeriod) w of (reply, w) \<Rightarrow>
       (case reply of
          RpcFailed e \<Rightarrow> Inl (wrapf (''register temporal namespace '' @ namespace) e)
        | _ \<Rightarrow> Inr (), w))"

definition getEnvOrDefault :: "('s, 'k, 'g, 'c) QueueReconciler \<Rightarrow> string \<Rightarrow> string \<Rightarrow> string" where
  "getEnvOrDefault R key def = (let v = qr_Getenv R key in if v \<noteq> '''' then v else def)"

definition temporal_namespace :: "Queue \<Rightarrow> string" where
  "temporal_namespace queue =
     (case om_Labels (q_Meta queue) of None \<Rightarrow> '''' | Some labels \<Rightarrow> map_field labels ''temporal.io/namespace'')"

definition worker_object :: "('s, 'k, 'g, 'c) QueueReconciler \<Rightarrow> string \<Rightarrow> TemporalWorker" where
  "worker_object R namespace =
     new_TemporalWorker (''worker-'' @ namespace) (getEnvOrDefault R ''KMSVC_TEMPORAL_NAMESPACE'' ''temporal'')"

definition fill_worker :: "string \<Rightarrow> string \<Rightarrow> TemporalWorker \<Rightarrow> TemporalWorker" where
  "fill_worker namespace img worker = worker\<lparr>tw_Spec := (tw_Spec worker)\<lparr>
     tws_Namespace := namespace, tws_Image := img, tws_Replicas := Some 1\<rparr>\<rparr>"

definition reconcileTemporalWorker ::
  "('s, 'k, 'g, 'c) QueueReconciler \<Rightarrow> Queue \<Rightarrow>
    ('s, 'k, 'g, 'c) op_world \<Rightarrow> unit res \<times> ('s, 'k, 'g, 'c) op_world" where
  "reconcileTemporalWorker R queue w =
     (let namespace = temporal_namespace queue; workerName = ''worker-'' @ namespace in
      if namespace = '''' then (Inr (), w)
      else if \<not> isValidTemporalNamespace namespace then
        (Inl (ErrText (''invalid temporal namespace label '' @ Quote namespace @ '': must be lowercase alphanumeric and hyphens'')), w)
      else case validateKubernetesName workerName of
        Inl e \<Rightarrow> (Inl (wrapf (''invalid kubernetes name '' @ Quote workerName) e), w)
      | Inr _ \<Rightarrow>
          on_ok (RegisterNamespace R namespace w) (wrapf (''register temporal namespace '' @ namespace)) (\<lambda>_ w.
            let workerImage = getEnvOrDefault R ''KMSVC_TEMPORAL_WORKER_IMAGE'' ''story-crater-backend:latest'' in
            on_ok (kube_do R (\<lambda>K c. CreateOrUpdateWorker K c (worker_object R namespace)
                      (\<lambda>worker. Inr (fill_worker namespace workerImage worker))) w)
              (wrapf (''create or update TemporalWorker '' @ workerName)) (\<lambda>_ w. (Inr (), w))))"

section \<open>Deletion\<close>

fun delete_topics ::
  "('s, 'k, 'g, 'c) QueueReconciler \<Rightarrow> ShardStatus list \<Rightarrow>
    ('s, 'k, 'g, 'c) op_world \<Rightarrow> unit res \<times> ('s, 'k, 'g, 'c) op_world" where
  "delete_topics R [] w = (Inr (), w)"
| "delete_topics R (s # ss) w =
     (if ss_Phase s = ShardPhaseClosed then delete_topics R ss w
      else on_ok (admin_do R (\<lambda>K. DeleteTopic K (ss_Topic s)) w) (wrapf (''delete topic '' @ ss_Topic s))
        (\<lambda>_ w. delete_topics R ss w))"

definition delete_worker ::
  "('s, 'k, 'g, 'c) QueueReconciler \<Rightarrow> Queue \<Rightarrow>
    ('s, 'k, 'g, 'c) op_world \<Rightarrow> unit res \<times> ('s, 'k, 'g, 'c) op_world" where
  "delete_worker R queue w =
     (let namespace = temporal_namespace queue in
      if namespace = '''' then (Inr (), w)
      else on_ok (kube_do R (\<lambda>K c. DeleteWorker K c (worker_object R namespace)) w)
        (wrapf (''delete TemporalWorker worker-'' @ namespace)) (\<lambda>_ w. (Inr (), w)))"

definition with_finalizers :: "Queue \<Rightarrow> string list \<Rightarrow> Queue" where
  "with_finalizers queue fs = queue\<lparr>q_Meta := (q_Meta queue)\<lparr>om_Finalizers := fs\<rparr>\<rparr>"

definition reconcileDelete ::
  "('s, 'k, 'g, 'c) QueueReconciler \<Rightarrow> Queue \<Rightarrow>
    ('s, 'k, 'g, 'c) op_world \<Rightarrow> unit res \<times> ('s, 'k, 'g, 'c) op_world" where
  "reconcileDelete R queue w =
     (let fs = om_Finalizers (q_Meta queue); Rd = Redis (qr_sys R) in
      if \<not> ContainsFinalizer (qr_Client R) fs finalizerName then (Inr (), w)
      else on_ok (delete_topics R (q_Shards queue) w) id (\<lambda>_ w.
        on_ok (plane_do (redis_do (DeleteQueueMeta Rd (q_Name queue))) w) id (\<lambda>_ w.
        on_ok (plane_do (redis_do (DeleteShardMap Rd (q_Name queue))) w) id (\<lambda>_ w.
        on_ok (delete_worker R queue w) id (\<lambda>_ w.
        on_ok (kube_do R (\<lambda>K c. UpdateQueue K c (with_finalizers queue (RemoveFinalizer K fs finalizerName))) w)
          (wrapf (''remove finalizer '' @ q_Name queue)) (\<lambda>_ w. (Inr (), w)))))))"

section \<open>Reconcile\<close>

definition or_fail ::
  "('s, 'k, 'g, 'c) QueueReconciler \<Rightarrow> Queue \<Rightarrow> string \<Rightarrow> 'a res \<times> ('s, 'k, 'g, 'c) op_world \<Rightarrow>
    ('a \<Rightarrow> ('s, 'k, 'g, 'c) op_world \<Rightarrow> unit res \<times> ('s, 'k, 'g, 'c) op_world) \<Rightarrow>
    unit res \<times> ('s, 'k, 'g, 'c) op_world" where
  "or_fail R queue reason m k =
     (case m of (r, w) \<Rightarrow> case r of Inl e \<Rightarrow> setFailed R queue reason e w | Inr v \<Rightarrow> k v w)"

declare or_fail_def [code_unfold]

definition ensure_finalizer ::
  "('s, 'k, 'g, 'c) QueueReconciler \<Rightarrow> Queue \<Rightarrow>
    ('s, 'k, 'g, 'c) op_world \<Rightarrow> Queue res \<times> ('s, 'k, 'g, 'c) op_world" where
  "ensure_finalizer R queue w =
     (let fs = om_Finalizers (q_Meta queue) in
      if ContainsFinalizer (qr_Client R) fs finalizerName then (Inr queue, w)
      else kube_do R (\<lambda>K c. UpdateQueue K c (with_finalizers queue (AddFinalizer K fs finalizerName))) w)"

definition first_shard ::
  "('s, 'k, 'g, 'c) QueueReconciler \<Rightarrow> Queue \<Rightarrow>
    ('s, 'k, 'g, 'c) op_world \<Rightarrow> Queue \<times> ('s, 'k, 'g, 'c) op_world" where
  "first_shard R queue w =
     (if q_Shards queue = [] then
        case newShard R ''0'' '''' 0 FullHashRangeEnd queue w of (s, w) \<Rightarrow> (with_shards queue [s], w)
      else (queue, w))"

text \<open>From the publication on, the status no longer changes but for its phase.\<close>

definition finish_reconcile ::
  "('s, 'k, 'g, 'c) QueueReconciler \<Rightarrow> string \<Rightarrow> Queue \<Rightarrow>
    ('s, 'k, 'g, 'c) op_world \<Rightarrow> unit res \<times> ('s, 'k, 'g, 'c) op_world" where
  "finish_reconcile R name queue w =
     or_fail R queue ''PublishRedis'' (publishRedisState R queue w) (\<lambda>_ w.
     or_fail R queue ''TemporalWorker'' (reconcileTemporalWorker R queue w) (\<lambda>_ w.
     on_ok (kube_do R (\<lambda>K c. UpdateQueueStatus K c (with_phase queue QueuePhaseReady)) w)
       (wrapf (''update status '' @ name)) (\<lambda>_ w. (Inr (), w))))"

definition reconcile_shards ::
  "('s, 'k, 'g, 'c) QueueReconciler \<Rightarrow> string \<Rightarrow> Queue \<Rightarrow>
    ('s, 'k, 'g, 'c) op_world \<Rightarrow> unit res \<times> ('s, 'k, 'g, 'c) op_world" where
  "reconcile_shards R name queue w =
     (case first_shard R queue w of (queue, w) \<Rightarrow>
      or_fail R queue ''EnsureTopics'' (ensureShardTopics R queue w) (\<lambda>_ w.
      case annotateAvailabilityZones R queue w of (queue, w) \<Rightarrow>
      case reconcileSplits R queue w of ((r, queue), w) \<Rightarrow>
      or_fail R queue ''ShardSplit'' (r, w) (\<lambda>_ w.
      or_fail R queue ''ShardDrain'' (reconcileDrains R queue w) (\<lambda>queue w.
      finish_reconcile R name queue w))))"

definition deleting :: "Queue \<Rightarrow> bool" where
  "deleting queue = (case om_DeletionTimestamp (q_Meta queue) of None \<Rightarrow> False | Some t \<Rightarrow> t \<noteq> zero_time)"

definition Reconcile ::
  "('s, 'k, 'g, 'c) QueueReconciler \<Rightarrow> string \<Rightarrow> string \<Rightarrow>
    ('s, 'k, 'g, 'c) op_world \<Rightarrow> unit res \<times> ('s, 'k, 'g, 'c) op_world" where
  "Reconcile R namespace name w =
     on_ok (kube_do R (\<lambda>K c. GetQueue K c namespace name) w) (wrapf (''get queue '' @ namespace @ ''/'' @ name))
       (\<lambda>r w. case r of
          None \<Rightarrow> (Inr (), w)
        | Some queue \<Rightarrow>
            if deleting queue then reconcileDelete R queue w
            else or_fail R queue ''DLQCycle''
              (ValidateNoDLQCycle (q_Name queue) (qs_IsDLQ (q_Spec queue)) (qs_DeadLetterTargetQueue (q_Spec queue)), w)
              (\<lambda>_ w. on_ok (ensure_finalizer R queue w) (wrapf (''add finalizer '' @ name))
                (\<lambda>queue w. reconcile_shards R name queue w)))"

section \<open>What a step leaves alone\<close>

text \<open>
  Up to the publication no step writes to Redis or to the stored queues: Kafka calls, clock
  readings and the reads of pods and nodes only.
\<close>

definition same_stores :: "('c \<Rightarrow> 'q) \<Rightarrow> ('s, 'k, 'g, 'c) op_world \<Rightarrow> ('s, 'k, 'g, 'c) op_world \<Rightarrow> bool" where
  "same_stores queues w w' = (w_redis (o_world w') = w_redis (o_world w) \<and> queues (o_kube w') = queues (o_kube w))"

lemma same_refl [simp]: "same_stores queues w w"
  by (simp add: same_stores_def)

lemma same_trans: "same_stores queues w w1 \<Longrightarrow> same_stores queues w1 w2 \<Longrightarrow> same_stores queues w w2"
  by (simp add: same_stores_def)

lemma same_samples [simp]:
  "same_stores queues w (w'\<lparr>o_sampleState := x\<rparr>) = same_stores queues w w'"
  "same_stores queues w (w'\<lparr>o_nodeZoneCache := y\<rparr>) = same_stores queues w w'"
  by (simp_all add: same_stores_def)

lemma admin_do_same: "admin_do R f w = (r, w') \<Longrightarrow> same_stores queues w w'"
  by (auto simp: admin_do_def plane_do_def kafka_do_def same_stores_def split: prod.splits)

lemma now_same: "reconciler_now R w = (t, w') \<Longrightarrow> same_stores queues w w'"
  by (auto simp: reconciler_now_def same_stores_def Let_def split: prod.splits)

lemma on_ok_same:
  assumes "on_ok m f k = (r, w')" and "same_stores queues w (snd m)"
    and "\<And>v w1 r'. m = (Inr v, w1) \<Longrightarrow> k v w1 = (r', w') \<Longrightarrow> same_stores queues w1 w'"
  shows "same_stores queues w w'"
proof (cases m)
  case (Pair a w1)
  with assms show ?thesis by (cases a) (auto intro: same_trans)
qed

lemma newShard_same: "newShard R sid p lo hi q w = (s, w') \<Longrightarrow> same_stores queues w w'"
  by (auto simp: newShard_def split: prod.splits dest: now_same)

lemma sample_shard_same:
  assumes "sample_shard R th s w = (r, w')" shows "same_stores queues w w'"
  using assms unfolding sample_shard_def
proof (rule on_ok_same)
  show "same_stores queues w (snd (admin_do R (\<lambda>K. LogEndOffsetSum K (ss_Topic s)) w))"
    by (metis admin_do_same prod.collapse)
qed (auto simp: Let_def split: prod.splits option.splits if_splits dest: now_same)

lemma split_due_same:
  assumes "split_due R th cd s w = (r, w')" shows "same_stores queues w w'"
  using assms unfolding split_due_def
  by (auto split: if_splits prod.splits dest: now_same sample_shard_same intro: same_trans)

lemma split_shard_same: "split_shard R q i now ss w = (ss', w') \<Longrightarrow> same_stores queues w w'"
  unfolding split_shard_def Let_def
  by (auto split: prod.splits dest!: newShard_same intro: same_trans)

lemma split_loop_same:
  "split_loop R q mx th cd is ss n w = (r, w') \<Longrightarrow> same_stores queues w w'"
proof (induction "is" arbitrary: ss n w)
  case (Cons i "is")
  show ?case
  proof (cases "split_due R th cd (ss ! i) w")
    case (Pair a w1)
    note due = split_due_same [OF Pair, of queues]
    have split: "same_stores queues w w'"
      if "split_shard R q i now ss w1 = (ss', w2)" "split_loop R q mx th cd is ss' (n + 1) w2 = (r, w')" for now ss' w2
      using due split_shard_same [OF that(1)] Cons.IH [OF that(2)] by (blast intro: same_trans)
    from Cons.prems due Pair split show ?thesis
      by (auto simp: Let_def split: if_splits sum.splits option.splits prod.splits intro: Cons.IH same_trans)
  qed
qed auto

lemma reconcileSplits_same: "reconcileSplits R q w = (r, w') \<Longrightarrow> same_stores queues w w'"
  by (auto simp: reconcileSplits_def Let_def split: if_splits prod.splits dest: split_loop_same)

lemma drain_loop_same: "drain_loop R grp ret ss w = (r, w') \<Longrightarrow> same_stores queues w w'"
proof (induction ss arbitrary: w r w')
  case (Cons s ss)
  have keep: "same_stores queues w1 w'"
    if "on_ok (drain_loop R grp ret ss w1) id (\<lambda>kept w. (Inr (s' # kept), w)) = (r1, w')" for s' w1 r1
    using that by (rule on_ok_same) (metis Cons.IH prod.collapse, auto)
  have lag: "same_stores queues w1 w'"
    if "(if 0 < lag then on_ok (drain_loop R grp ret ss w1) id (\<lambda>kept w. (Inr (s # kept), w))
        else case reconciler_now R w1 of (now, w) \<Rightarrow>
          if now < ss_CreatedAt s + ret then on_ok (drain_loop R grp ret ss w) id (\<lambda>kept w. (Inr (s # kept), w))
          else on_ok (admin_do R (\<lambda>K. DeleteTopic K (ss_Topic s)) w) (wrapf (''delete drained topic '' @ ss_Topic s))
            (\<lambda>_ w. on_ok (drain_loop R grp ret ss w) id (\<lambda>kept w. (Inr (s\<lparr>ss_Phase := ShardPhaseClosed\<rparr> # kept), w)))) = (r1, w')"
    for lag :: int and w1 r1
  proof (cases "reconciler_now R w1")
    case (Pair now w2)
    note n = now_same [OF Pair, of queues]
    have "same_stores queues w2 w'"
      if "on_ok (admin_do R (\<lambda>K. DeleteTopic K (ss_Topic s)) w2) (wrapf (''delete drained topic '' @ ss_Topic s))
            (\<lambda>_ w. on_ok (drain_loop R grp ret ss w) id (\<lambda>kept w. (Inr (s\<lparr>ss_Phase := ShardPhaseClosed\<rparr> # kept), w))) = (r1, w')"
      using that by (rule on_ok_same) (auto intro: keep admin_do_same prod.collapse [symmetric])
    with that Pair n show ?thesis by (auto split: if_splits intro: keep same_trans)
  qed
  show ?case
  proof (cases "ss_Phase s = ShardPhaseClosing")
    case True
    with Cons.prems show ?thesis unfolding drain_loop.simps Let_def
      by (auto elim!: on_ok_same intro: lag admin_do_same prod.collapse [symmetric])
  qed (use Cons.prems in \<open>auto simp: Let_def intro: keep\<close>)
qed auto

lemma ensure_topics_same: "ensure_topics R cfg ss w = (r, w') \<Longrightarrow> same_stores queues w w'"
proof (induction ss arbitrary: w r w')
  case (Cons s ss)
  show ?case
  proof (cases "ss_Phase s = ShardPhaseClosed")
    case False
    with Cons.prems show ?thesis
      by (auto elim!: on_ok_same intro: Cons.IH admin_do_same prod.collapse [symmetric])
  qed (use Cons in auto)
qed auto

lemma delete_topics_same: "delete_topics R ss w = (r, w') \<Longrightarrow> same_stores queues w w'"
proof (induction ss arbitrary: w r w')
  case (Cons s ss)
  show ?case
  proof (cases "ss_Phase s = ShardPhaseClosed")
    case False
    with Cons.prems show ?thesis
      by (auto elim!: on_ok_same intro: Cons.IH admin_do_same prod.collapse [symmetric])
  qed (use Cons in auto)
qed auto

lemma first_shard_same: "first_shard R q w = (q', w') \<Longrightarrow> same_stores queues w w'"
  by (auto simp: first_shard_def split: if_splits prod.splits dest: newShard_same)

section \<open>The operator over its two stores\<close>

lemma setFailed_Inl: "setFailed R q reason e w \<noteq> (Inr v, w')"
  by (auto simp: setFailed_def elim!: on_okE)

lemma or_failE:
  assumes "or_fail R q reason m k = (Inr v, w')"
  obtains u w1 where "m = (Inr u, w1)" and "k u w1 = (Inr v, w')"
  using assms by (auto simp: or_fail_def setFailed_Inl split: prod.splits sum.splits)

lemma kube_doE:
  assumes "kube_do R f w = (r, w')"
  obtains c where "f (qr_Client R) (o_kube w) = (r, c)" and "w' = w\<lparr>o_kube := c\<rparr>"
  using assms by (auto simp: kube_do_def split: prod.splits)

text \<open>The status that is written belongs to the queue, and only its phase is added.\<close>

definition wrote_status ::
  "('c \<Rightarrow> string \<times> string \<rightharpoonup> Queue) \<Rightarrow> Queue \<Rightarrow> ('s, 'k, 'g, 'c) op_world \<Rightarrow> ('s, 'k, 'g, 'c) op_world \<Rightarrow> bool" where
  "wrote_status queues q w w' =
     (queues (o_kube w') = queues (o_kube w) \<or>
      (\<exists>q0 ph. queues (o_kube w) (queue_key q) = Some q0 \<and>
        queues (o_kube w') = (queues (o_kube w))(queue_key q \<mapsto> q0\<lparr>q_Status := q_Status (with_phase q ph)\<rparr>)))"

lemma wrote_status_same:
  "same_stores queues w w1 \<Longrightarrow> wrote_status queues q w1 w' \<Longrightarrow> wrote_status queues q w w'"
  by (simp add: wrote_status_def same_stores_def)

context kube_store begin

lemma nodeNameForBroker_same:
  assumes "qr_Client R = K" and "nodeNameForBroker R z i w = (r, w')" shows "same_stores queues w w'"
proof (cases "GetPodNodeName K (o_kube w) (zl_Namespace z) (pod_name z i)")
  case (Pair a c)
  with assms worker_frame(3) [of "o_kube w" "zl_Namespace z" "pod_name z i"] show ?thesis
    by (cases a) (auto simp: nodeNameForBroker_def kube_do_def Let_def same_stores_def)
qed

lemma zoneForNode_same:
  assumes "qr_Client R = K" and "zoneForNode R n w = (r, w')" shows "same_stores queues w w'"
proof (cases "GetNodeLabels K (o_kube w) n")
  case (Pair a c)
  with assms worker_frame(4) [of "o_kube w" n] show ?thesis
    by (cases a) (auto simp: zoneForNode_def kube_do_def Let_def same_stores_def split: option.splits)
qed

lemma zones_loop_same:
  assumes "qr_Client R = K" shows "zones_loop R z is zones w = (r, w') \<Longrightarrow> same_stores queues w w'"
proof (induction "is" arbitrary: zones w)
  case (Cons i "is")
  obtain node w1 where n: "nodeNameForBroker R z i w = (node, w1)" by fastforce
  note s1 = nodeNameForBroker_same [OF assms n]
  have skip: "same_stores queues w w'" if "zones_loop R z is zs w1 = (r, w')" for zs
    using s1 Cons.IH [OF that] by (rule same_trans)
  have zone: "same_stores queues w w'"
    if "zoneForNode R nn w1 = (a, w2)" "zones_loop R z is zs w2 = (r, w')" for nn a w2 zs
    using s1 zoneForNode_same [OF assms that(1)] Cons.IH [OF that(2)] by (blast intro: same_trans)
  from Cons.prems n show ?case
    by (auto split: sum.splits if_splits prod.splits intro: skip zone)
qed auto

lemma annotate_shard_same:
  assumes "qr_Client R = K" and "annotate_shard R z s w = (s', w')"
  shows "same_stores queues w w' \<and> (\<exists>zones. s' = s \<or> s' = s\<lparr>ss_AvailabilityZones := zones\<rparr>)"
proof -
  obtain ids w1 where a: "admin_do R (\<lambda>K. ReplicaBrokerIDs K (ss_Topic s)) w = (ids, w1)" by fastforce
  note s1 = admin_do_same [OF a, of queues]
  have "same_stores queues w w2" if "ZonesForBrokers R z b w1 = (r, w2)" for b r w2
    using that s1 by (auto simp: ZonesForBrokers_def split: prod.splits dest: zones_loop_same [OF assms(1)] intro: same_trans)
  with assms(2) a s1 show ?thesis
    unfolding annotate_shard_def by (auto split: if_splits sum.splits prod.splits)
qed

lemma annotate_loop_same:
  assumes "qr_Client R = K"
  shows "annotate_loop R z ss w = (ss', w') \<Longrightarrow>
    same_stores queues w w' \<and> shard_steps name fifo (pre @ ss) (pre @ ss')"
proof (induction ss arbitrary: w ss' pre)
  case (Cons s ss)
  from Cons.prems obtain s1 w1 ss1 where a: "annotate_shard R z s w = (s1, w1)"
    and l: "annotate_loop R z ss w1 = (ss1, w')" and e: "ss' = s1 # ss1"
    by (auto split: prod.splits)
  have "shard_steps name fifo (pre @ s # ss) (pre @ s1 # ss)"
    using annotate_shard_same [OF assms a] annotate_step [of name fifo pre s ss] by auto
  moreover have "shard_steps name fifo ((pre @ [s1]) @ ss) ((pre @ [s1]) @ ss1)"
    using Cons.IH [OF l, of "pre @ [s1]"] by blast
  ultimately have "shard_steps name fifo (pre @ s # ss) (pre @ ss')" unfolding e by auto
  moreover have "same_stores queues w w'"
    using annotate_shard_same [OF assms a] Cons.IH [OF l, of pre] by (blast intro: same_trans)
  ultimately show ?case by simp
qed auto

lemma annotate_same:
  assumes "qr_Client R = K" and "annotateAvailabilityZones R q w = (q', w')"
  shows "same_stores queues w w' \<and> shard_steps name fifo (q_Shards q) (q_Shards q') \<and> q' = with_shards q (q_Shards q')"
  using assms(2) annotate_loop_same [OF assms(1), where pre = "[]"]
  by (fastforce simp: annotateAvailabilityZones_def split: option.splits prod.splits)

lemma status_wrote:
  assumes "qr_Client R = K" and "kube_do R (\<lambda>K c. UpdateQueueStatus K c (with_phase q ph)) w = (r, w')"
  shows "wrote_status queues q w w' \<and> w_redis (o_world w') = w_redis (o_world w)"
  using assms(2)
proof (rule kube_doE)
  fix c assume u: "UpdateQueueStatus (qr_Client R) (o_kube w) (with_phase q ph) = (r, c)" and w': "w' = w\<lparr>o_kube := c\<rparr>"
  show ?thesis
  proof (cases r)
    case (Inl e)
    then show ?thesis using update_status_error u w' assms(1) by (simp add: wrote_status_def)
  next
    case (Inr q')
    then show ?thesis using update_status [of "o_kube w" "with_phase q ph" q' c] u w' assms(1)
      by (auto simp: wrote_status_def)
  qed
qed

lemma setFailed_wrote:
  assumes "qr_Client R = K" and "setFailed R q reason e w = (r, w')"
  shows "wrote_status queues q w w'"
proof -
  obtain a w1 where u: "kube_do R (\<lambda>K c. UpdateQueueStatus K c (with_phase q QueuePhaseFailed)) w = (a, w1)" by fastforce
  then have "w' = w1" using assms(2) by (cases a) (auto simp: setFailed_def)
  then show ?thesis using status_wrote [OF assms(1) u] by simp
qed

lemma reconcileTemporalWorker_frame:
  assumes "qr_Client R = K" and "reconcileTemporalWorker R q w = (r, w')"
  shows "same_stores queues w w'"
proof -
  let ?ns = "temporal_namespace q"
  have reg: "same_stores queues w w1" if "RegisterNamespace R ?ns w = (a, w1)" for a w1
    using that assms(1) worker_frame(5) [of "o_kube w" ?ns defaultRetentionPeriod]
    by (auto simp: RegisterNamespace_def kube_do_def same_stores_def split: prod.splits)
  have put: "same_stores queues w1 w2"
    if "kube_do R (\<lambda>K c. CreateOrUpdateWorker K c t f) w1 = (a, w2)" for a w1 w2 t f
    using that assms(1) worker_frame(1) [of "o_kube w1" t f] by (auto simp: kube_do_def same_stores_def split: prod.splits)
  have create: "same_stores queues w w2"
    if "RegisterNamespace R ?ns w = (Inr u, w1)" and "on_ok (kube_do R (\<lambda>K c. CreateOrUpdateWorker K c t f) w1) g (\<lambda>_ w. (Inr (), w)) = (a, w2)"
    for u w1 w2 t f g a
    using reg [OF that(1)] that(2) put by (cases "kube_do R (\<lambda>K c. CreateOrUpdateWorker K c t f) w1") (auto simp: on_ok_def split: sum.splits intro: same_trans)
  obtain a w1 where r: "RegisterNamespace R ?ns w = (a, w1)" by fastforce
  from assms(2) r reg [OF r] create show ?thesis
    unfolding reconcileTemporalWorker_def Let_def
    by (cases a) (auto split: if_splits sum.splits)
qed

end

section \<open>One reconcile on the stored queue\<close>

text \<open>
  \<open>status_inv\<close> is what the operator keeps true of every stored queue: no shards yet, or a
  well-formed list. \<open>opened\<close> is the list a reconcile starts from.
\<close>

definition status_inv :: "Queue \<Rightarrow> bool" where
  "status_inv q = (q_Shards q = [] \<or> shards_wf (q_Name q) (qs_FIFOQueue (q_Spec q)) (q_Shards q))"

definition opened :: "Queue \<Rightarrow> ShardStatus list \<Rightarrow> bool" where
  "opened q ss = (shards_wf (q_Name q) (qs_FIFOQueue (q_Spec q)) ss \<and>
     (ss = q_Shards q \<or> q_Shards q = [] \<and> length ss = 1))"

abbreviation queue_steps :: "Queue \<Rightarrow> ShardStatus list \<Rightarrow> ShardStatus list \<Rightarrow> bool" where
  "queue_steps q \<equiv> shard_steps (q_Name q) (qs_FIFOQueue (q_Spec q))"

definition grown :: "Queue \<Rightarrow> Queue \<Rightarrow> bool" where
  "grown q q' = (q_Spec q' = q_Spec q \<and> queue_key q' = queue_key q \<and>
     (q_Shards q' = q_Shards q \<or> (\<exists>ss. opened q ss \<and> queue_steps q ss (q_Shards q'))))"

lemma first_shard_opened:
  assumes "status_inv q" and "first_shard R q w = (q', w')"
  shows "opened q (q_Shards q') \<and> q' = with_shards q (q_Shards q')"
  using assms shards_wf_initial
  by (auto simp: first_shard_def opened_def status_inv_def split: if_splits prod.splits)

lemma grown_inv: "grown q q' \<Longrightarrow> status_inv q \<Longrightarrow> status_inv q'"
  by (auto simp: grown_def status_inv_def opened_def intro: shard_steps_wf)

lemma grown_later:
  assumes "grown q q'"
  shows "length (q_Shards q) \<le> length (q_Shards q') \<and> (\<forall>i < length (q_Shards q). later (q_Shards q ! i) (q_Shards q' ! i))"
proof (cases "q_Shards q' = q_Shards q")
  case False
  with assms obtain ss where "opened q ss" "queue_steps q ss (q_Shards q')" by (auto simp: grown_def)
  with shard_steps_later [OF this(2)] show ?thesis by (auto simp: opened_def)
qed simp

lemma annotate_length:
  assumes "annotateAvailabilityZones R q w = (q', w')" shows "length (q_Shards q') = length (q_Shards q)"
proof -
  have "annotate_loop R z ss w = (ss', w') \<Longrightarrow> length ss' = length ss" for z ss w ss' w'
    by (induction ss arbitrary: w ss' w') (auto split: prod.splits)
  with assms show ?thesis by (auto simp: annotateAvailabilityZones_def split: option.splits prod.splits)
qed

lemma reconcileDrains_same: "reconcileDrains R q w = (r, w') \<Longrightarrow> same_stores queues w w'"
  by (cases "drain_loop R (ConsumerGroup (q_Name q)) (secondsToDuration (qs_MessageRetentionPeriodSeconds (q_Spec q))) (q_Shards q) w")
    (auto simp: reconcileDrains_def on_ok_def split: sum.splits dest: drain_loop_same)

lemma plane_do_kube: "plane_do f w = (r, w') \<Longrightarrow> o_kube w' = o_kube w"
  by (auto simp: plane_do_def split: prod.splits)

lemma publish_kube: "publishRedisState R q w = (r, w') \<Longrightarrow> o_kube w' = o_kube w"
  unfolding publishRedisState_def Let_def on_ok_unfold
  by (auto split: prod.splits sum.splits dest!: plane_do_kube)

context kube_store begin

lemma finish_wrote:
  assumes "qr_Client R = K" and "finish_reconcile R name q w = (r, w')"
  shows "wrote_status queues q w w'"
proof -
  obtain a w1 where p: "publishRedisState R q w = (a, w1)" by fastforce
  obtain b w2 where t: "reconcileTemporalWorker R q w1 = (b, w2)" by fastforce
  obtain c w3 where u: "kube_do R (\<lambda>K c. UpdateQueueStatus K c (with_phase q QueuePhaseReady)) w2 = (c, w3)" by fastforce
  have k: "queues (o_kube w1) = queues (o_kube w)" using publish_kube [OF p] by simp
  have s: "queues (o_kube w2) = queues (o_kube w1)"
    using reconcileTemporalWorker_frame [OF assms(1) t] by (simp add: same_stores_def)
  have "wrote_status queues q w w'" if "wrote_status queues q w1 w' \<or> wrote_status queues q w2 w'"
    using that k s by (simp add: wrote_status_def)
  with assms(2) p t u status_wrote [OF assms(1) u] setFailed_wrote [OF assms(1)] show ?thesis
    unfolding finish_reconcile_def or_fail_def by (auto simp: on_ok_def split: sum.splits)
qed

lemma reconcile_shards_cases:
  assumes "qr_Client R = K" and "status_inv q" and "int (3 * Suc (length (q_Shards q))) < 2 ^ 62"
    and "reconcile_shards R name q w = (r, w')"
  shows "\<exists>ss q' w1. opened q ss \<and> queue_steps q ss (q_Shards q') \<and> q' = with_shards q (q_Shards q') \<and>
    same_stores queues w w1 \<and>
    ((\<exists>reason e. setFailed R q' reason e w1 = (r, w')) \<or> finish_reconcile R name q' w1 = (r, w'))"
proof -
  obtain q1 w1 where 1: "first_shard R q w = (q1, w1)" by fastforce
  obtain e2 w2 where 2: "ensureShardTopics R q1 w1 = (e2, w2)" by fastforce
  obtain q3 w3 where 3: "annotateAvailabilityZones R q1 w2 = (q3, w3)" by fastforce
  obtain e4 q4 w4 where 4: "reconcileSplits R q3 w3 = ((e4, q4), w4)" by (metis prod.collapse)
  obtain e5 w5 where 5: "reconcileDrains R q4 w4 = (e5, w5)" by fastforce
  note o1 = first_shard_opened [OF assms(2) 1]
  have n1: "q_Name q1 = q_Name q" "q_Spec q1 = q_Spec q" "q1 = with_shards q (q_Shards q1)"
    using o1 by (metis with_shards_simps)+
  note a3 = annotate_same [OF assms(1) 3, of "q_Name q" "qs_FIFOQueue (q_Spec q)"]
  have n3: "q_Name q3 = q_Name q" "q_Spec q3 = q_Spec q" "q3 = with_shards q (q_Shards q3)"
    using a3 n1 by (metis with_shards_simps)+
  have st3: "queue_steps q (q_Shards q1) (q_Shards q3)" using a3 by blast
  have wf3: "shards_wf (q_Name q3) (qs_FIFOQueue (q_Spec q3)) (q_Shards q3)"
    using shard_steps_wf [OF st3] o1 n3 by (simp add: opened_def)
  have len: "length (q_Shards q3) = length (q_Shards q1)"
    using 3 by (rule annotate_length)
  have "int (3 * length (q_Shards q3)) < 2 ^ 62" using len o1 assms(3) by (auto simp: opened_def)
  note s4 = reconcileSplits_steps [OF wf3 this 4]
  have st4: "queue_steps q (q_Shards q1) (q_Shards q4)" and n4: "q4 = with_shards q (q_Shards q4)"
    using s4 st3 n3 by (auto, metis with_shards_simps(5))
  have w4: "same_stores queues w w4"
    using first_shard_same [OF 1] ensure_topics_same [OF 2 [unfolded ensureShardTopics_def]] a3 reconcileSplits_same [OF 4]
    by (meson same_trans)
  have w2: "same_stores queues w w2"
    using first_shard_same [OF 1] ensure_topics_same [OF 2 [unfolded ensureShardTopics_def]] by (rule same_trans)
  have w5: "same_stores queues w w5"
    using w4 reconcileDrains_same [OF 5] by (rule same_trans)
  show ?thesis
  proof (cases e2)
    case (Inl e)
    then have "setFailed R q1 ''EnsureTopics'' e w2 = (r, w')"
      using assms(4) 1 2 by (simp add: reconcile_shards_def or_fail_def)
    with o1 n1 w2 show ?thesis by blast
  next
    case e2: (Inr _)
    show ?thesis
    proof (cases e4)
      case (Inl e)
      then have "setFailed R q4 ''ShardSplit'' e w4 = (r, w')"
        using assms(4) 1 2 3 4 e2 by (simp add: reconcile_shards_def or_fail_def)
      with o1 st4 n4 w4 show ?thesis by blast
    next
      case e4: (Inr _)
      show ?thesis
      proof (cases e5)
        case (Inl e)
        then have "setFailed R q4 ''ShardDrain'' e w5 = (r, w')"
          using assms(4) 1 2 3 4 5 e2 e4 by (simp add: reconcile_shards_def or_fail_def)
        with o1 st4 n4 w5 show ?thesis by blast
      next
        case (Inr q5)
        then have f: "finish_reconcile R name q5 w5 = (r, w')"
          using assms(4) 1 2 3 4 5 e2 e4 by (simp add: reconcile_shards_def or_fail_def)
        note d5 = reconcileDrains_steps [OF 5 [unfolded Inr]]
        have "queue_steps q (q_Shards q4) (q_Shards q5)" using drained_steps d5 by blast
        with st4 have "queue_steps q (q_Shards q1) (q_Shards q5)" by (rule rtranclp_trans)
        moreover have "q5 = with_shards q (q_Shards q5)" using d5 n4 by (metis with_shards_simps(5))
        ultimately show ?thesis using o1 f w5 by blast
      qed
    qed
  qed
qed

end

lemma with_finalizers_simps [simp]:
  "q_Spec (with_finalizers q fs) = q_Spec q" "q_Status (with_finalizers q fs) = q_Status q"
  "q_Name (with_finalizers q fs) = q_Name q" "om_Namespace (q_Meta (with_finalizers q fs)) = om_Namespace (q_Meta q)"
  "om_Finalizers (q_Meta (with_finalizers q fs)) = fs"
  "om_Labels (q_Meta (with_finalizers q fs)) = om_Labels (q_Meta q)"
  by (simp_all add: with_finalizers_def)

definition changed_in ::
  "('c \<Rightarrow> string \<times> string \<rightharpoonup> Queue) \<Rightarrow> ('s, 'k, 'g, 'c) op_world \<Rightarrow> ('s, 'k, 'g, 'c) op_world \<Rightarrow> Queue \<Rightarrow> bool" where
  "changed_in queues w w' q = (queues (o_kube w') = queues (o_kube w) \<or>
     (\<exists>v. queues (o_kube w') = (queues (o_kube w))(queue_key q := v) \<and> (\<forall>q'. v = Some q' \<longrightarrow> grown q q')))"

context kube_store begin

lemma changed_refl [simp]: "changed_in queues w w q"
  by (simp add: changed_in_def)

lemma wrote_changed:
  assumes "queues (o_kube w) (queue_key q) = Some q0" and "q_Spec q0 = q_Spec q" "queue_key q0 = queue_key q"
    and "wrote_status queues q' w w'" and "q' = with_shards q'' (q_Shards q')" "queue_key q'' = queue_key q"
    and "q_Shards q' = q_Shards q \<or> (\<exists>ss. opened q ss \<and> queue_steps q ss (q_Shards q'))"
  shows "changed_in queues w w' q"
proof -
  have k: "queue_key q' = queue_key q" using assms(5,6) by (metis with_shards_simps(2))
  show ?thesis
    using assms(1,2,3,7) assms(4)[unfolded wrote_status_def k]
    by (auto simp: changed_in_def grown_def with_phase_def)
qed

lemma reconcileDelete_changed:
  assumes "qr_Client R = K" and "queues (o_kube w) (queue_key q) = Some q" and "reconcileDelete R q w = (r, w')"
  shows "changed_in queues w w' q"
proof -
  have refl: "changed_in queues w w1 q" if "queues (o_kube w1) = queues (o_kube w)" for w1
    using that by (simp add: changed_in_def)
  have upd: "changed_in queues w w2 q"
    if e: "queues (o_kube w1) = queues (o_kube w)"
      and u: "kube_do R (\<lambda>K c. UpdateQueue K c (with_finalizers q (RemoveFinalizer K l fin))) w1 = (a, w2)" for w1 w2 l fin a
    using u
  proof (rule kube_doE)
    define fs where "fs = RemoveFinalizer (qr_Client R) l fin"
    fix c assume "UpdateQueue (qr_Client R) (o_kube w1) (with_finalizers q (RemoveFinalizer (qr_Client R) l fin)) = (a, c)"
      and w2: "w2 = w1\<lparr>o_kube := c\<rparr>"
    then have u: "UpdateQueue (qr_Client R) (o_kube w1) (with_finalizers q fs) = (a, c)" by (simp add: fs_def)
    show ?thesis
    proof (cases a)
      case (Inl e')
      then show ?thesis using update_queue_error u assms(1) e w2 by (simp add: changed_in_def)
    next
      case (Inr q')
      with update_queue [of "o_kube w1" "with_finalizers q fs" q' c] u assms(1,2) e
      have q': "q' = with_finalizers q fs" and c: "queues c = (queues (o_kube w))(queue_key q := stored_after_update q')"
        by auto
      have "\<forall>q''. stored_after_update q' = Some q'' \<longrightarrow> grown q q''"
        by (auto simp: q' stored_after_update_def grown_def)
      with c w2 show ?thesis unfolding changed_in_def by auto
    qed
  qed
  have t: "queues (o_kube w1) = queues (o_kube w)" if "delete_topics R (q_Shards q) w = (a, w1)" for a w1
    using delete_topics_same [OF that, of queues] by (simp add: same_stores_def)
  have d: "queues (o_kube w2) = queues (o_kube w1)" if "delete_worker R q w1 = (a, w2)" for a w1 w2
    using that assms(1) worker_frame(2) [of "o_kube w1" "worker_object R (temporal_namespace q)"]
    by (auto simp: delete_worker_def Let_def kube_do_def on_ok_def split: if_splits prod.splits sum.splits)
  show ?thesis
    using assms(3) unfolding reconcileDelete_def Let_def on_ok_unfold
    by (auto split: if_splits prod.splits sum.splits dest!: plane_do_kube t d intro: refl upd)
qed

lemma ensure_finalizer_stored:
  assumes "qr_Client R = K" and "queues (o_kube w) (queue_key q) = Some q" and "ensure_finalizer R q w = (Inr q1, w1)"
  shows "queues (o_kube w1) = (queues (o_kube w))(queue_key q \<mapsto> q1) \<and> q_Spec q1 = q_Spec q \<and> q_Status q1 = q_Status q \<and>
    queue_key q1 = queue_key q \<and> om_Labels (q_Meta q1) = om_Labels (q_Meta q) \<and> finalizerName \<in> set (om_Finalizers (q_Meta q1)) \<and>
    om_CreationTimestamp (q_Meta q1) = om_CreationTimestamp (q_Meta q) \<and> w_redis (o_world w1) = w_redis (o_world w)"
proof (cases "ContainsFinalizer K (om_Finalizers (q_Meta q)) finalizerName")
  case True
  then show ?thesis using assms contains_finalizer by (auto simp: ensure_finalizer_def)
next
  case False
  let ?q = "with_finalizers q (AddFinalizer K (om_Finalizers (q_Meta q)) finalizerName)"
  from False assms(3) obtain c where u: "UpdateQueue K (o_kube w) ?q = (Inr q1, c)" and w1: "w1 = w\<lparr>o_kube := c\<rparr>"
    by (auto simp: ensure_finalizer_def Let_def assms(1) elim!: kube_doE)
  have "set (om_Finalizers (q_Meta ?q)) = insert finalizerName (set (om_Finalizers (q_Meta q)))"
    using add_finalizer by simp
  then have "om_Finalizers (q_Meta ?q) \<noteq> []" "finalizerName \<in> set (om_Finalizers (q_Meta ?q))" by auto
  with update_queue [OF u] assms(2) w1 show ?thesis
    by (auto simp: stored_after_update_def with_finalizers_def)
qed

lemma ensure_finalizer_error:
  assumes "qr_Client R = K" and "ensure_finalizer R q w = (Inl e, w1)"
  shows "queues (o_kube w1) = queues (o_kube w)"
  using assms(2) by (auto simp: ensure_finalizer_def Let_def assms(1) split: if_splits elim!: kube_doE dest: update_queue_error)

lemma Reconcile_changed:
  assumes "qr_Client R = K" and "queues (o_kube w) (ns, n) = Some q" and "status_inv q"
    and "int (3 * Suc (length (q_Shards q))) < 2 ^ 62" and "Reconcile R ns n w = (r, w')"
  shows "changed_in queues w w' q"
proof -
  have key: "queue_key q = (ns, n)" by (rule stored_key [OF assms(2)])
  obtain g c0 where g: "GetQueue K (o_kube w) ns n = (g, c0)" by fastforce
  define w0 where "w0 = w\<lparr>o_kube := c0\<rparr>"
  have q0: "queues (o_kube w0) = queues (o_kube w)"
    using get_queue get_queue_error g by (cases g) (auto simp: w0_def)
  have lift: "changed_in queues w0 w' q \<Longrightarrow> changed_in queues w w' q" using q0 by (simp add: changed_in_def)
  have st0: "queues (o_kube w0) (queue_key q) = Some q" using q0 assms(2) key by simp
  show ?thesis
  proof (cases g)
    case (Inl e)
    then have "w' = w0" using assms(1,5) g by (auto simp: Reconcile_def kube_do_def w0_def)
    then show ?thesis using q0 by (simp add: changed_in_def)
  next
    case (Inr v)
    then have v: "v = Some q" using get_queue [of "o_kube w" ns n v c0] g assms(2) by simp
    have run: "(if deleting q then reconcileDelete R q w0
        else or_fail R q ''DLQCycle''
          (ValidateNoDLQCycle (q_Name q) (qs_IsDLQ (q_Spec q)) (qs_DeadLetterTargetQueue (q_Spec q)), w0)
          (\<lambda>_ w. on_ok (ensure_finalizer R q w) (wrapf (''add finalizer '' @ n)) (\<lambda>queue w. reconcile_shards R n queue w))) = (r, w')"
      using assms(1,5) g Inr v by (simp add: Reconcile_def kube_do_def w0_def cong: if_cong)
    have failed: "changed_in queues w0 w' q" if "setFailed R q reason e w0 = (r, w')" for reason e
      by (rule wrote_changed [OF st0 refl refl setFailed_wrote [OF assms(1) that], where q'' = q]) simp_all
    have live: "changed_in queues w0 w' q" if f: "ensure_finalizer R q w0 = (Inr q1, w1)" and s: "reconcile_shards R n q1 w1 = (r, w')" for q1 w1
    proof -
      note e = ensure_finalizer_stored [OF assms(1) st0 f]
      have i1: "status_inv q1" "int (3 * Suc (length (q_Shards q1))) < 2 ^ 62"
        using assms(3,4) e by (simp_all add: status_inv_def)
      obtain ss q2 w2 where c: "opened q1 ss" "queue_steps q1 ss (q_Shards q2)" "q2 = with_shards q1 (q_Shards q2)"
          "same_stores queues w1 w2"
          "(\<exists>reason e. setFailed R q2 reason e w2 = (r, w')) \<or> finish_reconcile R n q2 w2 = (r, w')"
        using reconcile_shards_cases [OF assms(1) i1 s] by blast
      have "wrote_status queues q2 w2 w'"
        using c(5) setFailed_wrote [OF assms(1)] finish_wrote [OF assms(1)] by blast
      then have wr: "wrote_status queues q2 w1 w'" by (rule wrote_status_same [OF c(4)])
      have "changed_in queues w1 w' q1"
        by (rule wrote_changed [OF _ refl refl wr c(3) refl]) (use e c(1,2) in auto)
      then show ?thesis using e by (auto simp: changed_in_def grown_def opened_def)
    qed
    have noupd: "changed_in queues w0 w1 q" if f: "ensure_finalizer R q w0 = (Inl e, w1)" for e w1
      using ensure_finalizer_error [OF assms(1) f] by (simp add: changed_in_def)
    show ?thesis
    proof (rule lift, cases "deleting q")
      case True
      then show "changed_in queues w0 w' q" using run reconcileDelete_changed [OF assms(1) st0] by simp
    next
      case False
      show "changed_in queues w0 w' q"
      proof (cases "ensure_finalizer R q w0")
        case (Pair a w1)
        with False run failed live noupd show ?thesis
          by (cases a) (auto simp: or_fail_def split: sum.splits)
      qed
    qed
  qed
qed

end

section \<open>Runs of the operator\<close>

text \<open>
  A run interleaves reconciles of any queues, successful or not, with edits by users of the
  API: queues are created without status and deleted, and any other part of a queue may
  change but its name, its status and its FIFO flag. The shard numbers stay within 64 bits
  as long as a list has fewer than \<open>2 ^ 60\<close> shards.
\<close>

definition user_edit ::
  "('c \<Rightarrow> string \<times> string \<rightharpoonup> Queue) \<Rightarrow> ('s, 'k, 'g, 'c) op_world \<Rightarrow> ('s, 'k, 'g, 'c) op_world \<Rightarrow> bool" where
  "user_edit queues w w' = (\<forall>key q'. queues (o_kube w') key = Some q' \<longrightarrow>
     q_Shards q' = [] \<or>
     (\<exists>q. queues (o_kube w) key = Some q \<and> q_Name q' = q_Name q \<and> q_Status q' = q_Status q \<and>
        qs_FIFOQueue (q_Spec q') = qs_FIFOQueue (q_Spec q)))"

definition few_shards :: "('c \<Rightarrow> string \<times> string \<rightharpoonup> Queue) \<Rightarrow> ('s, 'k, 'g, 'c) op_world \<Rightarrow> bool" where
  "few_shards queues w = (\<forall>key q. queues (o_kube w) key = Some q \<longrightarrow> int (length (q_Shards q)) < 2 ^ 60)"

inductive cluster_run ::
  "('s, 'k, 'g, 'c) QueueReconciler \<Rightarrow> ('c \<Rightarrow> string \<times> string \<rightharpoonup> Queue) \<Rightarrow>
    ('s, 'k, 'g, 'c) op_world \<Rightarrow> ('s, 'k, 'g, 'c) op_world \<Rightarrow> bool"
  for R queues w0 where
  Start: "cluster_run R queues w0 w0"
| Tick: "\<lbrakk>cluster_run R queues w0 w; few_shards queues w; Reconcile R ns n w = (r, w')\<rbrakk> \<Longrightarrow> cluster_run R queues w0 w'"
| Users: "\<lbrakk>cluster_run R queues w0 w; user_edit queues w w'\<rbrakk> \<Longrightarrow> cluster_run R queues w0 w'"

definition store_inv :: "('c \<Rightarrow> string \<times> string \<rightharpoonup> Queue) \<Rightarrow> ('s, 'k, 'g, 'c) op_world \<Rightarrow> bool" where
  "store_inv queues w = (\<forall>key q. queues (o_kube w) key = Some q \<longrightarrow> status_inv q)"

lemma store_inv_user: "user_edit queues w w' \<Longrightarrow> store_inv queues w \<Longrightarrow> store_inv queues w'"
  unfolding store_inv_def user_edit_def by (fastforce simp: status_inv_def)

context kube_store begin

lemma Reconcile_missing:
  assumes "qr_Client R = K" and "queues (o_kube w) (ns, n) = None" and "Reconcile R ns n w = (r, w')"
  shows "queues (o_kube w') = queues (o_kube w)"
proof -
  obtain g c0 where g: "GetQueue K (o_kube w) ns n = (g, c0)" by fastforce
  then have "w' = w\<lparr>o_kube := c0\<rparr>"
    using assms get_queue [of "o_kube w" ns n _ c0] by (cases g) (auto simp: Reconcile_def kube_do_def)
  then show ?thesis using g get_queue get_queue_error by (cases g) auto
qed

lemma Reconcile_inv:
  assumes "qr_Client R = K" and "store_inv queues w" and "few_shards queues w" and "Reconcile R ns n w = (r, w')"
  shows "store_inv queues w'"
proof (cases "queues (o_kube w) (ns, n)")
  case None
  then show ?thesis using Reconcile_missing [OF assms(1) None assms(4)] assms(2) by (simp add: store_inv_def)
next
  case (Some q)
  have i: "status_inv q" using assms(2) Some unfolding store_inv_def by blast
  have "int (length (q_Shards q)) < 2 ^ 60" using assms(3) Some unfolding few_shards_def by blast
  then have "int (3 * Suc (length (q_Shards q))) < 2 ^ 62" by simp
  from Reconcile_changed [OF assms(1) Some i this assms(4)] assms(2) i show ?thesis
    by (auto simp: changed_in_def store_inv_def intro: grown_inv split: if_splits)
qed

lemma cluster_run_inv:
  assumes "qr_Client R = K" and "cluster_run R queues w0 w" and "store_inv queues w0"
  shows "store_inv queues w"
  using assms(2)
proof (induction rule: cluster_run.induct)
  case (Tick w ns n r w')
  then show ?case using Reconcile_inv [OF assms(1)] by blast
qed (use assms(3) store_inv_user in blast)+

end

section \<open>Properties of the operator\<close>

lemma demo_store: "kube_store (qr_Client demo_reconciler) mem_queues"
  using mem_store.kube_store_axioms by (simp add: demo_reconciler_def)

lemma demo_busy_queue: "mem_queues (o_kube demo_busy) (''sqs'', ''orders'') = Some demo_queue"
  "mem_queues (o_kube demo_busy) key = (if key = (''sqs'', ''orders'') then Some demo_queue else None)"
  by (simp_all add: mem_queues_def demo_busy_def demo_queue_def)

definition demo_ready :: Queue where
  "demo_ready = with_shards demo_queue demo_halves"

text \<open>
  C1. The invariant of the control plane. However reconciles of all queues, with all their
  failures, and user edits interleave, every stored queue that has shards has a well-formed
  list: numbered without gaps, each shard on its own topic of this queue, and the ranges of
  the active shards tiling the key space, so that every routing key selects one active
  shard and no other active shard owns its hash.
\<close>

theorem cluster_run_routes:
  assumes "kube_store (qr_Client R) queues" and "cluster_run R queues w0 w" and "store_inv queues w0"
    and "queues (o_kube w) (ns, n) = Some q" and "q_Shards q \<noteq> []"
  shows "shards_wf n (qs_FIFOQueue (q_Spec q)) (q_Shards q) \<and>
    (\<exists>s \<in> set (ActiveShards (map status_shard (q_Shards q))).
       SelectShard (ActiveShards (map status_shard (q_Shards q))) key = Some s \<and>
       (\<forall>t \<in> set (ActiveShards (map status_shard (q_Shards q))). owns_hash (HashKey key) t \<longrightarrow> t = s))"
proof -
  have "store_inv queues w" by (rule kube_store.cluster_run_inv [OF assms(1) refl assms(2,3)])
  then have "status_inv q" using assms(4) unfolding store_inv_def by blast
  moreover have "q_Name q = n" using kube_store.stored_key [OF assms(1,4)] by simp
  ultimately have wf: "shards_wf n (qs_FIFOQueue (q_Spec q)) (q_Shards q)"
    using assms(5) by (simp add: status_inv_def)
  with SelectShard_tiles [of "ActiveShards (map status_shard (q_Shards q))" key] show ?thesis
    by (auto simp: shards_wf_def)
qed

theorem cluster_run_routes_witness:
  "mem_queues (o_kube (snd (Reconcile demo_reconciler ''sqs'' ''orders'' demo_busy))) (''sqs'', ''orders'') = Some demo_ready \<and>
   shards_wf ''orders'' True demo_halves"
proof -
  let ?w = "snd (Reconcile demo_reconciler ''sqs'' ''orders'' demo_busy)"
  have q: "mem_queues (o_kube ?w) (''sqs'', ''orders'') = Some demo_ready" by code_simp
  have few: "few_shards mem_queues demo_busy" by (simp add: few_shards_def demo_busy_queue demo_queue_sel)
  have run: "cluster_run demo_reconciler mem_queues demo_busy ?w"
    by (rule cluster_run.Tick [OF cluster_run.Start few prod.collapse [symmetric]])
  have inv: "store_inv mem_queues demo_busy"
    using demo_wf by (simp add: store_inv_def demo_busy_queue status_inv_def demo_queue_sel)
  have "q_Shards demo_ready = demo_halves" "qs_FIFOQueue (q_Spec demo_ready) = True" "q_Shards demo_ready \<noteq> []"
    by (simp_all add: demo_ready_def demo_queue_sel demo_halves_def)
  with cluster_run_routes [OF demo_store run inv q, of "''g''"] q show ?thesis by simp
qed

section \<open>What the message plane finds after a reconcile\<close>

lemma ascii_append [simp]: "ascii (a @ b) = (ascii a \<and> ascii b)"
  by (simp add: ascii_def)

lemma ascii_FormatInt [simp]: "ascii (FormatInt n)"
proof -
  have "(of_char c :: int) < 128" if "c \<in> set (FormatInt n)" for c
    using FormatInt_bytes [OF that] by (auto simp: is_digit_def)
  then show ?thesis by (simp add: ascii_def list_all_iff)
qed

lemma ascii_phases: "ascii ''Active''" "ascii ''Closing''" "ascii ''Closed''"
  by code_simp+

lemma ascii_ShardTopicName: "ascii name \<Longrightarrow> ascii sid \<Longrightarrow> ascii (ShardTopicName name fifo sid)"
proof -
  have "ascii topicPrefix" "ascii fifoSuffix" "ascii shardInfix" by code_simp+
  then show "ascii name \<Longrightarrow> ascii sid \<Longrightarrow> ascii (ShardTopicName name fifo sid)"
    by (simp add: ShardTopicName_def Let_def)
qed

lemma published_shards_ascii:
  assumes "shards_wf name fifo ss" and "ascii name" shows "list_all ascii_shard (published_shards ss)"
proof -
  have "ascii_shard (status_shard s)" if "s \<in> set ss" for s
  proof -
    from that obtain i where "i < length ss" "s = ss ! i" by (metis in_set_conv_nth)
    then have "shard_ok name fifo i s" using assms(1) by (simp add: shards_wf_def)
    then show ?thesis using assms(2) ascii_phases
      by (auto simp: shard_ok_def ascii_shard_def status_shard_def shard_phases intro: ascii_ShardTopicName)
  qed
  then show ?thesis by (simp add: published_shards_def list_all_iff)
qed

lemma ActiveShards_published: "ActiveShards (published_shards ss) = ActiveShards (map status_shard ss)"
  unfolding published_shards_def ActiveShards_def
  by (induction ss) (auto simp: status_shard_def shard_phases)

lemma published_route:
  assumes "shards_wf name fifo ss"
  shows "\<exists>s \<in> set ss. ss_Phase s = ShardPhaseActive \<and>
    SelectShard (ActiveShards (published_shards ss)) key = Some (status_shard s)"
proof -
  obtain t where t: "t \<in> set (ActiveShards (map status_shard ss))"
      "SelectShard (ActiveShards (map status_shard ss)) key = Some t"
    using SelectShard_tiles [of "ActiveShards (map status_shard ss)" key] assms by (auto simp: shards_wf_def)
  then obtain s where s: "s \<in> set ss" "t = status_shard s" "ss_Phase s = '''' \<or> ss_Phase s = ''Active''"
    by (auto simp: ActiveShards_def status_shard_def)
  obtain i where "i < length ss" "s = ss ! i" using s(1) by (metis in_set_conv_nth)
  then have "shard_ok name fifo i s" using assms by (simp add: shards_wf_def)
  then have "ss_Phase s = ShardPhaseActive" using s(3) by (auto simp: shard_ok_def shard_phases)
  with s t show ?thesis unfolding ActiveShards_published by blast
qed

lemma published_shards_nonempty: "shards_wf name fifo ss \<Longrightarrow> published_shards ss \<noteq> []"
  using published_route [of name fifo ss "''''"] by (auto simp: SelectShard_def)

locale queue_operator = redis_quiet "Redis (qr_sys R)" ks clock + kube_store "qr_Client R" queues
  for R :: "('s, 'k, 'g, 'c) QueueReconciler" and ks :: "'s \<Rightarrow> keyspace" and clock :: "'s \<Rightarrow> int"
    and queues :: "'c \<Rightarrow> string \<times> string \<rightharpoonup> Queue"
begin

abbreviation oks :: "('s, 'k, 'g, 'c) op_world \<Rightarrow> keyspace" where "oks w \<equiv> ks (w_redis (o_world w))"

lemma publish_ok:
  assumes "publishRedisState R q w = (Inr (), w')" and "shards_wf name fifo (q_Shards q)" and "ascii name"
    and "om_CreationTimestamp (q_Meta q) \<noteq> zero_time" and "meta_in_range (queue_meta q)"
    and "int_in_bits 64 (Unix (om_CreationTimestamp (q_Meta q)))" and "deadline (oks w (QueueMetaKey (q_Name q))) = None"
  shows "published (oks w') (q_Name q)
    ((queue_meta q)\<lparr>qm_CreatedAt := Unix (om_CreationTimestamp (q_Meta q)) * Second\<rparr>) (published_shards (q_Shards q))"
proof -
  have created: "qm_CreatedAt (queue_meta q) = om_CreationTimestamp (q_Meta q)" by (simp add: queue_meta_def Let_def)
  from assms(1,4) obtain s1 s2 where
    m: "PutQueueMeta (Redis (qr_sys R)) (q_Name q) (queue_meta q) 0 (w_redis (o_world w)) = (Inr (), s1)"
    and p: "PutShardMap (Redis (qr_sys R)) (q_Name q) (published_shards (q_Shards q)) s1 = (Inr (), s2)"
    and w': "w_redis (o_world w') = s2"
    unfolding publishRedisState_def Let_def created
    by (auto simp: plane_do_def redis_do_def split: prod.splits elim!: on_okE)
  obtain h where h: "ks s1 (QueueMetaKey (q_Name q)) = Some (RHash (hset_all (queue_meta_fields (queue_meta q) (om_CreationTimestamp (q_Meta q))) h), None)"
    using PutQueueMeta_stored [OF m assms(7)] assms(4) created by auto
  have s2: "ks s2 = (ks s1)(ShardMapKey (q_Name q) := Some (RStr (marshal_shards (published_shards (q_Shards q))), None))"
    using PutShardMap_ok [OF p] by simp
  have "hset_all (queue_meta_fields (queue_meta q) (om_CreationTimestamp (q_Meta q))) h \<noteq> []"
    by (rule hset_all_nonempty [OF _ queue_meta_fields_distinct]) (simp add: queue_meta_fields_def)
  then show ?thesis
    using h s2 decode_queue_meta_put [OF assms(5,6), of h] unmarshal_marshal [OF published_shards_ascii [OF assms(2,3)]]
      published_shards_nonempty [OF assms(2)]
    by (simp add: published_def w')
qed

end

end
