(* ===== verification/Operator_Effects.thy ===== *)
theory Operator_Effects
  imports Queue_Controller
begin

text \<open>
  What a completed reconcile has done to Redis, Kafka and the cluster: the published state
  and its agreement with the stored status, the effect of a deletion, the fate of the topics
  of drained shards, and the names of Temporal workers. \<open>topic_store\<close> is the contract of the
  Kafka administration calls these properties rest on.
\<close>

section \<open>Publication\<close>

context queue_operator begin

lemma finish_ok:
  assumes "finish_reconcile R name q w = (Inr (), w')"
  shows "\<exists>w1 w2. publishRedisState R q w = (Inr (), w1) \<and> reconcileTemporalWorker R q w1 = (Inr (), w2) \<and>
    w_redis (o_world w') = w_redis (o_world w1) \<and>
    (\<exists>q0. queues (o_kube w) (queue_key q) = Some q0 \<and>
      queues (o_kube w') = (queues (o_kube w))(queue_key q \<mapsto> q0\<lparr>q_Status := q_Status (with_phase q QueuePhaseReady)\<rparr>))"
proof -
  from assms obtain w1 w2 q' where p: "publishRedisState R q w = (Inr (), w1)"
    and t: "reconcileTemporalWorker R q w1 = (Inr (), w2)"
    and u: "kube_do R (\<lambda>K c. UpdateQueueStatus K c (with_phase q QueuePhaseReady)) w2 = (Inr q', w')"
    unfolding finish_reconcile_def by (elim or_failE on_okE) auto
  note s = reconcileTemporalWorker_frame [OF refl t]
  from u obtain c where c: "UpdateQueueStatus (qr_Client R) (o_kube w2) (with_phase q QueuePhaseReady) = (Inr q', c)"
      "w' = w2\<lparr>o_kube := c\<rparr>"
    by (rule kube_doE) blast
  have k: "queues (o_kube w2) = queues (o_kube w)"
    using s publish_kube [OF p] by (simp add: same_stores_def)
  show ?thesis
    using p t c update_status [OF c(1)] s k by (auto simp: same_stores_def)
qed

lemma Reconcile_live:
  assumes "Reconcile R ns n w = (Inr (), w')" and "queues (o_kube w) (ns, n) = Some q" and "\<not> deleting q"
  shows "\<exists>w0 q1 w1. queues (o_kube w0) = queues (o_kube w) \<and> w_redis (o_world w0) = w_redis (o_world w) \<and>
    ValidateNoDLQCycle (q_Name q) (qs_IsDLQ (q_Spec q)) (qs_DeadLetterTargetQueue (q_Spec q)) = Inr () \<and>
    ensure_finalizer R q w0 = (Inr q1, w1) \<and> reconcile_shards R n q1 w1 = (Inr (), w')"
proof -
  from assms(1) obtain v w0 where g: "kube_do R (\<lambda>K c. GetQueue K c ns n) w = (Inr v, w0)"
    and rest: "(case v of None \<Rightarrow> (Inr (), w0)
        | Some queue \<Rightarrow>
            if deleting queue then reconcileDelete R queue w0
            else or_fail R queue ''DLQCycle''
              (ValidateNoDLQCycle (q_Name queue) (qs_IsDLQ (q_Spec queue)) (qs_DeadLetterTargetQueue (q_Spec queue)), w0)
              (\<lambda>_ w. on_ok (ensure_finalizer R queue w) (wrapf (''add finalizer '' @ n))
                (\<lambda>queue w. reconcile_shards R n queue w))) = (Inr (), w')"
    unfolding Reconcile_def by (rule on_okE)
  from g obtain c where c: "GetQueue (qr_Client R) (o_kube w) ns n = (Inr v, c)" "w0 = w\<lparr>o_kube := c\<rparr>" by (rule kube_doE) blast
  from get_queue [OF c(1)] assms(2) have v: "v = Some q" and k: "queues (o_kube w0) = queues (o_kube w)"
    by (simp_all add: c(2))
  from rest v assms(3) have "or_fail R q ''DLQCycle''
      (ValidateNoDLQCycle (q_Name q) (qs_IsDLQ (q_Spec q)) (qs_DeadLetterTargetQueue (q_Spec q)), w0)
      (\<lambda>_ w. on_ok (ensure_finalizer R q w) (wrapf (''add finalizer '' @ n)) (\<lambda>queue w. reconcile_shards R n queue w)) = (Inr (), w')"
    by simp
  then obtain q1 w1 where "ValidateNoDLQCycle (q_Name q) (qs_IsDLQ (q_Spec q)) (qs_DeadLetterTargetQueue (q_Spec q)) = Inr ()"
      "ensure_finalizer R q w0 = (Inr q1, w1)" "reconcile_shards R n q1 w1 = (Inr (), w')"
    by (elim or_failE on_okE) auto
  moreover have "w_redis (o_world w0) = w_redis (o_world w)" by (simp add: c(2))
  ultimately show ?thesis using k by blast
qed

lemma Reconcile_ready:
  assumes "Reconcile R ns n w = (Inr (), w')" and "queues (o_kube w) (ns, n) = Some q" and "\<not> deleting q"
    and "status_inv q" and "int (length (q_Shards q)) < 2 ^ 60"
    and "ascii n" and "om_CreationTimestamp (q_Meta q) \<noteq> zero_time" and "meta_in_range (queue_meta q)"
    and "int_in_bits 64 (Unix (om_CreationTimestamp (q_Meta q)))" and "deadline (oks w (QueueMetaKey n)) = None"
  shows "\<exists>q'. queues (o_kube w') (ns, n) = Some q' \<and> grown q q' \<and> qst_Phase (q_Status q') = QueuePhaseReady \<and>
    finalizerName \<in> set (om_Finalizers (q_Meta q')) \<and> shards_wf n (qs_FIFOQueue (q_Spec q)) (q_Shards q') \<and>
    published (oks w') n ((queue_meta q)\<lparr>qm_CreatedAt := Unix (om_CreationTimestamp (q_Meta q)) * Second\<rparr>)
      (published_shards (q_Shards q'))"
proof -
  have key: "queue_key q = (ns, n)" by (rule stored_key [OF assms(2)])
  from Reconcile_live [OF assms(1-3)] obtain w0 q1 w1 where
    0: "queues (o_kube w0) = queues (o_kube w)" "w_redis (o_world w0) = w_redis (o_world w)"
    and 1: "ensure_finalizer R q w0 = (Inr q1, w1)" and 2: "reconcile_shards R n q1 w1 = (Inr (), w')" by blast
  have "queues (o_kube w0) (queue_key q) = Some q" using 0 assms(2) key by simp
  note f = ensure_finalizer_stored [OF refl this 1]
  have i1: "status_inv q1" "int (3 * Suc (length (q_Shards q1))) < 2 ^ 62"
    using assms(4,5) f by (simp_all add: status_inv_def)
  obtain ss q2 w2 where c: "opened q1 ss" "queue_steps q1 ss (q_Shards q2)" "q2 = with_shards q1 (q_Shards q2)"
      "same_stores queues w1 w2" and fin: "finish_reconcile R n q2 w2 = (Inr (), w')"
    using reconcile_shards_cases [OF refl i1 2] setFailed_Inl by metis
  have k2: "queue_key q2 = queue_key q" "q_Spec q2 = q_Spec q" "q_Meta q2 = q_Meta q1" "q_Name q2 = n"
    using c(3) f key by (metis with_shards_simps Pair_inject)+
  from finish_ok [OF fin] obtain w3 q0 where p: "publishRedisState R q2 w2 = (Inr (), w3)"
    and w': "w_redis (o_world w') = w_redis (o_world w3)" and q0: "queues (o_kube w2) (queue_key q2) = Some q0"
    and st: "queues (o_kube w') = (queues (o_kube w2))(queue_key q2 \<mapsto> q0\<lparr>q_Status := q_Status (with_phase q2 QueuePhaseReady)\<rparr>)"
    by blast
  have q0: "q0 = q1" using q0 c(4) f k2 by (simp add: same_stores_def)
  have wf: "shards_wf n (qs_FIFOQueue (q_Spec q)) (q_Shards q2)"
    using shard_steps_wf [OF c(2)] c(1) f key by (simp add: opened_def)
  have red: "oks w2 = oks w" using c(4) f 0 by (simp add: same_stores_def)
  have meta: "queue_meta q2 = queue_meta q" "om_CreationTimestamp (q_Meta q2) = om_CreationTimestamp (q_Meta q)"
    using k2 f by (simp_all add: queue_meta_def)
  have "published (oks w3) (q_Name q2) ((queue_meta q2)\<lparr>qm_CreatedAt := Unix (om_CreationTimestamp (q_Meta q2)) * Second\<rparr>)
      (published_shards (q_Shards q2))"
    by (rule publish_ok [OF p wf assms(6)]) (use assms(7-10) meta red k2 in simp_all)
  then have "published (oks w') n ((queue_meta q)\<lparr>qm_CreatedAt := Unix (om_CreationTimestamp (q_Meta q)) * Second\<rparr>)
      (published_shards (q_Shards q2))" using w' meta k2 by simp
  moreover have "grown q (q1\<lparr>q_Status := q_Status (with_phase q2 QueuePhaseReady)\<rparr>)"
    using c(1,2) f by (auto simp: grown_def opened_def)
  ultimately show ?thesis
    using st q0 k2 key f wf by (intro exI [of _ "q1\<lparr>q_Status := q_Status (with_phase q2 QueuePhaseReady)\<rparr>"]) simp
qed

end

interpretation op: queue_operator demo_reconciler mem_ks m_clock mem_queues
proof -
  have "Redis (qr_sys demo_reconciler) = mem_redis" by (simp add: demo_reconciler_def mem_sys_def)
  then show "queue_operator demo_reconciler mem_ks m_clock mem_queues"
    using mem.redis_quiet_axioms demo_store by (simp add: queue_operator_def)
qed

text \<open>
  C5. A successful reconcile of a live queue leaves the cluster, Redis and the message plane
  in agreement. The stored queue is ready, carries the finalizer, and its shard list has grown
  by steps of the life cycle to a well-formed one; Redis holds exactly its configuration and
  its shards that are not closed; and for every routing key the published map selects an
  active shard of the stored status.
\<close>

theorem Reconcile_publishes:
  assumes "queue_operator R ks clock queues"
    and "Reconcile R ns n w = (Inr (), w')" and "queues (o_kube w) (ns, n) = Some q" and "\<not> deleting q"
    and "status_inv q" and "int (length (q_Shards q)) < 2 ^ 60"
    and "ascii n" and "om_CreationTimestamp (q_Meta q) \<noteq> zero_time" and "meta_in_range (queue_meta q)"
    and "int_in_bits 64 (Unix (om_CreationTimestamp (q_Meta q)))"
    and "deadline (ks (w_redis (o_world w)) (QueueMetaKey n)) = None"
  shows "\<exists>q'. queues (o_kube w') (ns, n) = Some q' \<and> grown q q' \<and> qst_Phase (q_Status q') = QueuePhaseReady \<and>
    finalizerName \<in> set (om_Finalizers (q_Meta q')) \<and> shards_wf n (qs_FIFOQueue (q_Spec q)) (q_Shards q') \<and>
    published (ks (w_redis (o_world w'))) n
      ((queue_meta q)\<lparr>qm_CreatedAt := Unix (om_CreationTimestamp (q_Meta q)) * Second\<rparr>) (published_shards (q_Shards q')) \<and>
    (\<exists>s \<in> set (q_Shards q'). ss_Phase s = ShardPhaseActive \<and>
      SelectShard (ActiveShards (published_shards (q_Shards q'))) key = Some (status_shard s))"
  using queue_operator.Reconcile_ready [OF assms] published_route by blast

theorem Reconcile_publishes_witness:
  "fst (Reconcile demo_reconciler ''sqs'' ''orders'' demo_busy) = Inr () \<and>
   published (mem_ks (w_redis (o_world (snd (Reconcile demo_reconciler ''sqs'' ''orders'' demo_busy))))) ''orders''
     ((queue_meta demo_queue)\<lparr>qm_CreatedAt := Unix Second * Second\<rparr>) (published_shards demo_halves)"
proof -
  let ?w = "snd (Reconcile demo_reconciler ''sqs'' ''orders'' demo_busy)"
  have r: "fst (Reconcile demo_reconciler ''sqs'' ''orders'' demo_busy) = Inr ()" by code_simp
  have q: "mem_queues (o_kube ?w) (''sqs'', ''orders'') = Some demo_ready" by code_simp
  have h: "\<not> deleting demo_queue" "ascii ''orders''" "om_CreationTimestamp (q_Meta demo_queue) \<noteq> zero_time"
    "meta_in_range (queue_meta demo_queue)" "int_in_bits 64 (Unix (om_CreationTimestamp (q_Meta demo_queue)))"
    "deadline (mem_ks (w_redis (o_world demo_busy)) (QueueMetaKey ''orders'')) = None"
    "om_CreationTimestamp (q_Meta demo_queue) = Second" by code_simp+
  have i: "status_inv demo_queue" "int (length (q_Shards demo_queue)) < 2 ^ 60"
    using demo_wf by (simp_all add: status_inv_def demo_queue_sel)
  have "q_Shards demo_ready = demo_halves" by (simp add: demo_ready_def)
  with Reconcile_publishes [OF op.queue_operator_axioms, OF run_eqI [OF r] demo_busy_queue(1) h(1) i h(2-6)] q r h(7)
  show ?thesis by auto
qed

section \<open>Topics of drained and deleted shards\<close>

text \<open>The operator's clock is the process clock, as \<^verbatim>\<open>cmd/queue-operator\<close> sets it up.\<close>

definition process_clock :: "('s, 'k, 'g, 'c) QueueReconciler \<Rightarrow> bool" where
  "process_clock R = (qr_Now R = None \<or> qr_Now R = Some (Now (Env (qr_sys R))))"

abbreviation okafka :: "('s, 'k, 'g, 'c) op_world \<Rightarrow> 'k" where "okafka w \<equiv> w_kafka (o_world w)"

lemma admin_doE:
  assumes "admin_do R f w = (r, w')"
  obtains k where "f (Kafka (qr_sys R)) (okafka w) = (r, k)" and "w' = w\<lparr>o_world := (o_world w)\<lparr>w_kafka := k\<rparr>\<rparr>"
  using assms by (auto simp: admin_do_def plane_do_def kafka_do_def split: prod.splits)

lemma admin_do_parts:
  assumes "admin_do R f w = (r, w')"
  shows "f (Kafka (qr_sys R)) (okafka w) = (r, okafka w') \<and> w_env (o_world w') = w_env (o_world w)"
  using assms by (elim admin_doE) simp

definition closed :: "ShardStatus \<Rightarrow> ShardStatus" where
  "closed s = s\<lparr>ss_Phase := ShardPhaseClosed\<rparr>"

lemma closed_neq: "ss_Phase s = ShardPhaseClosing \<Longrightarrow> closed s \<noteq> s"
proof -
  have "ss_Phase (closed s) = ShardPhaseClosed" by (simp add: closed_def)
  then show "ss_Phase s = ShardPhaseClosing \<Longrightarrow> closed s \<noteq> s" by (auto simp: shard_phases)
qed

text \<open>
  The verdict on one shard, given its reported lag, the time before and after the pass and
  the retention: closed only if drained and old enough, and surely closed if it was old
  enough from the start.
\<close>

definition drain_verdict :: "int \<Rightarrow> time \<Rightarrow> time \<Rightarrow> duration \<Rightarrow> ShardStatus \<Rightarrow> ShardStatus \<Rightarrow> bool" where
  "drain_verdict l before after retention s s' =
     (if ss_Phase s \<noteq> ShardPhaseClosing then s' = s
      else (s' = s \<and> \<not> (l \<le> 0 \<and> ss_CreatedAt s + retention \<le> before)) \<or>
        (s' = closed s \<and> l \<le> 0 \<and> ss_CreatedAt s + retention \<le> after))"

lemma drain_verdict_mono:
  "drain_verdict l t0 t1 ret s s' \<Longrightarrow> u0 \<le> t0 \<Longrightarrow> t1 \<le> u1 \<Longrightarrow> drain_verdict l u0 u1 ret s s'"
  by (auto simp: drain_verdict_def)

definition closed_topics :: "ShardStatus list \<Rightarrow> ShardStatus list \<Rightarrow> string set" where
  "closed_topics ss ss' = {ss_Topic s |s s'. (s, s') \<in> set (zip ss ss') \<and> s' \<noteq> s}"

lemma closed_topics_Cons:
  "closed_topics (s # ss) (s' # ss') = (if s' = s then {} else {ss_Topic s}) \<union> closed_topics ss ss'"
  by (auto simp: closed_topics_def)

locale drain_view = topic_store "Kafka (qr_sys R)" topics lag + go_clock "Env (qr_sys R)" time_of
  for R :: "('s, 'k, 'g, 'c) QueueReconciler" and topics :: "'k \<Rightarrow> string set"
    and lag :: "'k \<Rightarrow> string \<Rightarrow> string \<Rightarrow> int" and time_of :: "'g \<Rightarrow> time" +
  assumes clock_is: "process_clock R"
begin

abbreviation otime :: "('s, 'k, 'g, 'c) op_world \<Rightarrow> time" where "otime w \<equiv> time_of (w_env (o_world w))"

lemma now_read:
  assumes "reconciler_now R w = (t, w')"
  shows "otime w \<le> t \<and> t \<le> otime w' \<and> okafka w' = okafka w"
proof -
  from assms clock_is obtain g where "Now (Env (qr_sys R)) (w_env (o_world w)) = (t, g)"
    and "w' = w\<lparr>o_world := (o_world w)\<lparr>w_env := g\<rparr>\<rparr>"
    by (auto simp: reconciler_now_def process_clock_def Let_def split: prod.splits)
  with now_reads show ?thesis by simp
qed

lemma drain_one:
  assumes "drain_loop R grp ret (s # ss) w = (Inr kept, w')"
  shows "\<exists>s' kept' w1. kept = s' # kept' \<and> drain_loop R grp ret ss w1 = (Inr kept', w') \<and>
    drain_verdict (lag (okafka w) grp (ss_Topic s)) (otime w) (otime w1) ret s s' \<and> otime w \<le> otime w1 \<and>
    topics (okafka w1) = topics (okafka w) - (if s' = s then {} else {ss_Topic s}) \<and>
    (\<forall>t. t \<noteq> ss_Topic s \<longrightarrow> lag (okafka w1) grp t = lag (okafka w) grp t)"
proof (cases "ss_Phase s = ShardPhaseClosing")
  case False
  with assms show ?thesis by (auto simp: Let_def drain_verdict_def elim!: on_okE)
next
  case True
  with assms obtain l w1 where a: "admin_do R (\<lambda>K. ConsumerLag K grp (ss_Topic s)) w = (Inr l, w1)"
    and rest: "(if 0 < l then on_ok (drain_loop R grp ret ss w1) id (\<lambda>kept w. (Inr (s # kept), w))
        else case reconciler_now R w1 of (now, w) \<Rightarrow>
          if now < ss_CreatedAt s + ret then on_ok (drain_loop R grp ret ss w) id (\<lambda>kept w. (Inr (s # kept), w))
          else on_ok (admin_do R (\<lambda>K. DeleteTopic K (ss_Topic s)) w) (wrapf (''delete drained topic '' @ ss_Topic s))
            (\<lambda>_ w. on_ok (drain_loop R grp ret ss w) id (\<lambda>kept w. (Inr (closed s # kept), w)))) = (Inr kept, w')"
    unfolding drain_loop.simps Let_def closed_def by (auto elim!: on_okE)
  have l: "l = lag (okafka w) grp (ss_Topic s)" "topics (okafka w1) = topics (okafka w)" "lag (okafka w1) = lag (okafka w)"
    "otime w1 = otime w"
    using admin_do_parts [OF a] ConsumerLag_reads [of grp "ss_Topic s" "okafka w" l "okafka w1"] by simp_all
  show ?thesis
  proof (cases "0 < l")
    case True
    with rest obtain kept' where "kept = s # kept'" "drain_loop R grp ret ss w1 = (Inr kept', w')" by (auto elim!: on_okE)
    with True l show ?thesis
      by (intro exI [of _ s] exI [of _ kept'] exI [of _ w1]) (auto simp: drain_verdict_def)
  next
    case False
    obtain now w2 where n: "reconciler_now R w1 = (now, w2)" by fastforce
    note r = now_read [OF n]
    show ?thesis
    proof (cases "now < ss_CreatedAt s + ret")
      case True
      with rest False n obtain kept' where "kept = s # kept'" "drain_loop R grp ret ss w2 = (Inr kept', w')"
        by (auto elim!: on_okE)
      with True r l show ?thesis
        by (intro exI [of _ s] exI [of _ kept'] exI [of _ w2]) (auto simp: drain_verdict_def)
    next
      case old: False
      with rest False n obtain w3 kept' where d: "admin_do R (\<lambda>K. DeleteTopic K (ss_Topic s)) w2 = (Inr (), w3)"
        and k: "kept = closed s # kept'" "drain_loop R grp ret ss w3 = (Inr kept', w')"
        by (auto elim!: on_okE)
      have "topics (okafka w3) = topics (okafka w2) - {ss_Topic s} \<and>
          (\<forall>g t'. t' \<noteq> ss_Topic s \<longrightarrow> lag (okafka w3) g t' = lag (okafka w2) g t')" "otime w3 = otime w2"
        using DeleteTopic_stored [of "ss_Topic s" "okafka w2" "okafka w3"] admin_do_parts [OF d] by simp_all
      then show ?thesis using k r l old False \<open>ss_Phase s = ShardPhaseClosing\<close> closed_neq
        by (intro exI [of _ "closed s"] exI [of _ kept'] exI [of _ w3]) (auto simp: drain_verdict_def)
    qed
  qed
qed

lemma drain_loop_verdicts:
  assumes "drain_loop R grp ret ss w = (Inr kept, w')" and "distinct (map ss_Topic ss)"
  shows "list_all2 (\<lambda>s s'. drain_verdict (lag (okafka w) grp (ss_Topic s)) (otime w) (otime w') ret s s') ss kept \<and>
    topics (okafka w') = topics (okafka w) - closed_topics ss kept \<and> otime w \<le> otime w'"
  using assms
proof (induction ss arbitrary: w kept)
  case Nil
  then show ?case by (simp add: closed_topics_def)
next
  case (Cons s ss)
  from drain_one [OF Cons.prems(1)] obtain s' kept' w1 where k: "kept = s' # kept'" "drain_loop R grp ret ss w1 = (Inr kept', w')"
    and v: "drain_verdict (lag (okafka w) grp (ss_Topic s)) (otime w) (otime w1) ret s s'" "otime w \<le> otime w1"
    and t: "topics (okafka w1) = topics (okafka w) - (if s' = s then {} else {ss_Topic s})"
    and l: "\<forall>t. t \<noteq> ss_Topic s \<longrightarrow> lag (okafka w1) grp t = lag (okafka w) grp t" by blast
  have IH: "list_all2 (\<lambda>s s'. drain_verdict (lag (okafka w1) grp (ss_Topic s)) (otime w1) (otime w') ret s s') ss kept'"
    "topics (okafka w') = topics (okafka w1) - closed_topics ss kept'" "otime w1 \<le> otime w'"
    using Cons.IH [OF k(2)] Cons.prems(2) by simp_all
  have "list_all2 (\<lambda>s s'. drain_verdict (lag (okafka w) grp (ss_Topic s)) (otime w) (otime w') ret s s') ss kept'"
    using IH(1)
  proof (rule list.rel_mono_strong)
    fix z z' assume z: "z \<in> set ss" and d: "drain_verdict (lag (okafka w1) grp (ss_Topic z)) (otime w1) (otime w') ret z z'"
    have "ss_Topic z \<in> ss_Topic ` set ss" using z by simp
    then have "ss_Topic z \<noteq> ss_Topic s" using Cons.prems(2) by auto
    then show "drain_verdict (lag (okafka w) grp (ss_Topic z)) (otime w) (otime w') ret z z'"
      using drain_verdict_mono [OF d v(2) order_refl] l by simp
  qed
  then show ?case
    using k(1) IH(2,3) t drain_verdict_mono [OF v(1) order_refl IH(3)] v(2) by (auto simp: closed_topics_Cons)
qed

end

interpretation demo_drain: drain_view demo_reconciler "\<lambda>k. set (k_topics k)" kmem_lag g_time
proof -
  have e: "Kafka (qr_sys demo_reconciler) = mem_kafka" "Env (qr_sys demo_reconciler) = mem_env"
    by (simp_all add: demo_reconciler_def mem_sys_def)
  have "drain_view_axioms demo_reconciler" by unfold_locales (simp add: process_clock_def demo_reconciler_def)
  then show "drain_view demo_reconciler (\<lambda>k. set (k_topics k)) kmem_lag g_time"
    using mem_topics.topic_store_axioms mem_time.go_clock_axioms by (simp add: drain_view_def e)
qed

lemma wf_distinct_topics:
  assumes "shards_wf name fifo ss" shows "distinct (map ss_Topic ss)"
proof -
  have "ss_Topic (ss ! i) = ShardTopicName name fifo (FormatInt (int i))" if "i < length ss" for i
    using assms that by (auto simp: shards_wf_def shard_ok_def)
  moreover have "ShardTopicName name fifo a = ShardTopicName name fifo b \<longleftrightarrow> a = b" for a b
    by (simp add: ShardTopicName_def Let_def)
  ultimately show ?thesis by (simp add: distinct_conv_nth)
qed

definition drain_verdict_in ::
  "(string \<Rightarrow> int) \<Rightarrow> time \<Rightarrow> time \<Rightarrow> duration \<Rightarrow> ShardStatus \<Rightarrow> ShardStatus \<Rightarrow> bool" where
  "drain_verdict_in lags before after retention s s' = drain_verdict (lags (ss_Topic s)) before after retention s s'"

lemma demo_halves_reached: "shards_wf ''orders'' True demo_halves"
proof -
  have r: "fst (reconcileSplits demo_reconciler demo_queue demo_busy) = (Inr (), with_shards demo_queue demo_halves)"
    by code_simp
  then obtain w' where e: "reconcileSplits demo_reconciler demo_queue demo_busy = ((Inr (), with_shards demo_queue demo_halves), w')"
    by (metis prod.collapse)
  have "shards_wf (q_Name demo_queue) (qs_FIFOQueue (q_Spec demo_queue)) (q_Shards demo_queue)"
    by (simp add: demo_queue_sel demo_wf)
  with reconcileSplits_steps [OF this _ e] shard_steps_wf show ?thesis by (force simp: demo_queue_sel)
qed


definition demo_closing :: Queue where
  "demo_closing = with_shards demo_queue demo_halves"

text \<open>Shard 0 has been consumed to the end and is older than the retention of 60 seconds.\<close>

definition demo_consumed :: "(mem, kmem, genv, kcluster) op_world" where
  "demo_consumed = demo_busy\<lparr>o_world := (o_world demo_busy)\<lparr>w_kafka := (w_kafka (o_world demo_busy))\<lparr>
     k_lags := [(''kmsvc-consumer-orders'', ''kmsvc.orders.fifo.shard-0'', 0)],
     k_topics := [''kmsvc.orders.fifo.shard-0'', ''kmsvc.orders.fifo.shard-1'', ''kmsvc.orders.fifo.shard-2'']\<rparr>\<rparr>\<rparr>"


section \<open>Deletion of a queue\<close>

context topic_store begin

lemma delete_topics_gone:
  assumes "Kafka (qr_sys R) = K" and "delete_topics R ss w = (Inr (), w')"
  shows "topics (okafka w') = topics (okafka w) - {ss_Topic s |s. s \<in> set ss \<and> ss_Phase s \<noteq> ShardPhaseClosed}"
  using assms(2)
proof (induction ss arbitrary: w)
  case (Cons s ss)
  show ?case
  proof (cases "ss_Phase s = ShardPhaseClosed")
    case True
    with Cons.prems have "delete_topics R ss w = (Inr (), w')" by simp
    from Cons.IH [OF this] True show ?thesis by auto
  next
    case False
    with Cons.prems obtain w1 where d: "admin_do R (\<lambda>K. DeleteTopic K (ss_Topic s)) w = (Inr (), w1)"
      and r: "delete_topics R ss w1 = (Inr (), w')" by (auto elim!: on_okE)
    have "topics (okafka w1) = topics (okafka w) - {ss_Topic s}"
      using DeleteTopic_stored [of "ss_Topic s" "okafka w" "okafka w1"] admin_do_parts [OF d] assms(1) by simp
    with Cons.IH [OF r] False show ?thesis by auto
  qed
qed simp

end

context queue_operator begin

lemma delete_worker_frame:
  assumes "delete_worker R q w = (Inr (), w')" shows "o_world w' = o_world w \<and> queues (o_kube w') = queues (o_kube w)"
  using assms worker_frame(2) [of "o_kube w" "worker_object R (temporal_namespace q)"]
  by (auto simp: delete_worker_def Let_def kube_do_def split: if_splits prod.splits elim!: on_okE)

lemma redis_delete:
  assumes "plane_do (redis_do f) w = (r, w')" shows "f (w_redis (o_world w)) = (r, w_redis (o_world w')) \<and>
    okafka w' = okafka w \<and> o_kube w' = o_kube w"
  using assms by (auto simp: plane_do_def redis_do_def split: prod.splits)

lemma reconcileDelete_done:
  assumes "reconcileDelete R q w = (Inr (), w')" and "finalizerName \<in> set (om_Finalizers (q_Meta q))"
  shows "\<exists>w1. delete_topics R (q_Shards q) w = (Inr (), w1) \<and> okafka w' = okafka w1 \<and>
    oks w' = (oks w)(QueueMetaKey (q_Name q) := None, ShardMapKey (q_Name q) := None) \<and>
    (\<forall>q'. queues (o_kube w') (queue_key q) = Some q' \<longrightarrow> finalizerName \<notin> set (om_Finalizers (q_Meta q')))"
proof -
  let ?fs = "RemoveFinalizer (qr_Client R) (om_Finalizers (q_Meta q)) finalizerName"
  from assms contains_finalizer obtain w1 w2 w3 w4 q' where
    t: "delete_topics R (q_Shards q) w = (Inr (), w1)"
    and m: "plane_do (redis_do (DeleteQueueMeta (Redis (qr_sys R)) (q_Name q))) w1 = (Inr (), w2)"
    and s: "plane_do (redis_do (DeleteShardMap (Redis (qr_sys R)) (q_Name q))) w2 = (Inr (), w3)"
    and d: "delete_worker R q w3 = (Inr (), w4)"
    and u: "kube_do R (\<lambda>K c. UpdateQueue K c (with_finalizers q (RemoveFinalizer K (om_Finalizers (q_Meta q)) finalizerName))) w4 = (Inr q', w')"
    unfolding reconcileDelete_def Let_def by (auto elim!: on_okE)
  from u obtain c where c: "UpdateQueue (qr_Client R) (o_kube w4) (with_finalizers q ?fs) = (Inr q', c)" "w' = w4\<lparr>o_kube := c\<rparr>"
    by (rule kube_doE) blast
  have "oks w1 = oks w" using delete_topics_same [OF t, of queues] by (simp add: same_stores_def)
  moreover have "oks w2 = (oks w1)(QueueMetaKey (q_Name q) := None)" "oks w3 = (oks w2)(ShardMapKey (q_Name q) := None)"
    using DeleteQueueMeta_ok redis_delete [OF m] DeleteShardMap_ok redis_delete [OF s] by blast+
  moreover have "o_world w4 = o_world w3" using delete_worker_frame [OF d] by simp
  moreover have "finalizerName \<notin> set ?fs" using remove_finalizer by simp
  ultimately show ?thesis
    using t update_queue [OF c(1)] redis_delete [OF m] redis_delete [OF s] c(2)
    by (auto simp: stored_after_update_def split: if_splits)
qed

end



section \<open>Names of Temporal workers\<close>

definition kube_char :: "char \<Rightarrow> bool" where
  "kube_char ch = (let n = (of_char ch :: int) in 97 \<le> n \<and> n \<le> 122 \<or> 48 \<le> n \<and> n \<le> 57 \<or> ch = CHR ''-'')"

lemma validate_chars_ok:
  "validate_chars len (Suc i) cs = Inr () \<longleftrightarrow>
    list_all kube_char cs \<and> \<not> (\<exists>j < length cs. Suc i + j = len - 1 \<and> cs ! j = CHR ''-'')"
proof (induction cs arbitrary: i)
  case (Cons ch cs)
  have "(\<exists>j < length (ch # cs). Suc i + j = len - 1 \<and> (ch # cs) ! j = CHR ''-'') \<longleftrightarrow>
      (Suc i = len - 1 \<and> ch = CHR ''-'') \<or> (\<exists>j < length cs. Suc (Suc i) + j = len - 1 \<and> cs ! j = CHR ''-'')"
    by (auto simp: less_Suc_eq_0_disj)
  then show ?case using Cons.IH [of "Suc i"] by (auto simp: Let_def kube_char_def)
qed simp

lemma temporal_char_kube: "kube_char ch \<Longrightarrow> temporal_char ch"
  by (auto simp: kube_char_def temporal_char_def Let_def)

lemma worker_accepts:
  "isValidTemporalNamespace ns \<and> validateKubernetesName (''worker-'' @ ns) = Inr () \<longleftrightarrow>
    ns \<noteq> '''' \<and> length ns \<le> 246 \<and> list_all kube_char ns \<and> last ns \<noteq> CHR ''-''"
proof -
  have w: "of_char CHR ''w'' = (119 :: int)" by code_simp
  have letters: "list_all kube_char ''orker''" "kube_char CHR ''-''" by code_simp+
  have "validateKubernetesName (''worker-'' @ ns) = Inr () \<longleftrightarrow>
      length ns \<le> 246 \<and> validate_chars (7 + length ns) (Suc 0) (''orker-'' @ ns) = Inr ()"
    by (auto simp: validateKubernetesName_def w eval_nat_numeral(2,3) numeral_One)
  also have "validate_chars (7 + length ns) (Suc 0) (''orker-'' @ ns) = Inr () \<longleftrightarrow>
      list_all kube_char ns \<and> \<not> (\<exists>j < 6 + length ns. Suc j = 6 + length ns \<and> (''orker-'' @ ns) ! j = CHR ''-'')"
    using letters unfolding validate_chars_ok by auto
  also have "(\<exists>j < 6 + length ns. Suc j = 6 + length ns \<and> (''orker-'' @ ns) ! j = CHR ''-'') \<longleftrightarrow>
      (if ns = [] then True else last ns = CHR ''-'')"
    by (cases ns rule: rev_cases) (auto simp: nth_append)
  finally show ?thesis
    using temporal_char_kube by (auto simp: isValidTemporalNamespace_def list_all_iff)
qed

text \<open>
  Which \<^verbatim>\<open>temporal.io/namespace\<close> labels get a worker: the two checks together accept a label
  exactly when it is not empty, has at most 246 characters, all of them lower case letters,
  digits or hyphens, and does not end in a hyphen. The name of the worker is then a valid
  Kubernetes name.
\<close>

theorem worker_label_accepted:
  "isValidTemporalNamespace ns \<and> validateKubernetesName (''worker-'' @ ns) = Inr () \<longleftrightarrow>
    ns \<noteq> '''' \<and> length ns \<le> 246 \<and> list_all kube_char ns \<and> last ns \<noteq> CHR ''-''"
  by (rule worker_accepts)

lemma underscore_rejected:
  assumes "CHR ''_'' \<in> set (temporal_namespace q)"
  shows "\<exists>e. reconcileTemporalWorker R q w = (Inl e, w)"
proof -
  let ?ns = "temporal_namespace q"
  have "\<not> kube_char CHR ''_''" by code_simp
  then have "\<not> (isValidTemporalNamespace ?ns \<and> validateKubernetesName (''worker-'' @ ?ns) = Inr ())"
    using assms unfolding worker_accepts by (auto simp: list_all_iff)
  moreover have "?ns \<noteq> ''''" using assms by auto
  moreover obtain v where "validateKubernetesName (''worker-'' @ ?ns) = v" by blast
  ultimately show ?thesis
    by (cases v) (auto simp: reconcileTemporalWorker_def Let_def)
qed

context queue_operator begin

lemma Reconcile_worker:
  assumes "Reconcile R ns n w = (Inr (), w')" and "queues (o_kube w) (ns, n) = Some q" and "\<not> deleting q"
    and "status_inv q" and "int (length (q_Shards q)) < 2 ^ 60"
  shows "\<exists>q2 w1 w2. temporal_namespace q2 = temporal_namespace q \<and> reconcileTemporalWorker R q2 w1 = (Inr (), w2)"
proof -
  have key: "queue_key q = (ns, n)" by (rule stored_key [OF assms(2)])
  from Reconcile_live [OF assms(1-3)] obtain w0 q1 w1 where
    0: "queues (o_kube w0) = queues (o_kube w)" and 1: "ensure_finalizer R q w0 = (Inr q1, w1)"
    and 2: "reconcile_shards R n q1 w1 = (Inr (), w')" by blast
  have "queues (o_kube w0) (queue_key q) = Some q" using 0 assms(2) key by simp
  note f = ensure_finalizer_stored [OF refl this 1]
  have i1: "status_inv q1" "int (3 * Suc (length (q_Shards q1))) < 2 ^ 62"
    using assms(4,5) f by (simp_all add: status_inv_def)
  obtain q2 w2 where q2: "q2 = with_shards q1 (q_Shards q2)" and fin: "finish_reconcile R n q2 w2 = (Inr (), w')"
    using reconcile_shards_cases [OF refl i1 2] setFailed_Inl by metis
  have "q_Meta q2 = q_Meta q1" using q2 by (metis with_shards_simps(2))
  then have "temporal_namespace q2 = temporal_namespace q" using f by (simp add: temporal_namespace_def)
  with finish_ok [OF fin] show ?thesis by blast
qed

end

text \<open>
  C37. A label with an underscore is accepted by the namespace check and refused by the name
  check, so a live queue that carries one is never reconciled successfully: every reconcile
  ends with an error, after Redis has been written.
\<close>

theorem underscore_label_never_ready:
  assumes "queue_operator R ks clock queues" and "queues (o_kube w) (ns, n) = Some q" and "\<not> deleting q"
    and "status_inv q" and "int (length (q_Shards q)) < 2 ^ 60"
    and "CHR ''_'' \<in> set (temporal_namespace q)"
  shows "\<exists>e. fst (Reconcile R ns n w) = Inl e"
proof (cases "fst (Reconcile R ns n w)")
  case (Inr u)
  then have "Reconcile R ns n w = (Inr (), snd (Reconcile R ns n w))" by (intro run_eqI) simp
  from queue_operator.Reconcile_worker [OF assms(1) this assms(2-5)] obtain q2 w1 w2 where
    "temporal_namespace q2 = temporal_namespace q" "reconcileTemporalWorker R q2 w1 = (Inr (), w2)" by blast
  with underscore_rejected [of q2 R w1] assms(6) show ?thesis by auto
qed blast

definition demo_labelled :: Queue where
  "demo_labelled = demo_queue\<lparr>q_Meta := (q_Meta demo_queue)\<lparr>om_Labels := Some [(''temporal.io/namespace'', ''story_crater'')]\<rparr>\<rparr>"

definition demo_labels :: "(mem, kmem, genv, kcluster) op_world" where
  "demo_labels = demo_busy\<lparr>o_kube := (o_kube demo_busy)\<lparr>kc_queues := [((''sqs'', ''orders''), demo_labelled)]\<rparr>\<rparr>"

theorem underscore_label_never_ready_witness:
  "isValidTemporalNamespace ''story_crater'' \<and> (\<exists>e. fst (Reconcile demo_reconciler ''sqs'' ''orders'' demo_labels) = Inl e)"
proof -
  have v: "isValidTemporalNamespace ''story_crater''" "\<not> deleting demo_labelled"
    "CHR ''_'' \<in> set (temporal_namespace demo_labelled)" by code_simp+
  have q: "mem_queues (o_kube demo_labels) (''sqs'', ''orders'') = Some demo_labelled"
    by (simp add: mem_queues_def demo_labels_def demo_labelled_def demo_queue_def)
  have "q_Shards demo_labelled = [demo_shard_status]" "q_Name demo_labelled = ''orders''" "qs_FIFOQueue (q_Spec demo_labelled) = True"
    by code_simp+
  then have i: "status_inv demo_labelled" "int (length (q_Shards demo_labelled)) < 2 ^ 60"
    using demo_wf by (simp_all add: status_inv_def)
  from underscore_label_never_ready [OF op.queue_operator_axioms, OF q v(2) i v(3)] v(1) show ?thesis by blast
qed

section \<open>Windows in which messages are lost or refused\<close>


definition demo_unread :: "(mem, kmem, genv, kcluster) op_world" where
  "demo_unread = demo_busy\<lparr>o_world := (o_world demo_busy)\<lparr>w_kafka := (w_kafka (o_world demo_busy))\<lparr>k_lags := []\<rparr>\<rparr>\<rparr>"


end
