(* ===== verification/Message_Receipt.thy ===== *)
theory Message_Receipt
  imports Message_Plane
begin

text \<open>
  Package \<^verbatim>\<open>internal/core/queue\<close>: \<^verbatim>\<open>receive_message.go\<close>, \<^verbatim>\<open>fifo.go\<close>, \<^verbatim>\<open>change_visibility.go\<close> and
  \<^verbatim>\<open>delete_message.go\<close>. The long-poll loop of \<^verbatim>\<open>ReceiveMessage\<close> may go on as long as the clock
  stands still, so it is a partial function whose value \<open>None\<close> means that it never returns;
  that it does return when the clock keeps its contract is proved. Calls that read
  the local clock read it once, when they begin.
\<close>

section \<open>Handing out messages\<close>

definition defaultPollInterval :: duration where
  "defaultPollInterval = 200 * Millisecond"

record Message =
  msg_ReceiptHandle :: string
  msg_Body :: string
  msg_ReceiveCount :: int

record ReceiveMessageInput =
  rmi_QueueName :: string
  rmi_MaxNumberOfMessages :: int
  rmi_WaitTime :: duration
  rmi_VisibilityTimeoutOverride :: duration

definition acquireFIFOSlot :: "'s redis \<Rightarrow> string \<Rightarrow> string \<Rightarrow> string \<Rightarrow> duration \<Rightarrow> 's \<Rightarrow> bool res \<times> 's" where
  "acquireFIFOSlot R queueName groupID receiptHandle visibilityTimeout s =
     on_ok (AcquireFIFOLock R queueName groupID receiptHandle visibilityTimeout s)
       (wrapf (''acquire fifo slot '' @ queueName @ ''/'' @ groupID)) (\<lambda>ok s. (Inr ok, s))"

text \<open>
  The gate both ways of handing out share: without a group the message may go; with one, the
  group's lock is taken or the handle is put on the redelivery list. \<open>Inr False\<close>: parked.
\<close>

definition gate_or_park :: "'s redis \<Rightarrow> string \<Rightarrow> string \<Rightarrow> string \<Rightarrow> duration \<Rightarrow> 's \<Rightarrow> bool res \<times> 's" where
  "gate_or_park R queueName groupID handle visTimeout s =
     (if groupID = '''' then (Inr True, s)
      else on_ok (acquireFIFOSlot R queueName groupID handle visTimeout s) id (\<lambda>acquired s.
        if acquired then (Inr True, s)
        else on_ok (PushRedeliverable R queueName handle s) (wrapf (''receive message '' @ queueName))
          (\<lambda>_ s. (Inr False, s))))"

text \<open>\<open>Inr None\<close>: nothing handed out.\<close>

definition handOutRedeliverable ::
  "('s, 'k, 'g) sys \<Rightarrow> string \<Rightarrow> duration \<Rightarrow> ('s, 'k, 'g) world \<Rightarrow> Message option res \<times> ('s, 'k, 'g) world" where
  "handOutRedeliverable S queueName visTimeout w =
     on_ok (redis_do (PopRedeliverable (Redis S) queueName) w) (wrapf (''receive message '' @ queueName)) (\<lambda>popped w.
       case popped of
         None \<Rightarrow> (Inr None, w)
       | Some handle \<Rightarrow>
           on_ok (redis_do (GetInFlight (Redis S) queueName handle) w) (wrapf (''receive message '' @ queueName)) (\<lambda>found w.
             case found of
               None \<Rightarrow> (Inr None, w)
             | Some rec \<Rightarrow>
                 on_ok (redis_do (gate_or_park (Redis S) queueName (ifr_GroupID rec) handle visTimeout) w) id (\<lambda>go w.
                   if \<not> go then (Inr None, w)
                   else with_now S (\<lambda>now w.
                     on_ok (redis_do (ExtendVisibility (Redis S) queueName handle visTimeout now) w)
                       (wrapf (''receive message '' @ queueName)) (\<lambda>_ w.
                       (Inr (Some \<lparr>msg_ReceiptHandle = handle, msg_Body = ifr_Body rec,
                          msg_ReceiveCount = ifr_ReceiveCount rec\<rparr>), w))) w)))"

definition newReceiptHandle :: "string \<Rightarrow> int \<Rightarrow> int \<Rightarrow> string \<Rightarrow> string" where
  "newReceiptHandle shardID part offset uuid =
     shardID @ '':'' @ FormatInt part @ '':'' @ FormatInt offset @ '':'' @ uuid"

definition fresh_record :: "QueueMeta \<Rightarrow> string \<Rightarrow> Record \<Rightarrow> InFlightRecord" where
  "fresh_record meta shardID rec = \<lparr>
     ifr_ShardID = shardID, ifr_Topic = kr_Topic rec, ifr_Partition = kr_Partition rec, ifr_Offset = kr_Offset rec,
     ifr_GroupID = (if qm_FIFO meta then kr_Key rec else ''''), ifr_DedupID = '''',
     ifr_ReceiveCount = 1, ifr_Body = kr_Value rec\<rparr>"

definition handOutFresh ::
  "('s, 'k, 'g) sys \<Rightarrow> QueueMeta \<Rightarrow> string \<Rightarrow> string \<Rightarrow> Record \<Rightarrow> duration \<Rightarrow> ('s, 'k, 'g) world \<Rightarrow>
    Message option res \<times> ('s, 'k, 'g) world" where
  "handOutFresh S meta queueName shardID rec visTimeout w =
     on_ok (redis_do (AddPending (Redis S) queueName shardID (kr_Partition rec) (kr_Offset rec)) w)
       (wrapf (''receive message '' @ queueName)) (\<lambda>_ w.
       new_uuid S (\<lambda>uuid w.
         let receiptHandle = newReceiptHandle shardID (kr_Partition rec) (kr_Offset rec) uuid;
             r = fresh_record meta shardID rec in
         with_now S (\<lambda>now w.
           on_ok (redis_do (PutInFlight (Redis S) queueName receiptHandle r visTimeout now) w)
             (wrapf (''receive message '' @ queueName)) (\<lambda>_ w.
             on_ok (redis_do (gate_or_park (Redis S) queueName (ifr_GroupID r) receiptHandle visTimeout) w) id (\<lambda>go w.
               if \<not> go then (Inr None, w)
               else (Inr (Some \<lparr>msg_ReceiptHandle = receiptHandle, msg_Body = kr_Value rec,
                      msg_ReceiveCount = 1\<rparr>), w)))) w) w)"

section \<open>The long poll\<close>

text \<open>The first inner loop: at most \<open>room\<close> more messages from the redelivery list.\<close>

fun drain_redeliverable ::
  "('s, 'k, 'g) sys \<Rightarrow> string \<Rightarrow> duration \<Rightarrow> nat \<Rightarrow> Message list \<Rightarrow> ('s, 'k, 'g) world \<Rightarrow>
    Message list res \<times> ('s, 'k, 'g) world" where
  "drain_redeliverable S queueName visTimeout 0 out w = (Inr out, w)"
| "drain_redeliverable S queueName visTimeout (Suc room) out w =
     on_ok (handOutRedeliverable S queueName visTimeout w) id (\<lambda>handed w.
       case handed of
         None \<Rightarrow> (Inr out, w)
       | Some msg \<Rightarrow> drain_redeliverable S queueName visTimeout room (out @ [msg]) w)"

text \<open>The second inner loop: the polled records, until \<open>max\<close> messages are out.\<close>

fun hand_out_records ::
  "('s, 'k, 'g) sys \<Rightarrow> QueueMeta \<Rightarrow> string \<Rightarrow> (string \<rightharpoonup> string) \<Rightarrow> duration \<Rightarrow> nat \<Rightarrow> Record list \<Rightarrow> Message list \<Rightarrow>
    ('s, 'k, 'g) world \<Rightarrow> Message list res \<times> ('s, 'k, 'g) world" where
  "hand_out_records S meta queueName topicToShardID visTimeout mx [] out w = (Inr out, w)"
| "hand_out_records S meta queueName topicToShardID visTimeout mx (rec # records) out w =
     (if mx \<le> length out then (Inr out, w)
      else case topicToShardID (kr_Topic rec) of
        None \<Rightarrow> hand_out_records S meta queueName topicToShardID visTimeout mx records out w
      | Some shardID \<Rightarrow>
          on_ok (handOutFresh S meta queueName shardID rec visTimeout w) id (\<lambda>handed w.
            hand_out_records S meta queueName topicToShardID visTimeout mx records
              (case handed of None \<Rightarrow> out | Some msg \<Rightarrow> out @ [msg]) w))"

text \<open>
  Polling Kafka once: a cancelled request ends the call, the expiry of the poll interval is
  an empty poll, any other error ends the call.
\<close>

definition poll_once ::
  "('s, 'k, 'g) sys \<Rightarrow> string \<Rightarrow> duration \<Rightarrow> ('s, 'k, 'g) world \<Rightarrow> Record list res \<times> ('s, 'k, 'g) world" where
  "poll_once S queueName interval w =
     (case kafka_do (Poll (Kafka S) interval) w of
        (Inr records, w) \<Rightarrow> (Inr records, w)
      | (Inl err, w) \<Rightarrow>
          (case CtxErr (Env S) (w_env w) of
             Some e \<Rightarrow> (Inl e, w)
           | None \<Rightarrow>
               if errors_Is err DeadlineExceeded then (Inr [], w)
               else (Inl (wrapf (''receive message '' @ queueName) err), w)))"

text \<open>One iteration of the outer loop, up to the test that ends it.\<close>

definition poll_iteration ::
  "('s, 'k, 'g) sys \<Rightarrow> QueueMeta \<Rightarrow> string \<Rightarrow> (string \<rightharpoonup> string) \<Rightarrow> duration \<Rightarrow> nat \<Rightarrow> duration \<Rightarrow> Message list \<Rightarrow>
    ('s, 'k, 'g) world \<Rightarrow> Message list res \<times> ('s, 'k, 'g) world" where
  "poll_iteration S meta queueName topicToShardID visTimeout mx interval out w =
     on_ok (drain_redeliverable S queueName visTimeout (mx - length out) out w) id (\<lambda>out w.
       if length out < mx then
         on_ok (poll_once S queueName interval w) id (\<lambda>records w.
           hand_out_records S meta queueName topicToShardID visTimeout mx records out w)
       else (Inr out, w))"

partial_function (option) receive_loop ::
  "('s, 'k, 'g) sys \<Rightarrow> QueueMeta \<Rightarrow> string \<Rightarrow> (string \<rightharpoonup> string) \<Rightarrow> duration \<Rightarrow> nat \<Rightarrow> duration \<Rightarrow> time \<Rightarrow> Message list \<Rightarrow>
    ('s, 'k, 'g) world \<Rightarrow> (Message list res \<times> ('s, 'k, 'g) world) option" where
  "receive_loop S meta queueName topicToShardID visTimeout mx interval waitUntil out w =
     (case poll_iteration S meta queueName topicToShardID visTimeout mx interval out w of
        (Inl e, w) \<Rightarrow> Some (Inl e, w)
      | (Inr out, w) \<Rightarrow>
          (case Now (Env S) (w_env w) of (now, g) \<Rightarrow>
            if out \<noteq> [] \<or> waitUntil < now then Some (Inr out, w\<lparr>w_env := g\<rparr>)
            else (case Sleep (Env S) g interval of
                (Some e, g) \<Rightarrow> Some (Inl e, w\<lparr>w_env := g\<rparr>)
              | (None, g) \<Rightarrow>
                  receive_loop S meta queueName topicToShardID visTimeout mx interval waitUntil out (w\<lparr>w_env := g\<rparr>))))"

definition topic_map :: "Shard list \<Rightarrow> (string \<rightharpoonup> string)" where
  "topic_map shards = fold (\<lambda>sh m. m(sh_Topic sh \<mapsto> sh_ID sh)) shards Map.empty"

definition receive_limit :: "int \<Rightarrow> nat" where
  "receive_limit requested = (if requested \<le> 0 \<or> 10 < requested then 10 else nat requested)"

definition ReceiveMessage ::
  "('s, 'k, 'g) sys \<Rightarrow> duration \<Rightarrow> ReceiveMessageInput \<Rightarrow> ('s, 'k, 'g) world \<Rightarrow>
    (Message list res \<times> ('s, 'k, 'g) world) option" where
  "ReceiveMessage S pollInterval inp w =
     (case redis_do (GetQueueMeta (Redis S) (rmi_QueueName inp)) w of
        (Inl e, w) \<Rightarrow> Some (Inl (wrapf (''receive message '' @ rmi_QueueName inp) e), w)
      | (Inr None, w) \<Rightarrow> Some (Inl (ErrText (''queue '' @ rmi_QueueName inp @ '' not found'')), w)
      | (Inr (Some meta), w) \<Rightarrow>
          let visTimeout = (if rmi_VisibilityTimeoutOverride inp \<le> 0
                            then qm_VisibilityTimeoutSeconds meta * Second else rmi_VisibilityTimeoutOverride inp);
              mx = receive_limit (rmi_MaxNumberOfMessages inp);
              interval = (if pollInterval \<le> 0 then defaultPollInterval else pollInterval) in
          (case redis_do (ConsumableShards (Redis S) (rmi_QueueName inp)) w of
             (Inl e, w) \<Rightarrow> Some (Inl e, w)
           | (Inr shards, w) \<Rightarrow>
               with_now S (\<lambda>now w.
                 receive_loop S meta (rmi_QueueName inp) (topic_map shards) visTimeout mx interval
                   (now + rmi_WaitTime inp) [] w) w))"

section \<open>ChangeMessageVisibility and DeleteMessage\<close>

definition ChangeMessageVisibility ::
  "('s, 'k, 'g) sys \<Rightarrow> string \<Rightarrow> string \<Rightarrow> duration \<Rightarrow> ('s, 'k, 'g) world \<Rightarrow> unit res \<times> ('s, 'k, 'g) world" where
  "ChangeMessageVisibility S queueName receiptHandle newTimeout w =
     with_now S (\<lambda>now w.
       on_ok (redis_do (ExtendVisibility (Redis S) queueName receiptHandle newTimeout now) w)
         (wrapf (''change visibility '' @ queueName)) (\<lambda>ok w.
         if ok then (Inr (), w) else (Inl (ErrText ''receipt handle not found or already expired''), w))) w"

text \<open>\<open>committer\<close>: whether the service has an \<^verbatim>\<open>OffsetCommitter\<close>.\<close>

definition advanceWatermark ::
  "('s, 'k, 'g) sys \<Rightarrow> bool \<Rightarrow> string \<Rightarrow> InFlightRecord \<Rightarrow> ('s, 'k, 'g) world \<Rightarrow> unit res \<times> ('s, 'k, 'g) world" where
  "advanceWatermark S committer queueName rec w =
     on_ok (redis_do (MinPending (Redis S) queueName (ifr_ShardID rec) (ifr_Partition rec)) w)
       (wrapf (''advance watermark '' @ queueName)) (\<lambda>m w.
       case m of
         None \<Rightarrow> (Inr (), w)
       | Some minOffset \<Rightarrow>
           on_ok (redis_do (SetWatermark (Redis S) queueName (ifr_ShardID rec) (ifr_Partition rec) (minOffset - 1)) w)
             (wrapf (''advance watermark '' @ queueName)) (\<lambda>_ w.
             if \<not> committer then (Inr (), w)
             else on_ok (kafka_do (CommitOffset (Kafka S) (ConsumerGroup queueName) (ifr_Topic rec) (ifr_Partition rec) minOffset) w)
               (wrapf (''advance watermark '' @ queueName)) (\<lambda>_ w. (Inr (), w))))"

definition DeleteMessage ::
  "('s, 'k, 'g) sys \<Rightarrow> bool \<Rightarrow> string \<Rightarrow> string \<Rightarrow> ('s, 'k, 'g) world \<Rightarrow> unit res \<times> ('s, 'k, 'g) world" where
  "DeleteMessage S committer queueName receiptHandle w =
     on_ok (redis_do (GetInFlight (Redis S) queueName receiptHandle) w) (wrapf (''delete message '' @ queueName)) (\<lambda>found w.
       case found of
         None \<Rightarrow> (Inr (), w)
       | Some rec \<Rightarrow>
           on_ok (redis_do (Ack (Redis S) queueName receiptHandle) w) (wrapf (''delete message '' @ queueName)) (\<lambda>outcome w.
             if outcome \<noteq> ''acked'' then (Inr (), w)
             else advanceWatermark S committer queueName rec w))"

section \<open>The local clock never runs backwards through a call\<close>

lemma w_env_redis_do [simp]: "w_env (snd (redis_do f w)) = w_env w"
  by (simp add: redis_do_def split: prod.splits)

lemma w_env_kafka_do [simp]: "w_env (snd (kafka_do f w)) = w_env w"
  by (simp add: kafka_do_def split: prod.splits)

locale clocked = go_clock "Env S" time_of for S :: "('s, 'k, 'g) sys" and time_of :: "'g \<Rightarrow> time"
begin

abbreviation wtime :: "('s, 'k, 'g) world \<Rightarrow> time" where "wtime w \<equiv> time_of (w_env w)"

lemma on_ok_time:
  assumes "t \<le> wtime (snd m)" and "\<And>v w. t \<le> wtime w \<Longrightarrow> t \<le> wtime (snd (k v w))"
  shows "t \<le> wtime (snd (on_ok m f k))"
  using assms by (intro on_ok_inv [where P = "\<lambda>w. t \<le> wtime w"]) auto

lemma redis_do_time [simp]: "t \<le> wtime w \<Longrightarrow> t \<le> wtime (snd (redis_do f w))" by simp
lemma kafka_do_time [simp]: "t \<le> wtime w \<Longrightarrow> t \<le> wtime (snd (kafka_do f w))" by simp

lemma with_now_time:
  assumes "t \<le> wtime w" and "\<And>n w. t \<le> wtime w \<Longrightarrow> t \<le> wtime (snd (f n w))"
  shows "t \<le> wtime (snd (with_now S f w))"
  using assms now_reads [of "w_env w"] by (force simp: with_now_def split: prod.splits)

lemma new_uuid_time:
  assumes "t \<le> wtime w" and "\<And>n w. t \<le> wtime w \<Longrightarrow> t \<le> wtime (snd (f n w))"
  shows "t \<le> wtime (snd (new_uuid S f w))"
proof (cases "NewUUID (Env S) (w_env w)")
  case (Pair u g)
  with assms uuid_time [of "w_env w"] show ?thesis by (simp add: new_uuid_def)
qed

lemmas time_intros = on_ok_time with_now_time new_uuid_time redis_do_time kafka_do_time

lemma handOutRedeliverable_time: "t \<le> wtime w \<Longrightarrow> t \<le> wtime (snd (handOutRedeliverable S q vt w))"
  unfolding handOutRedeliverable_def by (auto intro!: time_intros split: option.splits)

lemma handOutFresh_time: "t \<le> wtime w \<Longrightarrow> t \<le> wtime (snd (handOutFresh S meta q sh rec vt w))"
  unfolding handOutFresh_def Let_def by (auto intro!: time_intros split: option.splits)

lemma drain_redeliverable_time: "t \<le> wtime w \<Longrightarrow> t \<le> wtime (snd (drain_redeliverable S q vt room out w))"
  by (induction room arbitrary: out w)
     (auto intro!: on_ok_time handOutRedeliverable_time split: option.splits)

lemma hand_out_records_time: "t \<le> wtime w \<Longrightarrow> t \<le> wtime (snd (hand_out_records S meta q tm vt mx recs out w))"
  by (induction recs arbitrary: out w)
     (auto intro!: on_ok_time handOutFresh_time split: option.splits)

lemma poll_once_time: "t \<le> wtime w \<Longrightarrow> t \<le> wtime (snd (poll_once S q iv w))"
  by (cases "Poll (Kafka S) iv (w_kafka w)")
     (auto simp: poll_once_def kafka_do_def split: sum.splits option.splits)

lemma poll_iteration_time: "t \<le> wtime w \<Longrightarrow> t \<le> wtime (snd (poll_iteration S meta q tm vt mx iv out w))"
  unfolding poll_iteration_def
  by (auto intro!: on_ok_time drain_redeliverable_time poll_once_time hand_out_records_time)

section \<open>The long poll returns\<close>

lemma receive_loop_step:
  assumes "receive_loop S meta q tm vt mx iv until out w = None"
  obtains w' where "receive_loop S meta q tm vt mx iv until [] w' = None"
    and "wtime w + iv \<le> wtime w'" and "wtime w \<le> until"
proof -
  obtain r w1 where it: "poll_iteration S meta q tm vt mx iv out w = (r, w1)" by force
  have t1: "wtime w \<le> wtime w1" using poll_iteration_time [of "wtime w" w meta q tm vt mx iv out] it by simp
  obtain out' where r: "r = Inr out'"
    using assms it by (cases r) (auto simp: receive_loop.simps [of S meta q tm vt mx iv until out w])
  obtain n g where now: "Now (Env S) (w_env w1) = (n, g)" by force
  obtain e g' where sl: "Sleep (Env S) g iv = (e, g')" by force
  have "out' = []" "n \<le> until" "e = None"
      and "receive_loop S meta q tm vt mx iv until [] (w1\<lparr>w_env := g'\<rparr>) = None"
    using assms it r now sl
    by (auto simp: receive_loop.simps [of S meta q tm vt mx iv until out w] split: if_splits option.splits)
  with that [of "w1\<lparr>w_env := g'\<rparr>"] now_reads [OF now] sleep_lasts [of g iv g'] sl t1 show thesis by simp
qed

lemma receive_loop_returns:
  assumes "0 < iv"
  shows "receive_loop S meta q tm vt mx iv until out w \<noteq> None"
proof (induction "nat (until - wtime w)" arbitrary: out w rule: less_induct)
  case less
  show ?case
  proof
    assume "receive_loop S meta q tm vt mx iv until out w = None"
    then obtain w' where w': "receive_loop S meta q tm vt mx iv until [] w' = None"
      and t: "wtime w + iv \<le> wtime w'" "wtime w \<le> until" by (rule receive_loop_step)
    show False
    proof (cases "until < wtime w'")
      case True
      from receive_loop_step [OF w'] obtain "wtime w' \<le> until" by blast
      with True show False by simp
    next
      case False
      with t assms have "nat (until - wtime w') < nat (until - wtime w)" by simp
      from less [OF this] w' show False by blast
    qed
  qed
qed

lemma ReceiveMessage_not_stuck: "ReceiveMessage S pi inp w \<noteq> None"
  unfolding ReceiveMessage_def Let_def with_now_def defaultPollInterval_def
  using receive_loop_returns by (auto split: prod.splits sum.splits option.splits)

end


interpretation mem_poll: clocked mem_sys g_time
proof -
  have "Env mem_sys = mem_env" by (simp add: mem_sys_def)
  then show "clocked mem_sys g_time" using mem_time.go_clock_axioms by (simp add: clocked_def)
qed

section \<open>No more messages than asked for\<close>

lemma drain_redeliverable_length:
  "drain_redeliverable S q vt room out w = (Inr out', w') \<Longrightarrow> length out \<le> length out' \<and> length out' \<le> length out + room"
proof (induction room arbitrary: out w)
  case (Suc room)
  then show ?case by (auto elim!: on_okE split: option.splits) fastforce+
qed simp

lemma hand_out_records_length:
  "hand_out_records S meta q tm vt mx recs out w = (Inr out', w') \<Longrightarrow> length out \<le> mx \<Longrightarrow> length out' \<le> mx"
proof (induction recs arbitrary: out w)
  case (Cons rec recs)
  show ?case
  proof (cases "mx \<le> length out \<or> tm (kr_Topic rec) = None")
    case True
    with Cons show ?thesis by (auto split: if_splits)
  next
    case False
    then obtain sh where sh: "tm (kr_Topic rec) = Some sh" by auto
    with False Cons.prems(1) obtain h w1 where
      "hand_out_records S meta q tm vt mx recs (case h of None \<Rightarrow> out | Some msg \<Rightarrow> out @ [msg]) w1 = (Inr out', w')"
      by (auto elim!: on_okE)
    then show ?thesis by (rule Cons.IH) (use False in \<open>auto split: option.splits\<close>)
  qed
qed simp

lemma poll_iteration_length:
  assumes "poll_iteration S meta q tm vt mx iv out w = (Inr out', w')" and "length out \<le> mx"
  shows "length out' \<le> mx"
proof -
  from assms(1) obtain o1 w1 where d: "drain_redeliverable S q vt (mx - length out) out w = (Inr o1, w1)"
    and r: "(if length o1 < mx then on_ok (poll_once S q iv w1) id (\<lambda>records w.
        hand_out_records S meta q tm vt mx records o1 w) else (Inr o1, w1)) = (Inr out', w')"
    unfolding poll_iteration_def by (elim on_okE) simp
  have "length o1 \<le> mx" using drain_redeliverable_length [OF d] assms(2) by simp
  with r show ?thesis by (auto elim!: on_okE intro: hand_out_records_length split: if_splits)
qed

definition loop_body ::
  "('s, 'k, 'g) sys \<Rightarrow> QueueMeta \<Rightarrow> string \<Rightarrow> (string \<rightharpoonup> string) \<Rightarrow> duration \<Rightarrow> nat \<Rightarrow> duration \<Rightarrow> time \<Rightarrow> Message list \<Rightarrow>
    (Message list \<Rightarrow> ('s, 'k, 'g) world \<Rightarrow> (Message list res \<times> ('s, 'k, 'g) world) option) \<Rightarrow>
    ('s, 'k, 'g) world \<Rightarrow> (Message list res \<times> ('s, 'k, 'g) world) option" where
  "loop_body S meta q tm vt mx iv until out rec w =
     (case poll_iteration S meta q tm vt mx iv out w of
        (Inl e, w) \<Rightarrow> Some (Inl e, w)
      | (Inr out, w) \<Rightarrow>
          (case Now (Env S) (w_env w) of (now, g) \<Rightarrow>
            if out \<noteq> [] \<or> until < now then Some (Inr out, w\<lparr>w_env := g\<rparr>)
            else (case Sleep (Env S) g iv of
                (Some e, g) \<Rightarrow> Some (Inl e, w\<lparr>w_env := g\<rparr>)
              | (None, g) \<Rightarrow> rec out (w\<lparr>w_env := g\<rparr>))))"

lemma loop_body_length:
  assumes "loop_body S meta q tm vt mx iv until out rec w = Some y" and "length out \<le> mx"
    and "\<And>out w y. rec out w = Some y \<Longrightarrow> length out \<le> mx \<Longrightarrow> (\<forall>o'. fst y = Inr o' \<longrightarrow> length o' \<le> mx)"
    and "fst y = Inr o'"
  shows "length o' \<le> mx"
proof -
  obtain r w1 where it: "poll_iteration S meta q tm vt mx iv out w = (r, w1)" by force
  obtain n g where now: "Now (Env S) (w_env w1) = (n, g)" by force
  obtain e g' where sl: "Sleep (Env S) g iv = (e, g')" by force
  show ?thesis
  proof (cases r)
    case (Inl x)
    with assms(1,4) it show ?thesis by (auto simp: loop_body_def)
  next
    case (Inr out1)
    with it have l: "length out1 \<le> mx" using assms(2) by (auto intro: poll_iteration_length)
    with assms(1,4) it now sl Inr assms(3) [of out1 "w1\<lparr>w_env := g'\<rparr>" y] show ?thesis
      by (auto simp: loop_body_def split: if_splits option.splits)
  qed
qed

lemma receive_loop_length:
  assumes "receive_loop S meta q tm vt mx iv until out w = Some (Inr out', w')" and "length out \<le> mx"
  shows "length out' \<le> mx"
proof -
  let ?P = "\<lambda>S meta q tm vt mx iv until (out :: Message list) w (y :: Message list res \<times> ('a, 'b, 'c) world).
    length out \<le> mx \<longrightarrow> (\<forall>o'. fst y = Inr o' \<longrightarrow> length o' \<le> mx)"
  have "?P S meta q tm vt mx iv until out w (Inr out', w')"
  proof (rule receive_loop.raw_induct [where P = ?P, OF _ assms(1)], intro impI allI)
    fix loop S meta q tm vt mx iv until out w y o'
    assume IH: "\<And>S meta q tm vt mx iv until out w y. loop S meta q tm vt mx iv until out w = Some y \<Longrightarrow>
        length out \<le> mx \<longrightarrow> (\<forall>o'. fst y = Inr o' \<longrightarrow> length o' \<le> mx)"
      and body: "(case poll_iteration S meta q tm vt mx iv out w of
        (Inl e, w) \<Rightarrow> Some (Inl e, w)
      | (Inr out, w) \<Rightarrow>
          (case Now (Env S) (w_env w) of (now, g) \<Rightarrow>
            if out \<noteq> [] \<or> until < now then Some (Inr out, w\<lparr>w_env := g\<rparr>)
            else (case Sleep (Env S) g iv of
                (None, g) \<Rightarrow> loop S meta q tm vt mx iv until out (w\<lparr>w_env := g\<rparr>)
              | (Some e, g) \<Rightarrow> Some (Inl e, w\<lparr>w_env := g\<rparr>)))) = Some y"
      and l: "length out \<le> mx" "fst y = Inr o'"
    have "loop_body S meta q tm vt mx iv until out (loop S meta q tm vt mx iv until) w = Some y"
      using body unfolding loop_body_def .
    from loop_body_length [OF this l(1) _ l(2)] IH show "length o' \<le> mx" by blast
  qed
  with assms(2) show ?thesis by simp
qed

lemma receive_limit_le: "receive_limit n \<le> 10"
  by (auto simp: receive_limit_def)

section \<open>Effect on the store\<close>

lemma deadline_None_later:
  assumes "deadline e = None"
  shows "as_zset t e = as_zset t' e" and "as_list t e = as_list t' e"
  using assms by (auto simp: deadline_def view_defs alive_def split: option.splits prod.splits)

lemma deadline_zadd:
  "deadline e = None \<Longrightarrow> deadline (snd (cmd_zadd t sc m e)) = None"
  by (auto simp: deadline_def cmd_zadd_def alive_def split: option.splits prod.splits rvalue.splits)

lemma zadd_member:
  assumes "cmd_zadd t sc m e = (Inr u, e')" and "deadline e = None"
  shows "m \<in> fst ` set (as_zset t' e')"
proof -
  have "as_zset t' e' = AList.update m sc (as_zset t e)"
    using as_zset_zadd [of t sc m e u] deadline_None_later(1) [of e' t' t] deadline_zadd [OF assms(2), of t sc m] assms(1)
    by simp
  then show ?thesis by (simp add: dom_update)
qed

lemma deadline_zrem:
  "deadline e = None \<Longrightarrow> deadline (snd (cmd_zrem t m e)) = None"
  by (auto simp: deadline_def cmd_zrem_def alive_def Let_def split: option.splits prod.splits rvalue.splits)

lemma holds_record_antimono:
  assumes "holds_record t' k q h rec" and "t \<le> t'" shows "holds_record t k q h rec"
proof -
  have "alive t' (k (InFlightKey q h)) \<noteq> None" using assms(1) by (rule holds_record_alive)
  then have "alive t (k (InFlightKey q h)) = alive t' (k (InFlightKey q h))" using assms(2) by (rule alive_antimono)
  with assms(1) show ?thesis by (simp add: holds_record_def as_hash_def)
qed

context redis_quiet begin

lemma gate_or_park_ok:
  assumes "gate_or_park R q g h vt s = (Inr go, s')"
  shows "clock s \<le> clock s' \<and>
    (if g = '''' then go \<and> ks s' = ks s
     else (\<exists>t. clock s \<le> t \<and> t \<le> clock s' \<and> go = (alive t (ks s (FIFOLockKey q g)) = None) \<and>
       (if go then ks s' = (ks s)(FIFOLockKey q g := Some (RStr h, ttl_deadline t vt))
        else \<exists>e. cmd_rpush (clock s') h (ks s (RedeliverKey q)) = (Inr (), e) \<and> ks s' = (ks s)(RedeliverKey q := e))))"
proof (cases "g = ''''")
  case True
  with assms show ?thesis by (simp add: gate_or_park_def)
next
  case False
  with assms obtain a s1 where a: "AcquireFIFOLock R q g h vt s = (Inr a, s1)"
    and r: "(if a then (Inr True, s1) else on_ok (PushRedeliverable R q h s1) (wrapf (''receive message '' @ q))
          (\<lambda>_ s. (Inr False, s))) = (Inr go, s')"
    by (auto simp: gate_or_park_def acquireFIFOSlot_def elim!: on_okE)
  show ?thesis
  proof (cases a)
    case True
    with AcquireFIFOLock_ok [OF a] r False show ?thesis by auto
  next
    case na: False
    with r obtain s2 where p: "PushRedeliverable R q h s1 = (Inr (), s2)" and "go = False" "s' = s2"
      by (auto elim!: on_okE)
    with AcquireFIFOLock_ok [OF a] na PushRedeliverable_ok [OF p] False show ?thesis
      by (intro conjI) (auto intro!: exI [of _ "clock s1"])
  qed
qed

end

context message_plane begin

lemma handOutFresh_ok:
  assumes "handOutFresh S meta q sh rec vt w = (Inr r, w')"
  shows "\<exists>h u now s1 s2 go. h = newReceiptHandle sh (kr_Partition rec) (kr_Offset rec) u \<and>
    AddPending (Redis S) q sh (kr_Partition rec) (kr_Offset rec) (w_redis w) = (Inr (), s1) \<and>
    PutInFlight (Redis S) q h (fresh_record meta sh rec) vt now s1 = (Inr (), s2) \<and>
    gate_or_park (Redis S) q (ifr_GroupID (fresh_record meta sh rec)) h vt s2 = (Inr go, w_redis w') \<and>
    w_kafka w' = w_kafka w \<and>
    r = (if go then Some \<lparr>msg_ReceiptHandle = h, msg_Body = kr_Value rec, msg_ReceiveCount = 1\<rparr> else None)"
  using assms unfolding handOutFresh_def Let_def
  by (elim redis_doE new_uuidE with_nowE)
     (intro exI conjI, rule refl, simp, simp, auto split: if_splits)

lemma DeleteMessage_acks:
  assumes "DeleteMessage S committer q h w = (Inr (), w')"
  obtains s1 where "GetInFlight (Redis S) q h (w_redis w) = (Inr None, s1)" and "w' = w\<lparr>w_redis := s1\<rparr>"
  | rec s1 a s2 where "GetInFlight (Redis S) q h (w_redis w) = (Inr (Some rec), s1)" and "Ack (Redis S) q h s1 = (Inr a, s2)"
      and "if a = ''acked'' then advanceWatermark S committer q rec (w\<lparr>w_redis := s2\<rparr>) = (Inr (), w')
        else w' = w\<lparr>w_redis := s2\<rparr>"
proof -
  obtain g s1 where G: "GetInFlight (Redis S) q h (w_redis w) = (g, s1)" by force
  obtain a s2 where A: "Ack (Redis S) q h s1 = (a, s2)" by force
  show thesis
  proof (cases "g = Inr None")
    case True
    with assms G show thesis by (intro that(1)) (auto simp: DeleteMessage_def redis_do_def)
  next
    case False
    with assms G A show thesis
      by (cases g; cases a) (auto simp: DeleteMessage_def redis_do_def split: option.splits if_splits intro: that(2))
  qed
qed

lemma advanceWatermark_ok:
  assumes "advanceWatermark S committer q rec w = (Inr (), w')"
  obtains s1 where "MinPending (Redis S) q (ifr_ShardID rec) (ifr_Partition rec) (w_redis w) = (Inr None, s1)"
      and "w' = w\<lparr>w_redis := s1\<rparr>"
  | m s1 where "MinPending (Redis S) q (ifr_ShardID rec) (ifr_Partition rec) (w_redis w) = (Inr (Some m), s1)"
      and "SetWatermark (Redis S) q (ifr_ShardID rec) (ifr_Partition rec) (m - 1) s1 = (Inr (), w_redis w')"
      and "if committer
          then CommitOffsets (Kafka S) (w_kafka w) (ConsumerGroup q) (ifr_Topic rec) (ifr_Partition rec) m = (Inr None, w_kafka w')
          else w_kafka w' = w_kafka w"
proof -
  obtain m s1 where M: "MinPending (Redis S) q (ifr_ShardID rec) (ifr_Partition rec) (w_redis w) = (m, s1)" by force
  show thesis
  proof (cases "m = Inr None")
    case True
    with assms M show thesis by (intro that(1)) (auto simp: advanceWatermark_def redis_do_def)
  next
    case False
    with assms M obtain n where n: "m = Inr (Some n)"
      by (cases m) (auto simp: advanceWatermark_def redis_do_def split: option.splits)
    show thesis
      by (rule that(2) [of n s1])
         (use assms M n in \<open>auto elim!: on_okE simp: advanceWatermark_def redis_do_def kafka_do_def CommitOffset_def Let_def
            split: option.splits if_splits prod.splits\<close>)
  qed
qed

lemma advanceWatermark_clock:
  assumes "advanceWatermark S committer q rec w = (Inr (), w')"
  shows "wclock w \<le> wclock w'"
  using assms
proof (rule advanceWatermark_ok)
  fix s1 assume "MinPending (Redis S) q (ifr_ShardID rec) (ifr_Partition rec) (w_redis w) = (Inr None, s1)" "w' = w\<lparr>w_redis := s1\<rparr>"
  then show ?thesis by (auto dest!: MinPending_ok)
next
  fix m s1 assume "MinPending (Redis S) q (ifr_ShardID rec) (ifr_Partition rec) (w_redis w) = (Inr (Some m), s1)"
    "SetWatermark (Redis S) q (ifr_ShardID rec) (ifr_Partition rec) (m - 1) s1 = (Inr (), w_redis w')"
  then show ?thesis by (auto dest!: MinPending_ok SetWatermark_ok)
qed

text \<open>The acknowledgement has settled the message, and the watermark is advanced from there.\<close>

lemma DeleteMessage_settles:
  assumes del: "DeleteMessage S committer q h w = (Inr (), w')"
    and rec: "holds_record (wclock w') (wks w) q h rec" "record_in_range rec"
  obtains s2 where "wclock w \<le> clock s2" and "advanceWatermark S committer q rec (w\<lparr>w_redis := s2\<rparr>) = (Inr (), w')"
    and "ks s2 = unlock (clock s2) q (ifr_GroupID rec) h (settle (clock s2) q h rec (wks w))"
  using del
proof (rule DeleteMessage_acks)
  fix s1 assume "GetInFlight (Redis S) q h (w_redis w) = (Inr None, s1)" "w' = w\<lparr>w_redis := s1\<rparr>"
  with holds_record_fields(9) [OF rec(1)] show thesis by (auto dest!: GetInFlight_ok simp: Let_def)
next
  fix rec' s1 a s2
  assume g: "GetInFlight (Redis S) q h (w_redis w) = (Inr (Some rec'), s1)" and a: "Ack (Redis S) q h s1 = (Inr a, s2)"
    and r: "if a = ''acked'' then advanceWatermark S committer q rec' (w\<lparr>w_redis := s2\<rparr>) = (Inr (), w')
        else w' = w\<lparr>w_redis := s2\<rparr>"
  note go = GetInFlight_ok [OF g]
  have s2: "clock s2 \<le> wclock w'" using r advanceWatermark_clock by (force split: if_splits)
  then have h2: "holds_record (clock s2) (ks s1) q h rec"
    using holds_record_antimono [OF rec(1)] go by simp
  note ao = Ack_ok [OF a this]
  have "holds_record (clock s1) (wks w) q h rec"
    using holds_record_antimono [OF rec(1), of "clock s1"] ao s2 by simp
  then have "rec' = rec"
    using go decode_inflight_holds [OF _ rec(2)] holds_record_fields(9) by (auto simp: Let_def split: if_splits)
  with ao go r that [of s2] show thesis by auto
qed

lemma pending_after_settle:
  assumes "deadline (k (PendingKey q (ifr_ShardID rec) (ifr_Partition rec))) = None"
    and "k' = unlock t q g h (settle t q h rec k)"
  shows "as_zset t' (k' (PendingKey q (ifr_ShardID rec) (ifr_Partition rec))) =
    AList.delete (FormatInt (ifr_Offset rec)) (as_zset t'' (k (PendingKey q (ifr_ShardID rec) (ifr_Partition rec))))"
proof -
  let ?e = "k (PendingKey q (ifr_ShardID rec) (ifr_Partition rec))"
  have "k' (PendingKey q (ifr_ShardID rec) (ifr_Partition rec)) = snd (cmd_zrem t (FormatInt (ifr_Offset rec)) ?e)"
    unfolding assms(2) by (simp add: unlock_other)
  then show ?thesis
    using deadline_None_later(1) [OF deadline_zrem [OF assms(1)], of t' t "FormatInt (ifr_Offset rec)" t]
      deadline_None_later(1) [OF assms(1), of t t''] by simp
qed

lemma DeleteMessage_advances:
  assumes del: "DeleteMessage S committer q h w = (Inr (), w')"
    and rec: "holds_record (wclock w') (wks w) q h rec" "record_in_range rec"
    and dl: "deadline (wks w (PendingKey q (ifr_ShardID rec) (ifr_Partition rec))) = None"
  defines "P \<equiv> snd ` set (AList.delete (FormatInt (ifr_Offset rec))
      (as_zset (wclock w) (wks w (PendingKey q (ifr_ShardID rec) (ifr_Partition rec)))))"
  shows "wks w' (InFlightKey q h) = None \<and>
    (if P = {} then w_kafka w' = w_kafka w
     else \<exists>m \<in> P. (\<forall>x \<in> P. m \<le> x) \<and>
       wks w' (WatermarkKey q (ifr_ShardID rec) (ifr_Partition rec)) = Some (RStr (FormatInt (m - 1)), None) \<and>
       (if committer
        then CommitOffsets (Kafka S) (w_kafka w) (ConsumerGroup q) (ifr_Topic rec) (ifr_Partition rec) m = (Inr None, w_kafka w')
        else w_kafka w' = w_kafka w))"
proof (rule DeleteMessage_settles [OF del rec])
  fix s2
  assume adv: "advanceWatermark S committer q rec (w\<lparr>w_redis := s2\<rparr>) = (Inr (), w')"
    and k2: "ks s2 = unlock (clock s2) q (ifr_GroupID rec) h (settle (clock s2) q h rec (wks w))"
  have none: "ks s2 (InFlightKey q h) = None" unfolding k2 by (simp add: unlock_other)
  have P: "P = pending_offsets t (ks s2) q (ifr_ShardID rec) (ifr_Partition rec)" for t
    unfolding P_def pending_offsets_def
    using pending_after_settle [OF dl k2, of t "wclock w"] by simp
  show ?thesis
    using adv
  proof (rule advanceWatermark_ok)
    fix s3 assume m: "MinPending (Redis S) q (ifr_ShardID rec) (ifr_Partition rec) (w_redis (w\<lparr>w_redis := s2\<rparr>)) = (Inr None, s3)"
      "w' = w\<lparr>w_redis := s2, w_redis := s3\<rparr>"
    then have "zorder (as_zset (clock s3) (ks s2 (PendingKey q (ifr_ShardID rec) (ifr_Partition rec)))) = []"
      by (auto dest!: MinPending_ok split: list.splits prod.splits)
    then have "P = {}" unfolding P [of "clock s3"] pending_offsets_def by simp
    with m none show ?thesis by (auto dest!: MinPending_ok)
  next
    fix m s3
    assume m: "MinPending (Redis S) q (ifr_ShardID rec) (ifr_Partition rec) (w_redis (w\<lparr>w_redis := s2\<rparr>)) = (Inr (Some m), s3)"
      and wm: "SetWatermark (Redis S) q (ifr_ShardID rec) (ifr_Partition rec) (m - 1) s3 = (Inr (), w_redis w')"
      and c: "if committer then CommitOffsets (Kafka S) (w_kafka (w\<lparr>w_redis := s2\<rparr>)) (ConsumerGroup q) (ifr_Topic rec)
          (ifr_Partition rec) m = (Inr None, w_kafka w') else w_kafka w' = w_kafka (w\<lparr>w_redis := s2\<rparr>)"
    from MinPending_ok [OF m] obtain z rest where
      "zorder (as_zset (clock s3) (ks s2 (PendingKey q (ifr_ShardID rec) (ifr_Partition rec)))) = (z, m) # rest" "ks s3 = ks s2"
      by (auto split: list.splits prod.splits)
    with zorder_hd_min have "m \<in> P" "\<And>x. x \<in> P \<Longrightarrow> m \<le> x" "ks s3 = ks s2"
      unfolding P [of "clock s3"] pending_offsets_def by blast+
    with SetWatermark_ok [OF wm] none c show ?thesis by auto
  qed
qed

end

context message_plane begin

lemma handOutFresh_tracked:
  assumes "handOutFresh S meta q sh rec vt w = (Inr r, w')" and vt: "- Minute < vt"
    and dl: "deadline (wks w (VisIndexKey q)) = None" "deadline (wks w (PendingKey q sh (kr_Partition rec))) = None"
  defines "g \<equiv> ifr_GroupID (fresh_record meta sh rec)"
  shows "\<exists>h u t. h = newReceiptHandle sh (kr_Partition rec) (kr_Offset rec) u \<and> wclock w \<le> t \<and> t \<le> wclock w' \<and>
    (\<forall>t'. holds_record t' (wks w') q h (fresh_record meta sh rec) \<longleftrightarrow> t' < t + 1000 * expire_secs (vt + Minute)) \<and>
    h \<in> fst ` set (as_zset (wclock w') (wks w' (VisIndexKey q))) \<and>
    FormatInt (kr_Offset rec) \<in> fst ` set (as_zset (wclock w') (wks w' (PendingKey q sh (kr_Partition rec)))) \<and>
    (case r of
       Some m \<Rightarrow> m = \<lparr>msg_ReceiptHandle = h, msg_Body = kr_Value rec, msg_ReceiveCount = 1\<rparr> \<and>
         (g \<noteq> '''' \<longrightarrow> (\<exists>d. wks w' (FIFOLockKey q g) = Some (RStr h, d)))
     | None \<Rightarrow> g \<noteq> '''' \<and> as_list (wclock w') (wks w' (RedeliverKey q)) = as_list (wclock w') (wks w (RedeliverKey q)) @ [h])"
proof -
  from handOutFresh_ok [OF assms(1)] obtain h u now s1 s2 go where
    h: "h = newReceiptHandle sh (kr_Partition rec) (kr_Offset rec) u"
    and ap: "AddPending (Redis S) q sh (kr_Partition rec) (kr_Offset rec) (w_redis w) = (Inr (), s1)"
    and pi: "PutInFlight (Redis S) q h (fresh_record meta sh rec) vt now s1 = (Inr (), s2)"
    and gp: "gate_or_park (Redis S) q g h vt s2 = (Inr go, w_redis w')"
    and r: "r = (if go then Some \<lparr>msg_ReceiptHandle = h, msg_Body = kr_Value rec, msg_ReceiveCount = 1\<rparr> else None)"
    unfolding g_def by blast
  note a = AddPending_ok [OF ap] and p = PutInFlight_ok [OF pi] and gt = gate_or_park_ok [OF gp]
  have same: "wks w' k = ks s2 k" if "k \<noteq> FIFOLockKey q g" "k \<noteq> RedeliverKey q" for k
    using gt that by (auto split: if_splits)
  from a obtain e where e: "cmd_zadd (clock s1) (float64 (kr_Offset rec)) (FormatInt (kr_Offset rec))
      (wks w (PendingKey q sh (kr_Partition rec))) = (Inr (), e)" "ks s1 = (wks w)(PendingKey q sh (kr_Partition rec) := e)" by blast
  from p obtain e' v where v: "cmd_zadd (clock s2) (float64 (UnixMilli (now + vt))) h (ks s1 (VisIndexKey q)) = (Inr (), v)"
    "ks s2 = (ks s1)(InFlightKey q h := e', VisIndexKey q := v)" by blast
  have vis: "h \<in> fst ` set (as_zset (wclock w') (wks w' (VisIndexKey q)))"
    using same [of "VisIndexKey q"] v e zadd_member [of "clock s2" _ h "wks w (VisIndexKey q)" "()" v "wclock w'"] dl(1) by simp
  have pend: "FormatInt (kr_Offset rec) \<in> fst ` set (as_zset (wclock w') (wks w' (PendingKey q sh (kr_Partition rec))))"
    using same [of "PendingKey q sh (kr_Partition rec)"] v e
      zadd_member [of "clock s1" _ "FormatInt (kr_Offset rec)" "wks w (PendingKey q sh (kr_Partition rec))" "()" e "wclock w'"] dl(2)
    by simp
  have held: "holds_record t' (wks w') q h (fresh_record meta sh rec) \<longleftrightarrow> t' < clock s2 + 1000 * expire_secs (vt + Minute)" for t'
    using PutInFlight_holds(1) [OF pi vt, of "wks w'"] same [of "InFlightKey q h"] by simp
  have out: "case r of
       Some m \<Rightarrow> m = \<lparr>msg_ReceiptHandle = h, msg_Body = kr_Value rec, msg_ReceiveCount = 1\<rparr> \<and>
         (g \<noteq> '''' \<longrightarrow> (\<exists>d. wks w' (FIFOLockKey q g) = Some (RStr h, d)))
     | None \<Rightarrow> g \<noteq> '''' \<and> as_list (wclock w') (wks w' (RedeliverKey q)) = as_list (wclock w') (wks w (RedeliverKey q)) @ [h]"
  proof (cases go)
    case True
    with r gt show ?thesis by (auto split: if_splits)
  next
    case False
    with gt obtain l where "g \<noteq> ''''" "cmd_rpush (wclock w') h (ks s2 (RedeliverKey q)) = (Inr (), l)"
      "wks w' = (ks s2)(RedeliverKey q := l)" by (auto split: if_splits)
    with False r v e as_list_rpush [of "wclock w'" h "wks w (RedeliverKey q)" "()"] show ?thesis by simp
  qed
  from a p gt have "wclock w \<le> clock s2" "clock s2 \<le> wclock w'" by auto
  with h held vis pend out show ?thesis by blast
qed

end


lemma deadline_lpop:
  "deadline e = None \<Longrightarrow> deadline (snd (cmd_lpop t e)) = None"
  by (auto simp: deadline_def cmd_lpop_def alive_def split: option.splits prod.splits rvalue.splits list.splits)

context message_plane begin

lemma handOutRedeliverable_cases:
  assumes "handOutRedeliverable S q vt w = (Inr r, w')"
  obtains (empty) "PopRedeliverable (Redis S) q (w_redis w) = (Inr None, w_redis w')" and "r = None"
  | (gone) h s1 where "PopRedeliverable (Redis S) q (w_redis w) = (Inr (Some h), s1)"
      and "GetInFlight (Redis S) q h s1 = (Inr None, w_redis w')" and "r = None"
  | (parked) h s1 rec s2 where "PopRedeliverable (Redis S) q (w_redis w) = (Inr (Some h), s1)"
      and "GetInFlight (Redis S) q h s1 = (Inr (Some rec), s2)"
      and "gate_or_park (Redis S) q (ifr_GroupID rec) h vt s2 = (Inr False, w_redis w')" and "r = None"
  | (handed) h s1 rec s2 s3 now b where "PopRedeliverable (Redis S) q (w_redis w) = (Inr (Some h), s1)"
      and "GetInFlight (Redis S) q h s1 = (Inr (Some rec), s2)"
      and "gate_or_park (Redis S) q (ifr_GroupID rec) h vt s2 = (Inr True, s3)"
      and "ExtendVisibility (Redis S) q h vt now s3 = (Inr b, w_redis w')"
      and "r = Some \<lparr>msg_ReceiptHandle = h, msg_Body = ifr_Body rec, msg_ReceiveCount = ifr_ReceiveCount rec\<rparr>"
proof -
  obtain p s1 where p: "PopRedeliverable (Redis S) q (w_redis w) = (Inr p, s1)"
    and r1: "(case p of None \<Rightarrow> r = None \<and> w' = w\<lparr>w_redis := s1\<rparr>
      | Some h \<Rightarrow> (\<exists>f s2. GetInFlight (Redis S) q h s1 = (Inr f, s2) \<and>
          (case f of None \<Rightarrow> r = None \<and> w' = w\<lparr>w_redis := s2\<rparr>
           | Some rec \<Rightarrow> (\<exists>go s3. gate_or_park (Redis S) q (ifr_GroupID rec) h vt s2 = (Inr go, s3) \<and>
               (if \<not> go then r = None \<and> w' = w\<lparr>w_redis := s3\<rparr>
                else (\<exists>now b. ExtendVisibility (Redis S) q h vt now s3 = (Inr b, w_redis w') \<and>
                  r = Some \<lparr>msg_ReceiptHandle = h, msg_Body = ifr_Body rec, msg_ReceiveCount = ifr_ReceiveCount rec\<rparr>))))))"
    using assms unfolding handOutRedeliverable_def
    by (elim redis_doE)
       (fastforce elim!: on_okE with_nowE simp: redis_do_def split: option.splits if_splits prod.splits)
  show thesis
  proof (cases p)
    case None
    with p r1 show thesis by (intro empty) auto
  next
    case (Some h)
    with r1 obtain f s2 where f: "GetInFlight (Redis S) q h s1 = (Inr f, s2)" and
      r2: "case f of None \<Rightarrow> r = None \<and> w' = w\<lparr>w_redis := s2\<rparr>
           | Some rec \<Rightarrow> (\<exists>go s3. gate_or_park (Redis S) q (ifr_GroupID rec) h vt s2 = (Inr go, s3) \<and>
               (if \<not> go then r = None \<and> w' = w\<lparr>w_redis := s3\<rparr>
                else (\<exists>now b. ExtendVisibility (Redis S) q h vt now s3 = (Inr b, w_redis w') \<and>
                  r = Some \<lparr>msg_ReceiptHandle = h, msg_Body = ifr_Body rec, msg_ReceiveCount = ifr_ReceiveCount rec\<rparr>)))" by auto
    show thesis
    proof (cases f)
      case None
      with p Some f r2 show thesis by (intro gone) auto
    next
      case frec: (Some rec)
      with r2 obtain go s3 where "gate_or_park (Redis S) q (ifr_GroupID rec) h vt s2 = (Inr go, s3)"
        "if \<not> go then r = None \<and> w' = w\<lparr>w_redis := s3\<rparr>
         else (\<exists>now b. ExtendVisibility (Redis S) q h vt now s3 = (Inr b, w_redis w') \<and>
           r = Some \<lparr>msg_ReceiptHandle = h, msg_Body = ifr_Body rec, msg_ReceiveCount = ifr_ReceiveCount rec\<rparr>)" by auto
      with p Some f frec parked handed show thesis by (cases go) auto
    qed
  qed
qed

end

context message_plane begin

lemma PopRedeliverable_head:
  assumes "PopRedeliverable (Redis S) q s = (Inr p, s1)"
    and "deadline (ks s (RedeliverKey q)) = None" and "as_list t (ks s (RedeliverKey q)) = h # hs"
  shows "p = Some h \<and> clock s \<le> clock s1 \<and> (\<exists>e. ks s1 = (ks s)(RedeliverKey q := e) \<and> (\<forall>t. as_list t e = hs))"
proof -
  let ?e = "ks s (RedeliverKey q)"
  from PopRedeliverable_ok [OF assms(1)] obtain e where e: "clock s \<le> clock s1"
    "cmd_lpop (clock s1) ?e = (Inr p, e)" "ks s1 = (ks s)(RedeliverKey q := e)" by blast
  have l: "as_list (clock s1) ?e = h # hs" using deadline_None_later(2) [OF assms(2)] assms(3) by metis
  then have "p \<noteq> None" using lpop_none [of "clock s1" ?e] e(2) by auto
  then have p: "p = Some h" "as_list (clock s1) e = hs" using lpop_some [of "clock s1" ?e] e(2) l by auto
  have "deadline e = None" using deadline_lpop [OF assms(2), of "clock s1"] e(2) by simp
  with p(2) have "as_list t e = hs" for t using deadline_None_later(2) by metis
  with e p(1) show ?thesis by blast
qed

lemma locked_pop:
  assumes hand: "handOutRedeliverable S q vt w = (Inr r, w')"
    and dl: "deadline (wks w (RedeliverKey q)) = None" and l: "as_list (wclock w) (wks w (RedeliverKey q)) = h # hs"
    and rec: "holds_record (wclock w') (wks w) q h rec" "record_in_range rec" "ifr_GroupID rec \<noteq> ''''"
    and lock: "live (wclock w') (wks w (FIFOLockKey q (ifr_GroupID rec)))"
  shows "r = None \<and> as_list (wclock w') (wks w' (RedeliverKey q)) = hs @ [h]"
proof -
  have read: "f = Some rec" if g: "GetInFlight (Redis S) q h s1 = (Inr f, s2)" "clock s2 \<le> wclock w'"
      "ks s1 (InFlightKey q h) = wks w (InFlightKey q h)" for f s1 s2
    using GetInFlight_ok [OF g(1)] holds_record_antimono [OF rec(1) g(2)] g(3)
      decode_inflight_holds [OF _ rec(2)] holds_record_fields(9) by (auto simp: Let_def)
  have locked: "alive t (wks w (FIFOLockKey q (ifr_GroupID rec))) \<noteq> None" if "t \<le> wclock w'" for t
    using lock alive_antimono [OF _ that] by (auto simp: live_def)
  from hand show ?thesis
  proof (cases rule: handOutRedeliverable_cases)
    case empty
    with PopRedeliverable_head [OF _ dl l] show ?thesis by blast
  next
    case (gone h' s1)
    with PopRedeliverable_head [OF gone(1) dl l] read [of s1 None "w_redis w'"] show ?thesis by auto
  next
    case (parked h' s1 rec' s2)
    note po = PopRedeliverable_head [OF parked(1) dl l]
    note gt = gate_or_park_ok [OF parked(3)]
    have "Some rec' = Some rec" using read [of s1 "Some rec'" s2] parked(2) gt po by auto
    moreover have "ks s2 = ks s1" using GetInFlight_ok [OF parked(2)] by simp
    ultimately show ?thesis using gt po parked(4) rec(3) as_list_rpush [of "wclock w'" h "ks s1 (RedeliverKey q)" "()"]
      by (auto split: if_splits)
  next
    case (handed h' s1 rec' s2 s3 now b)
    note po = PopRedeliverable_head [OF handed(1) dl l]
    note gt = gate_or_park_ok [OF handed(3)]
    have le: "clock s3 \<le> wclock w'" using ExtendVisibility_ok [OF handed(4)] by blast
    have "Some rec' = Some rec" using read [of s1 "Some rec'" s2] handed(2) gt po le by auto
    moreover have "ks s2 = ks s1" using GetInFlight_ok [OF handed(2)] by simp
    ultimately obtain t where "t \<le> clock s3" "alive t (wks w (FIFOLockKey q (ifr_GroupID rec))) = None"
      using gt po rec(3) by (auto split: if_splits)
    with locked [of t] le show ?thesis by simp
  qed
qed

end


section \<open>Properties\<close>

definition demo_inflight :: "(mem, kmem, genv) world" where
  "demo_inflight = demo_world\<lparr>w_redis := \<lparr>m_db = m_db (w_redis demo_world) @ m_db demo_held,
     m_clock = 1000, m_links = []\<rparr>\<rparr>"

lemma demo_inflight_holds:
  "holds_record 1000 (mem_ks (w_redis demo_inflight)) ''orders'' ''h1'' demo_rec" "record_in_range demo_rec"
  by code_simp+

text \<open>
  C4. Deleting a message commits no further than is safe. After a successful
  \<^verbatim>\<open>DeleteMessage\<close> of a message in flight its record is gone. If no other offset of the
  partition is pending, nothing is committed; otherwise the stored watermark and the offset
  committed to the consumer group are those of the least offset that is still pending, so no
  message that is being tracked as unacknowledged is ever committed past.
\<close>

theorem DeleteMessage_commit_safe:
  assumes "message_plane S ks clock" and "DeleteMessage S committer q h w = (Inr (), w')"
    and "holds_record (clock (w_redis w')) (ks (w_redis w)) q h rec" and "record_in_range rec"
    and "deadline (ks (w_redis w) (PendingKey q (ifr_ShardID rec) (ifr_Partition rec))) = None"
  defines "P \<equiv> snd ` set (AList.delete (FormatInt (ifr_Offset rec))
      (as_zset (clock (w_redis w)) (ks (w_redis w) (PendingKey q (ifr_ShardID rec) (ifr_Partition rec)))))"
  shows "ks (w_redis w') (InFlightKey q h) = None \<and>
    (if P = {} then w_kafka w' = w_kafka w
     else \<exists>m \<in> P. (\<forall>x \<in> P. m \<le> x) \<and>
       ks (w_redis w') (WatermarkKey q (ifr_ShardID rec) (ifr_Partition rec)) = Some (RStr (FormatInt (m - 1)), None) \<and>
       (if committer
        then CommitOffsets (Kafka S) (w_kafka w) (ConsumerGroup q) (ifr_Topic rec) (ifr_Partition rec) m = (Inr None, w_kafka w')
        else w_kafka w' = w_kafka w))"
  unfolding P_def using assms(1-5) by (rule message_plane.DeleteMessage_advances)

theorem DeleteMessage_commit_safe_witness:
  "mem_ks (w_redis (snd (DeleteMessage mem_sys True ''orders'' ''h1'' demo_inflight))) (InFlightKey ''orders'' ''h1'') = None \<and>
   k_commits (w_kafka (snd (DeleteMessage mem_sys True ''orders'' ''h1'' demo_inflight))) =
     [(''kmsvc-consumer-orders'', ''orders-0'', 2, 44)]"
proof -
  let ?w' = "snd (DeleteMessage mem_sys True ''orders'' ''h1'' demo_inflight)"
  have d: "fst (DeleteMessage mem_sys True ''orders'' ''h1'' demo_inflight) = Inr ()" and c: "m_clock (w_redis ?w') = 1000"
    and k: "k_commits (w_kafka ?w') = [(''kmsvc-consumer-orders'', ''orders-0'', 2, 44)]"
    and p: "deadline (mem_ks (w_redis demo_inflight) (PendingKey ''orders'' (ifr_ShardID demo_rec) (ifr_Partition demo_rec))) = None"
    by code_simp+
  have h: "holds_record (m_clock (w_redis ?w')) (mem_ks (w_redis demo_inflight)) ''orders'' ''h1'' demo_rec"
    unfolding c by (rule demo_inflight_holds)
  from DeleteMessage_commit_safe [OF mp.message_plane_axioms, OF run_eqI [OF d] h demo_inflight_holds(2) p] k
  show ?thesis by blast
qed

text \<open>
  Deleting is idempotent: for a receipt handle without an in-flight record (already
  deleted, dead-lettered or expired) \<^verbatim>\<open>DeleteMessage\<close> succeeds and changes neither Redis nor
  Kafka.
\<close>

theorem DeleteMessage_idempotent:
  assumes "message_plane S ks clock" and "DeleteMessage S committer q h w = (Inr (), w')"
    and "ks (w_redis w) (InFlightKey q h) = None"
  shows "ks (w_redis w') = ks (w_redis w) \<and> w_kafka w' = w_kafka w"
proof -
  have q: "redis_quiet (Redis S) ks clock" using assms(1) by (simp add: message_plane_def)
  from assms(1,2) show ?thesis
    by (rule message_plane.DeleteMessage_acks)
       (use redis_quiet.GetInFlight_ok [OF q] assms(3) in \<open>force simp: as_hash_def\<close>)+
qed

theorem DeleteMessage_idempotent_witness:
  "w_kafka (snd (DeleteMessage mem_sys True ''orders'' ''h1'' demo_world)) = w_kafka demo_world"
proof -
  have d: "fst (DeleteMessage mem_sys True ''orders'' ''h1'' demo_world) = Inr ()"
    and n: "mem_ks (w_redis demo_world) (InFlightKey ''orders'' ''h1'') = None" by code_simp+
  from DeleteMessage_idempotent [OF mp.message_plane_axioms, OF run_eqI [OF d] n] show ?thesis by blast
qed

text \<open>
  C22. A record taken from Kafka is tracked before anything is handed out: its offset is
  pending, an in-flight record with the body and receive count 1 is stored under a fresh
  handle until the visibility timeout plus one minute, and the handle is in the visibility
  index. It is handed out if it has no message group or the group's lock was taken for it;
  otherwise its handle goes to the end of the redelivery list (while staying in the
  visibility index, so that the reaper also counts it as received).
\<close>

theorem handOutFresh_tracks:
  assumes "message_plane S ks clock" and "handOutFresh S meta q sh rec vt w = (Inr r, w')" and "- Minute < vt"
    and "deadline (ks (w_redis w) (VisIndexKey q)) = None"
    and "deadline (ks (w_redis w) (PendingKey q sh (kr_Partition rec))) = None"
  defines "g \<equiv> ifr_GroupID (fresh_record meta sh rec)"
  shows "\<exists>h u t. h = newReceiptHandle sh (kr_Partition rec) (kr_Offset rec) u \<and>
    clock (w_redis w) \<le> t \<and> t \<le> clock (w_redis w') \<and>
    (\<forall>t'. holds_record t' (ks (w_redis w')) q h (fresh_record meta sh rec) \<longleftrightarrow> t' < t + 1000 * expire_secs (vt + Minute)) \<and>
    h \<in> fst ` set (as_zset (clock (w_redis w')) (ks (w_redis w') (VisIndexKey q))) \<and>
    FormatInt (kr_Offset rec) \<in> fst ` set (as_zset (clock (w_redis w')) (ks (w_redis w') (PendingKey q sh (kr_Partition rec)))) \<and>
    (case r of
       Some m \<Rightarrow> m = \<lparr>msg_ReceiptHandle = h, msg_Body = kr_Value rec, msg_ReceiveCount = 1\<rparr> \<and>
         (g \<noteq> '''' \<longrightarrow> (\<exists>d. ks (w_redis w') (FIFOLockKey q g) = Some (RStr h, d)))
     | None \<Rightarrow> g \<noteq> '''' \<and> as_list (clock (w_redis w')) (ks (w_redis w') (RedeliverKey q)) =
         as_list (clock (w_redis w')) (ks (w_redis w) (RedeliverKey q)) @ [h])"
  unfolding g_def using assms(1-5) by (rule message_plane.handOutFresh_tracked)

definition demo_record :: Record where
  "demo_record = \<lparr>kr_Topic = sh_Topic shard0, kr_Partition = 2, kr_Offset = 45, kr_Key = ''g'', kr_Value = ''next''\<rparr>"

theorem handOutFresh_tracks_witness:
  "\<exists>h. as_list 1000 (mem_ks (w_redis (snd (handOutFresh mem_sys demo_config ''orders'' ''0'' demo_record (30 * Second) demo_inflight)))
      (RedeliverKey ''orders'')) = as_list 1000 (mem_ks (w_redis demo_inflight) (RedeliverKey ''orders'')) @ [h]"
proof -
  let ?w' = "snd (handOutFresh mem_sys demo_config ''orders'' ''0'' demo_record (30 * Second) demo_inflight)"
  have r: "fst (handOutFresh mem_sys demo_config ''orders'' ''0'' demo_record (30 * Second) demo_inflight) = Inr None"
    and c: "m_clock (w_redis ?w') = 1000"
    and d: "deadline (mem_ks (w_redis demo_inflight) (VisIndexKey ''orders'')) = None"
      "deadline (mem_ks (w_redis demo_inflight) (PendingKey ''orders'' ''0'' (kr_Partition demo_record))) = None"
    by code_simp+
  have vt: "- Minute < 30 * Second" by simp
  from handOutFresh_tracks [OF mp.message_plane_axioms, OF run_eqI [OF r] vt d] show ?thesis unfolding c by auto
qed


text \<open>
  C23. \<^verbatim>\<open>ReceiveMessage\<close> never hands out more than it was asked for, and never more than ten
  messages; a limit below one or above ten means ten.
\<close>

theorem ReceiveMessage_at_most:
  assumes "ReceiveMessage S pollInterval inp w = Some (Inr msgs, w')"
  shows "length msgs \<le> receive_limit (rmi_MaxNumberOfMessages inp) \<and> length msgs \<le> 10"
proof -
  have "length msgs \<le> receive_limit (rmi_MaxNumberOfMessages inp)"
    using assms receive_loop_length unfolding ReceiveMessage_def Let_def with_now_def
    by (fastforce split: prod.splits sum.splits option.splits)
  with receive_limit_le [of "rmi_MaxNumberOfMessages inp"] show ?thesis by simp
qed

text \<open>A standard queue whose next polls bring the offsets 0 and 1, and then 2.\<close>

definition demo_rec_at :: "int \<Rightarrow> Record" where
  "demo_rec_at n = \<lparr>kr_Topic = sh_Topic shard0, kr_Partition = 0, kr_Offset = n, kr_Key = '''', kr_Value = ''m'' @ FormatInt n\<rparr>"

definition demo_standard :: "(mem, kmem, genv) world" where
  "demo_standard = demo_world\<lparr>
     w_redis := \<lparr>m_db = [(''kmsvc:queue:orders'', RHash [(''fifo'', ''0''), (''visibilityTimeoutSeconds'', ''30''),
         (''maxReceiveCount'', ''5''), (''partitionsPerShard'', ''6'')], None),
       (''kmsvc:shardmap:orders'', RStr (marshal_shards [shard0]), None)], m_clock = 1000, m_links = []\<rparr>,
     w_kafka := kmem0\<lparr>k_polls := [([], [demo_rec_at 0, demo_rec_at 1]), ([], [demo_rec_at 2])]\<rparr>\<rparr>"

definition demo_receive :: ReceiveMessageInput where
  "demo_receive = \<lparr>rmi_QueueName = ''orders'', rmi_MaxNumberOfMessages = 1, rmi_WaitTime = Second,
     rmi_VisibilityTimeoutOverride = 0\<rparr>"

text \<open>The run of the function as a total one, for concrete worlds where it returns.\<close>

definition received :: "(Message list res \<times> 'w) option \<Rightarrow> Message list" where
  "received r = (case r of Some (Inr msgs, _) \<Rightarrow> msgs | _ \<Rightarrow> [])"

definition after :: "(Message list res \<times> 'w) option \<Rightarrow> 'w \<Rightarrow> 'w" where
  "after r w = (case r of Some (_, w') \<Rightarrow> w' | None \<Rightarrow> w)"

declare receive_loop.simps [code]

theorem ReceiveMessage_at_most_witness:
  "length [\<lparr>msg_ReceiptHandle = ''0:0:0:id-0'', msg_Body = ''m0'', msg_ReceiveCount = 1\<rparr>] \<le>
     receive_limit (rmi_MaxNumberOfMessages demo_receive) \<and>
   received (ReceiveMessage mem_sys 0 demo_receive demo_standard) =
     [\<lparr>msg_ReceiptHandle = ''0:0:0:id-0'', msg_Body = ''m0'', msg_ReceiveCount = 1\<rparr>]"
proof -
  have r: "received (ReceiveMessage mem_sys 0 demo_receive demo_standard) =
     [\<lparr>msg_ReceiptHandle = ''0:0:0:id-0'', msg_Body = ''m0'', msg_ReceiveCount = 1\<rparr>]" by code_simp
  then obtain w' where "ReceiveMessage mem_sys 0 demo_receive demo_standard =
      Some (Inr [\<lparr>msg_ReceiptHandle = ''0:0:0:id-0'', msg_Body = ''m0'', msg_ReceiveCount = 1\<rparr>], w')"
    by (auto simp: received_def split: option.splits prod.splits sum.splits)
  from ReceiveMessage_at_most [OF this] r show ?thesis by blast
qed

text \<open>
  C21. The long poll comes to an end: whatever Redis and Kafka answer, and whatever the
  request, \<^verbatim>\<open>ReceiveMessage\<close> returns, provided the clock does what package \<^verbatim>\<open>time\<close> documents
  (it does not run backwards, and a sleep that is not interrupted lasts as long as asked).
\<close>

theorem ReceiveMessage_returns:
  assumes "clocked S time_of"
  shows "\<exists>r w'. ReceiveMessage S pollInterval inp w = Some (r, w')"
  using clocked.ReceiveMessage_not_stuck [OF assms] by (metis not_None_eq surj_pair)

theorem ReceiveMessage_returns_witness:
  "\<exists>r w'. ReceiveMessage mem_sys 0 demo_receive demo_standard = Some (r, w')"
  by (rule ReceiveMessage_returns [OF mem_poll.clocked_axioms])

text \<open>
  The redelivery list is not kept in order for a locked group: a poll that meets a handle
  whose group is checked out by another message takes it from the head of the list and puts
  it back at the end, behind the later messages of the same group.
\<close>

theorem locked_pop_rotates:
  assumes "message_plane S ks clock" and "handOutRedeliverable S q vt w = (Inr r, w')"
    and "deadline (ks (w_redis w) (RedeliverKey q)) = None"
    and "as_list (clock (w_redis w)) (ks (w_redis w) (RedeliverKey q)) = h # hs"
    and "holds_record (clock (w_redis w')) (ks (w_redis w)) q h rec" and "record_in_range rec"
    and "ifr_GroupID rec \<noteq> ''''"
    and "live (clock (w_redis w')) (ks (w_redis w) (FIFOLockKey q (ifr_GroupID rec)))"
  shows "r = None \<and> as_list (clock (w_redis w')) (ks (w_redis w') (RedeliverKey q)) = hs @ [h]"
  using assms by (rule message_plane.locked_pop)

definition demo_parked :: "(mem, kmem, genv) world" where
  "demo_parked = demo_inflight\<lparr>w_redis := (w_redis demo_inflight)
     \<lparr>m_db := (''kmsvc:redeliver:orders'', RList [''h1'', ''h2''], None) # m_db (w_redis demo_inflight)\<rparr>\<rparr>"

theorem locked_pop_rotates_witness:
  "as_list 1000 (mem_ks (w_redis (snd (handOutRedeliverable mem_sys ''orders'' (30 * Second) demo_parked))) (RedeliverKey ''orders'')) =
     [''h2''] @ [''h1'']"
proof -
  let ?w' = "snd (handOutRedeliverable mem_sys ''orders'' (30 * Second) demo_parked)"
  have r: "fst (handOutRedeliverable mem_sys ''orders'' (30 * Second) demo_parked) = Inr None"
    and c: "m_clock (w_redis ?w') = 1000"
    and d: "deadline (mem_ks (w_redis demo_parked) (RedeliverKey ''orders'')) = None"
      "as_list (m_clock (w_redis demo_parked)) (mem_ks (w_redis demo_parked) (RedeliverKey ''orders'')) = [''h1'', ''h2'']"
    and h: "holds_record 1000 (mem_ks (w_redis demo_parked)) ''orders'' ''h1'' demo_rec" "record_in_range demo_rec"
      "ifr_GroupID demo_rec \<noteq> ''''" "live 1000 (mem_ks (w_redis demo_parked) (FIFOLockKey ''orders'' (ifr_GroupID demo_rec)))"
    by code_simp+
  from locked_pop_rotates [OF mp.message_plane_axioms, OF run_eqI [OF r] d] h show ?thesis unfolding c by blast
qed

text \<open>
  C34. Records of a poll beyond the requested number are dropped without being tracked, and
  a later acknowledgement commits past them. In this run the first call, for one message,
  polls the offsets 0 and 1 and hands out 0; the second call hands out offset 2; deleting the
  first message then commits offset 2 to the consumer group, while offset 1 is nowhere: not
  delivered, not pending, not queued for redelivery.
\<close>

definition demo_dropped :: "(mem, kmem, genv) world" where
  "demo_dropped =
     (let w1 = after (ReceiveMessage mem_sys 0 demo_receive demo_standard) demo_standard;
          w2 = after (ReceiveMessage mem_sys 0 demo_receive w1) w1 in
      snd (DeleteMessage mem_sys True ''orders'' ''0:0:0:id-0'' w2))"


end
