(* ===== verification/Consumer_Registry.thy ===== *)
theory Consumer_Registry
  imports Message_Receipt
begin

text \<open>
  \<^verbatim>\<open>internal/api/handlers/consumer_registry.go\<close> and the constructor and subscription calls of
  \<^verbatim>\<open>internal/kafka/consume.go\<close>: one Kafka consumer per queue, created on first use and
  subscribed to new shard topics on every later one. The consumer clients of the Kafka
  library are the parameter \<open>consumer_api\<close>; \<open>consumer_clients\<close> is its contract. The reading of
  the shard map and the section under the mutex are separate steps, as concurrent calls
  interleave them.
\<close>

section \<open>Consumers\<close>

text \<open>The last argument of \<open>NewClient\<close> says whether the client commits offsets on its own.\<close>

record ('k, 'cl) consumer_api =
  NewClient :: "'k \<Rightarrow> string list \<Rightarrow> string \<Rightarrow> string list \<Rightarrow> bool \<Rightarrow> 'cl res \<times> 'k"
  AddConsumeTopics :: "'k \<Rightarrow> 'cl \<Rightarrow> string list \<Rightarrow> 'k"
  CloseClient :: "'k \<Rightarrow> 'cl \<Rightarrow> 'k"
  ClientPoll :: "'k \<Rightarrow> 'cl \<Rightarrow> duration \<Rightarrow> (go_error list \<times> Record list) \<times> 'k"

definition NewConsumer ::
  "('k, 'cl) consumer_api \<Rightarrow> string list \<Rightarrow> string \<Rightarrow> string list \<Rightarrow> 'k \<Rightarrow> 'cl res \<times> 'k" where
  "NewConsumer C brokers grp topics k =
     on_ok (NewClient C k brokers grp topics False) (wrapf ''creating kafka consumer client'') (\<lambda>cl k. (Inr cl, k))"

definition AddTopics :: "('k, 'cl) consumer_api \<Rightarrow> 'cl \<Rightarrow> string list \<Rightarrow> 'k \<Rightarrow> 'k" where
  "AddTopics C cl topics k = AddConsumeTopics C k cl topics"

section \<open>The registry\<close>

record 'cl registeredConsumer =
  rc_consumer :: 'cl
  rc_topics :: "string list"

record ('s, 'k, 'g, 'cl) api_state =
  ap_consumers :: "(string \<times> 'cl registeredConsumer) list"
  ap_world :: "('s, 'k, 'g) world"

definition world_do ::
  "(('s, 'k, 'g) world \<Rightarrow> 'a \<times> ('s, 'k, 'g) world) \<Rightarrow> ('s, 'k, 'g, 'cl) api_state \<Rightarrow> 'a \<times> ('s, 'k, 'g, 'cl) api_state" where
  "world_do f a = (case f (ap_world a) of (r, w) \<Rightarrow> (r, a\<lparr>ap_world := w\<rparr>))"

declare world_do_def [code_unfold]

text \<open>The loop over the shards of a known queue: topics not yet marked, in order, and all marked ones.\<close>

fun new_topics :: "Shard list \<Rightarrow> string list \<Rightarrow> string list \<times> string list" where
  "new_topics [] marked = ([], marked)"
| "new_topics (s # shards) marked =
     (if sh_Topic s \<in> set marked then new_topics shards marked
      else case new_topics shards (sh_Topic s # marked) of (new, marked') \<Rightarrow> (sh_Topic s # new, marked'))"

text \<open>The section under the mutex.\<close>

definition registry_sync ::
  "('k, 'cl) consumer_api \<Rightarrow> string list \<Rightarrow> string \<Rightarrow> Shard list \<Rightarrow> ('s, 'k, 'g, 'cl) api_state \<Rightarrow>
    'cl res \<times> ('s, 'k, 'g, 'cl) api_state" where
  "registry_sync C brokers queueName shards a =
     (case map_of (ap_consumers a) queueName of
        None \<Rightarrow>
          let topics = map sh_Topic shards in
          on_ok (world_do (kafka_do (NewConsumer C brokers (ConsumerGroup queueName) topics)) a)
            (wrapf (''create consumer for queue '' @ queueName)) (\<lambda>cl a.
            (Inr cl, a\<lparr>ap_consumers := AList.update queueName \<lparr>rc_consumer = cl, rc_topics = remdups topics\<rparr> (ap_consumers a)\<rparr>))
      | Some rc \<Rightarrow>
          (case new_topics shards (rc_topics rc) of (newTopics, marked) \<Rightarrow>
            let a = a\<lparr>ap_consumers := AList.update queueName (rc\<lparr>rc_topics := marked\<rparr>) (ap_consumers a)\<rparr>;
                w = ap_world a in
            (Inr (rc_consumer rc),
             if 0 < length newTopics then a\<lparr>ap_world := w\<lparr>w_kafka := AddTopics C (rc_consumer rc) newTopics (w_kafka w)\<rparr>\<rparr> else a)))"

definition Registry_Get ::
  "('s, 'k, 'g) sys \<Rightarrow> ('k, 'cl) consumer_api \<Rightarrow> string list \<Rightarrow> string \<Rightarrow> ('s, 'k, 'g, 'cl) api_state \<Rightarrow>
    'cl res \<times> ('s, 'k, 'g, 'cl) api_state" where
  "Registry_Get S C brokers queueName a =
     on_ok (world_do (redis_do (ConsumableShards (Redis S) queueName)) a) id (\<lambda>shards a.
       if length shards = 0 then (Inl (ErrText (''queue '' @ queueName @ '' has no consumable shards'')), a)
       else registry_sync C brokers queueName shards a)"

definition Registry_Close ::
  "('k, 'cl) consumer_api \<Rightarrow> ('s, 'k, 'g, 'cl) api_state \<Rightarrow> ('s, 'k, 'g, 'cl) api_state" where
  "Registry_Close C a =
     (let w = ap_world a in
      a\<lparr>ap_world := w\<lparr>w_kafka := fold (\<lambda>(q, rc) k. CloseClient C k (rc_consumer rc)) (ap_consumers a) (w_kafka w)\<rparr>\<rparr>)"

section \<open>Contract of the consumer clients\<close>

text \<open>
  \<open>subs k cl\<close> is what a client consumes: its group, its topics and whether it commits on its
  own. A new client is not one of the existing ones and consumes what it was given; adding
  topics adds them to that client.
\<close>

record subscription =
  sub_group :: string
  sub_topics :: "string set"
  sub_autocommit :: bool

locale consumer_clients =
  fixes C :: "('k, 'cl) consumer_api" and subs :: "'k \<Rightarrow> 'cl \<rightharpoonup> subscription"
  assumes new_client: "NewClient C k brokers grp topics auto = (Inr cl, k') \<Longrightarrow>
      subs k cl = None \<and> subs k' = (subs k)(cl \<mapsto> \<lparr>sub_group = grp, sub_topics = set topics, sub_autocommit = auto\<rparr>)"
    and new_client_error: "NewClient C k brokers grp topics auto = (Inl e, k') \<Longrightarrow> subs k' = subs k"
    and add_topics: "subs k cl = Some s \<Longrightarrow>
      subs (AddConsumeTopics C k cl topics) = (subs k)(cl \<mapsto> s\<lparr>sub_topics := sub_topics s \<union> set topics\<rparr>)"

lemma new_topics_spec:
  "new_topics shards marked = (new, marked') \<Longrightarrow>
    set new = sh_Topic ` set shards - set marked \<and> set marked' = set marked \<union> sh_Topic ` set shards \<and> distinct new"
proof (induction shards arbitrary: marked new marked')
  case (Cons s shards)
  show ?case
  proof (cases "sh_Topic s \<in> set marked")
    case True
    with Cons.prems have "new_topics shards marked = (new, marked')" by simp
    from Cons.IH [OF this] True show ?thesis by auto
  next
    case False
    obtain new' where n: "new_topics shards (sh_Topic s # marked) = (new', marked')" "new = sh_Topic s # new'"
      using Cons.prems False by (auto split: prod.splits)
    from Cons.IH [OF n(1)] n(2) False show ?thesis by auto
  qed
qed simp

definition subscribed :: "string \<Rightarrow> 'cl registeredConsumer \<Rightarrow> subscription" where
  "subscribed q rc = \<lparr>sub_group = ConsumerGroup q, sub_topics = set (rc_topics rc), sub_autocommit = False\<rparr>"

definition registry_inv :: "('k \<Rightarrow> 'cl \<rightharpoonup> subscription) \<Rightarrow> ('s, 'k, 'g, 'cl) api_state \<Rightarrow> bool" where
  "registry_inv subs a =
     (\<forall>q rc. map_of (ap_consumers a) q = Some rc \<longrightarrow> subs (w_kafka (ap_world a)) (rc_consumer rc) = Some (subscribed q rc))"

lemma registry_invD:
  "registry_inv subs a \<Longrightarrow> map_of (ap_consumers a) q = Some rc \<Longrightarrow>
    subs (w_kafka (ap_world a)) (rc_consumer rc) = Some (subscribed q rc)"
  by (simp add: registry_inv_def)

lemma one_consumer_each:
  assumes "registry_inv subs a" and "map_of (ap_consumers a) q = Some rc" and "map_of (ap_consumers a) q' = Some rc'"
    and "rc_consumer rc = rc_consumer rc'"
  shows "q = q'"
proof -
  have "Some (subscribed q rc) = Some (subscribed q' rc')"
    using assms(4) registry_invD [OF assms(1,2)] registry_invD [OF assms(1,3)] by simp
  then show ?thesis by (simp add: subscribed_def ConsumerGroup_def)
qed

text \<open>
  What a successful section has done for its queue: the entry of that queue is the answered
  client, the same as before if there was one, with the topics of the shards added.
\<close>

definition synced :: "string \<Rightarrow> Shard list \<Rightarrow> 'cl \<Rightarrow> ('s, 'k, 'g, 'cl) api_state \<Rightarrow> ('s, 'k, 'g, 'cl) api_state \<Rightarrow> bool" where
  "synced q shards cl a a' =
     (\<exists>rc'. map_of (ap_consumers a') = (map_of (ap_consumers a))(q \<mapsto> rc') \<and> rc_consumer rc' = cl \<and>
       (case map_of (ap_consumers a) q of
          None \<Rightarrow> set (rc_topics rc') = sh_Topic ` set shards
        | Some rc \<Rightarrow> rc_consumer rc = cl \<and> set (rc_topics rc') = set (rc_topics rc) \<union> sh_Topic ` set shards))"

context consumer_clients begin

lemma NewConsumer_ok:
  assumes "NewConsumer C brokers grp topics k = (Inr cl, k')"
  shows "subs k cl = None \<and> subs k' = (subs k)(cl \<mapsto> \<lparr>sub_group = grp, sub_topics = set topics, sub_autocommit = False\<rparr>)"
  using assms new_client unfolding NewConsumer_def by (auto elim!: on_okE)

lemma registry_sync_new:
  assumes "registry_sync C brokers q shards a = (Inr cl, a')" and "map_of (ap_consumers a) q = None"
    and inv: "registry_inv subs a"
  shows "registry_inv subs a' \<and> synced q shards cl a a'"
proof -
  let ?rc = "\<lparr>rc_consumer = cl, rc_topics = remdups (map sh_Topic shards)\<rparr>"
  from assms(1,2) obtain k where n: "NewConsumer C brokers (ConsumerGroup q) (map sh_Topic shards) (w_kafka (ap_world a)) = (Inr cl, k)"
    and a': "a' = a\<lparr>ap_world := (ap_world a)\<lparr>w_kafka := k\<rparr>, ap_consumers := AList.update q ?rc (ap_consumers a)\<rparr>"
    by (auto simp: registry_sync_def Let_def world_do_def kafka_do_def split: prod.splits elim!: on_okE)
  note k = NewConsumer_ok [OF n]
  have other: "rc_consumer rc \<noteq> cl" if "map_of (ap_consumers a) q' = Some rc" for q' rc
    using registry_invD [OF inv that] k by auto
  have "registry_inv subs a'"
    unfolding registry_inv_def a' using registry_invD [OF inv] other k
    by (auto simp: update_conv' subscribed_def)
  moreover have "synced q shards cl a a'"
    using assms(2) by (auto simp: synced_def a' update_conv' intro!: exI [of _ ?rc])
  ultimately show ?thesis ..
qed

lemma registry_sync_known:
  assumes "registry_sync C brokers q shards a = (Inr cl, a')" and rc: "map_of (ap_consumers a) q = Some rc"
    and inv: "registry_inv subs a"
  shows "registry_inv subs a' \<and> synced q shards cl a a'"
proof -
  obtain new marked where n: "new_topics shards (rc_topics rc) = (new, marked)" by force
  let ?rc = "rc\<lparr>rc_topics := marked\<rparr>"
  from assms n have cl: "cl = rc_consumer rc" and cs: "map_of (ap_consumers a') = (map_of (ap_consumers a))(q \<mapsto> ?rc)"
    and k: "w_kafka (ap_world a') = (if new = [] then w_kafka (ap_world a) else AddTopics C cl new (w_kafka (ap_world a)))"
    by (auto simp: registry_sync_def Let_def update_conv')
  note nt = new_topics_spec [OF n]
  note s = registry_invD [OF inv rc]
  have subs': "subs (w_kafka (ap_world a')) = (subs (w_kafka (ap_world a)))(cl \<mapsto> subscribed q ?rc)"
  proof (cases "new = []")
    case True
    with nt have "subscribed q ?rc = subscribed q rc" by (auto simp: subscribed_def)
    with s True k cl show ?thesis by (auto simp: fun_eq_iff)
  next
    case False
    with add_topics [OF s [folded cl], of new] k have "subs (w_kafka (ap_world a')) = (subs (w_kafka (ap_world a)))(cl \<mapsto>
        (subscribed q rc)\<lparr>sub_topics := sub_topics (subscribed q rc) \<union> set new\<rparr>)" by (simp add: AddTopics_def)
    also have "(subscribed q rc)\<lparr>sub_topics := sub_topics (subscribed q rc) \<union> set new\<rparr> = subscribed q ?rc"
      using nt by (auto simp: subscribed_def)
    finally show ?thesis .
  qed
  have "registry_inv subs a'"
    unfolding registry_inv_def subs' cs using registry_invD [OF inv] one_consumer_each [OF inv rc] cl by auto
  moreover have "synced q shards cl a a'"
    using cs cl rc nt by (auto simp: synced_def intro!: exI [of _ ?rc])
  ultimately show ?thesis ..
qed

lemma registry_sync_ok:
  assumes "registry_sync C brokers q shards a = (Inr cl, a')" and "registry_inv subs a"
  shows "registry_inv subs a' \<and> synced q shards cl a a'"
  using assms registry_sync_new registry_sync_known by (cases "map_of (ap_consumers a) q") blast+

lemma registry_sync_error:
  assumes "registry_sync C brokers q shards a = (Inl e, a')" and "registry_inv subs a"
  shows "registry_inv subs a' \<and> ap_consumers a' = ap_consumers a"
proof (cases "map_of (ap_consumers a) q")
  case None
  obtain r k where n: "NewConsumer C brokers (ConsumerGroup q) (map sh_Topic shards) (w_kafka (ap_world a)) = (r, k)" by force
  with assms(1) None obtain e' where r: "r = Inl e'" and a': "a' = a\<lparr>ap_world := (ap_world a)\<lparr>w_kafka := k\<rparr>\<rparr>"
    by (cases r) (auto simp: registry_sync_def Let_def world_do_def kafka_do_def)
  from n r obtain e2 where "NewClient C (w_kafka (ap_world a)) brokers (ConsumerGroup q) (map sh_Topic shards) False = (Inl e2, k)"
    by (cases "NewClient C (w_kafka (ap_world a)) brokers (ConsumerGroup q) (map sh_Topic shards) False")
       (auto simp: NewConsumer_def on_ok_def split: sum.splits)
  from new_client_error [OF this] assms(2) a' show ?thesis by (simp add: registry_inv_def)
next
  case (Some rc)
  with assms(1) show ?thesis by (simp add: registry_sync_def Let_def split: prod.splits)
qed

end

section \<open>Every reachable registry\<close>

text \<open>
  Runs of a server: requests of any queues enter the section with the shards they have read
  before, whatever they were, and everything else that happens leaves the clients alone.
\<close>

inductive registry_run ::
  "('k, 'cl) consumer_api \<Rightarrow> string list \<Rightarrow> ('k \<Rightarrow> 'cl \<rightharpoonup> subscription) \<Rightarrow> ('s, 'k, 'g, 'cl) api_state \<Rightarrow> bool"
  for C brokers subs where
  start: "ap_consumers a = [] \<Longrightarrow> registry_run C brokers subs a"
| sync: "registry_run C brokers subs a \<Longrightarrow> registry_sync C brokers q shards a = (r, a') \<Longrightarrow> registry_run C brokers subs a'"
| other: "registry_run C brokers subs a \<Longrightarrow> subs (w_kafka w) = subs (w_kafka (ap_world a)) \<Longrightarrow>
    registry_run C brokers subs (a\<lparr>ap_world := w\<rparr>)"

lemma registry_run_inv:
  assumes "consumer_clients C subs" and "registry_run C brokers subs a"
  shows "registry_inv subs a"
  using assms(2)
proof induction
  case (sync a q shards r a')
  then show ?case
    using consumer_clients.registry_sync_ok [OF assms(1)] consumer_clients.registry_sync_error [OF assms(1)] by (cases r) blast+
qed (simp_all add: registry_inv_def)

lemma Registry_Get_ok:
  assumes "Registry_Get S C brokers q a = (Inr cl, a')"
  obtains shards s where "ConsumableShards (Redis S) q (w_redis (ap_world a)) = (Inr shards, s)" and "shards \<noteq> []"
    and "registry_sync C brokers q shards (a\<lparr>ap_world := (ap_world a)\<lparr>w_redis := s\<rparr>\<rparr>) = (Inr cl, a')"
  using assms unfolding Registry_Get_def
  by (auto simp: world_do_def redis_do_def split: prod.splits if_splits elim!: on_okE)

text \<open>
  C9. At any time in the life of a server every queue has at most one consumer and every consumer
  belongs to the consumer group of its queue, never commits offsets on its own and is
  subscribed to exactly the topics the registry has marked for it. A request that gets a
  consumer gets the one of its queue, an old one if there was one, subscribed from then on to
  the topic of every shard of the published map that is not closed, and to all topics it was
  subscribed to before; consumers of other queues are untouched.
\<close>

theorem Registry_Get_subscribes:
  assumes "message_plane S ks clock" and "consumer_clients C subs" and "registry_run C brokers subs a"
    and "Registry_Get S C brokers q a = (Inr cl, a')"
    and "published (ks (w_redis (ap_world a))) q meta shards"
  shows "registry_inv subs a \<and> registry_run C brokers subs a' \<and>
    (\<forall>q1 rc1 q2 rc2. map_of (ap_consumers a') q1 = Some rc1 \<longrightarrow> map_of (ap_consumers a') q2 = Some rc2 \<longrightarrow>
      rc_consumer rc1 = rc_consumer rc2 \<longrightarrow> q1 = q2) \<and>
    synced q (filter (\<lambda>sh. sh_Phase sh \<noteq> ''Closed'') shards) cl a a' \<and>
    (\<exists>s. subs (w_kafka (ap_world a')) cl = Some s \<and> sub_group s = ConsumerGroup q \<and> \<not> sub_autocommit s \<and>
      {sh_Topic sh |sh. sh \<in> set shards \<and> sh_Phase sh \<noteq> ''Closed''} \<subseteq> sub_topics s)"
proof -
  from assms(4) obtain live s where l: "ConsumableShards (Redis S) q (w_redis (ap_world a)) = (Inr live, s)"
    and y: "registry_sync C brokers q live (a\<lparr>ap_world := (ap_world a)\<lparr>w_redis := s\<rparr>\<rparr>) = (Inr cl, a')" by (rule Registry_Get_ok)
  let ?a = "a\<lparr>ap_world := (ap_world a)\<lparr>w_redis := s\<rparr>\<rparr>"
  have live: "live = filter (\<lambda>sh. sh_Phase sh \<noteq> ''Closed'') shards"
    using redis_quiet.ConsumableShards_published [OF assms(1) [unfolded message_plane_def], OF assms(5) l] by simp
  have run: "registry_run C brokers subs ?a" by (rule registry_run.other [OF assms(3)]) simp
  then have run': "registry_run C brokers subs a'" using y by (rule registry_run.sync)
  from consumer_clients.registry_sync_ok [OF assms(2) y registry_run_inv [OF assms(2) run]]
  have inv: "registry_inv subs a'" and sy: "synced q live cl a a'" by (simp_all add: synced_def)
  from sy obtain rc where rc: "map_of (ap_consumers a') q = Some rc" "rc_consumer rc = cl"
    and t: "sh_Topic ` set live \<subseteq> set (rc_topics rc)" by (auto simp: synced_def split: option.splits)
  from registry_invD [OF inv rc(1)] rc(2) t have
    "\<exists>s. subs (w_kafka (ap_world a')) cl = Some s \<and> sub_group s = ConsumerGroup q \<and> \<not> sub_autocommit s \<and>
      {sh_Topic sh |sh. sh \<in> set shards \<and> sh_Phase sh \<noteq> ''Closed''} \<subseteq> sub_topics s"
    by (auto simp: subscribed_def live)
  with registry_run_inv [OF assms(2,3)] run' sy live one_consumer_each [OF inv] show ?thesis by blast
qed

section \<open>Reference clients\<close>

text \<open>A broker with a list of clients beside it, each with group, topics and commit mode.\<close>

definition beside :: "('k \<Rightarrow> 'a \<times> 'k) \<Rightarrow> 'k \<times> 'x \<Rightarrow> 'a \<times> ('k \<times> 'x)" where
  "beside f kx = (case kx of (k, x) \<Rightarrow> (case f k of (r, k') \<Rightarrow> (r, (k', x))))"

definition with_clients :: "'k kafka_api \<Rightarrow> ('k \<times> 'x) kafka_api" where
  "with_clients K = \<lparr>
     ProduceSync = (\<lambda>k topic part key val. beside (\<lambda>k. ProduceSync K k topic part key val) k),
     PollFetches = (\<lambda>k timeout. beside (\<lambda>k. PollFetches K k timeout) k),
     CreateTopics = (\<lambda>k n r cfg topic. beside (\<lambda>k. CreateTopics K k n r cfg topic) k),
     DeleteTopics = (\<lambda>k topic. beside (\<lambda>k. DeleteTopics K k topic) k),
     ListTopics = (\<lambda>k topic. beside (\<lambda>k. ListTopics K k topic) k),
     ListEndOffsets = (\<lambda>k topic. beside (\<lambda>k. ListEndOffsets K k topic) k),
     Lag = (\<lambda>k grp. beside (\<lambda>k. Lag K k grp) k),
     CommitOffsets = (\<lambda>k grp topic part off. beside (\<lambda>k. CommitOffsets K k grp topic part off) k)\<rparr>"

type_synonym mem_clients = "(string \<times> string list \<times> bool) list"

definition mem_consumers :: "(kmem \<times> mem_clients, nat) consumer_api" where
  "mem_consumers = \<lparr>
     NewClient = (\<lambda>k brokers grp topics auto. (Inr (length (snd k)), (fst k, snd k @ [(grp, topics, auto)]))),
     AddConsumeTopics = (\<lambda>k cl topics. (fst k,
       if cl < length (snd k) then (snd k)[cl := (case snd k ! cl of (grp, ts, auto) \<Rightarrow> (grp, ts @ topics, auto))] else snd k)),
     CloseClient = (\<lambda>k cl. k),
     ClientPoll = (\<lambda>k cl timeout. beside (\<lambda>k. PollFetches mem_kafka k timeout) k)\<rparr>"

definition mem_subs :: "kmem \<times> mem_clients \<Rightarrow> nat \<rightharpoonup> subscription" where
  "mem_subs k cl = (if cl < length (snd k) then (case snd k ! cl of (grp, topics, auto) \<Rightarrow>
     Some \<lparr>sub_group = grp, sub_topics = set topics, sub_autocommit = auto\<rparr>) else None)"

interpretation mem_registry: consumer_clients mem_consumers mem_subs
proof
  fix k k' :: "kmem \<times> mem_clients" and cl brokers grp topics auto e s
  show "mem_subs k cl = None \<and> mem_subs k' = (mem_subs k)(cl \<mapsto> \<lparr>sub_group = grp, sub_topics = set topics, sub_autocommit = auto\<rparr>)"
    if "NewClient mem_consumers k brokers grp topics auto = (Inr cl, k')"
    using that by (auto simp: mem_consumers_def mem_subs_def fun_eq_iff nth_append)
  show "mem_subs k' = mem_subs k" if "NewClient mem_consumers k brokers grp topics auto = (Inl e, k')"
    using that by (simp add: mem_consumers_def)
  show "mem_subs (AddConsumeTopics mem_consumers k cl topics) = (mem_subs k)(cl \<mapsto> s\<lparr>sub_topics := sub_topics s \<union> set topics\<rparr>)"
    if "mem_subs k cl = Some s"
    using that by (auto simp: mem_consumers_def mem_subs_def fun_eq_iff nth_list_update split: if_splits prod.splits)
qed

definition mem_api :: "(mem, kmem \<times> mem_clients, genv) sys" where
  "mem_api = \<lparr>Redis = mem_redis, Kafka = with_clients mem_kafka, Env = mem_env\<rparr>"

interpretation mem_api: message_plane mem_api mem_ks m_clock
proof -
  have "Redis mem_api = mem_redis" by (simp add: mem_api_def)
  then show "message_plane mem_api mem_ks m_clock"
    using mem.redis_quiet_axioms by (simp add: message_plane_def)
qed

text \<open>A server that starts, serves a request, and serves another one after shard 0 has been split.\<close>

definition demo_server :: "(mem, kmem \<times> mem_clients, genv, nat) api_state" where
  "demo_server = \<lparr>ap_consumers = [], ap_world = \<lparr>w_redis = w_redis demo_world, w_kafka = (kmem0, []), w_env = w_env demo_world\<rparr>\<rparr>"

definition demo_split_map :: "Shard list" where
  "demo_split_map = [shard0\<lparr>sh_Phase := ''Closing''\<rparr>,
     \<lparr>sh_ID = ''1'', sh_Topic = ''kmsvc.orders.shard-1'', sh_HashRangeStart = 0, sh_HashRangeEnd = 0x7FFFFFFF, sh_Phase = ''Active''\<rparr>,
     \<lparr>sh_ID = ''2'', sh_Topic = ''kmsvc.orders.shard-2'', sh_HashRangeStart = 0x80000000, sh_HashRangeEnd = 0xFFFFFFFF, sh_Phase = ''Active''\<rparr>]"

definition demo_served :: "(mem, kmem \<times> mem_clients, genv, nat) api_state" where
  "demo_served =
     (let a = snd (Registry_Get mem_api mem_consumers [''b:9092''] ''orders'' demo_server); w = ap_world a in
      a\<lparr>ap_world := w\<lparr>w_redis := snd (PutShardMap mem_redis ''orders'' demo_split_map (w_redis w))\<rparr>\<rparr>)"

theorem Registry_Get_subscribes_witness:
  "\<exists>s. mem_subs (w_kafka (ap_world (snd (Registry_Get mem_api mem_consumers [''b:9092''] ''orders'' demo_served)))) 0 = Some s \<and>
     sub_group s = ConsumerGroup ''orders'' \<and> \<not> sub_autocommit s \<and>
     {''kmsvc.orders.shard-0'', ''kmsvc.orders.shard-1'', ''kmsvc.orders.shard-2''} \<subseteq> sub_topics s"
proof -
  let ?b = "[''b:9092'']"
  have g: "fst (Registry_Get mem_api mem_consumers ?b ''orders'' demo_server) = Inr 0"
    "fst (Registry_Get mem_api mem_consumers ?b ''orders'' demo_served) = Inr 0" by code_simp+
  have p: "published (mem_ks (w_redis (ap_world demo_server))) ''orders'' demo_config [shard0]"
    "published (mem_ks (w_redis (ap_world demo_served))) ''orders'' demo_config demo_split_map" by code_simp+
  have "registry_run mem_consumers ?b mem_subs demo_server" by (rule registry_run.start) (simp add: demo_server_def)
  from Registry_Get_subscribes [OF mem_api.message_plane_axioms mem_registry.consumer_clients_axioms, OF this run_eqI [OF g(1)] p(1)]
  have "registry_run mem_consumers ?b mem_subs (snd (Registry_Get mem_api mem_consumers ?b ''orders'' demo_server))" by blast
  then have "registry_run mem_consumers ?b mem_subs demo_served"
    unfolding demo_served_def Let_def by (rule registry_run.other) simp
  from Registry_Get_subscribes [OF mem_api.message_plane_axioms mem_registry.consumer_clients_axioms, OF this run_eqI [OF g(2)] p(2)]
  obtain s where s: "mem_subs (w_kafka (ap_world (snd (Registry_Get mem_api mem_consumers ?b ''orders'' demo_served)))) 0 = Some s"
    "sub_group s = ConsumerGroup ''orders''" "\<not> sub_autocommit s"
    and t: "{sh_Topic sh |sh. sh \<in> set demo_split_map \<and> sh_Phase sh \<noteq> ''Closed''} \<subseteq> sub_topics s" by blast
  have l: "map sh_Topic (filter (\<lambda>sh. sh_Phase sh \<noteq> ''Closed'') demo_split_map) =
      [''kmsvc.orders.shard-0'', ''kmsvc.orders.shard-1'', ''kmsvc.orders.shard-2'']" by code_simp
  have "{sh_Topic sh |sh. sh \<in> set demo_split_map \<and> sh_Phase sh \<noteq> ''Closed''} =
      set (map sh_Topic (filter (\<lambda>sh. sh_Phase sh \<noteq> ''Closed'') demo_split_map))" by (auto simp del: set_simps)
  also note l
  also have "set [''kmsvc.orders.shard-0'', ''kmsvc.orders.shard-1'', ''kmsvc.orders.shard-2''] =
      {''kmsvc.orders.shard-0'', ''kmsvc.orders.shard-1'', ''kmsvc.orders.shard-2''}" by (simp only: list.set)
  finally have "{''kmsvc.orders.shard-0'', ''kmsvc.orders.shard-1'', ''kmsvc.orders.shard-2''} \<subseteq> sub_topics s"
    using t by (simp only:)
  with s show ?thesis by blast
qed

end
