(* ===== verification/Api_Auth.thy ===== *)
theory Api_Auth
  imports Go_Json
begin

text \<open>
  Authentication of API calls: the OIDC discovery and key cache of \<^verbatim>\<open>internal/auth/jwks.go\<close>, the
  token validator of \<^verbatim>\<open>internal/auth/validator.go\<close> and the gRPC interceptors of
  \<^verbatim>\<open>internal/api/interceptors/auth.go\<close>. HTTP and the JWT library are the parameter
  \<open>auth_libs\<close> over an opaque state; \<open>jwt_library\<close> is the contract of its parser. Responses of
  HTTP are given with their whole body.
\<close>

section \<open>gRPC status and the libraries as parameters\<close>

datatype grpc_code = CodeNotFound | CodeInvalidArgument | CodeDeadlineExceeded | CodeInternal | CodeUnauthenticated

datatype rpc_status = Status grpc_code string

type_synonym 'a rpc = "rpc_status + 'a"

record ('x, 'ks, 'tok) auth_libs =
  NewRequest :: "string \<Rightarrow> unit res"
  HttpDo :: "'x \<Rightarrow> string \<Rightarrow> (int \<times> string) res \<times> 'x"
  NewCache :: "'x \<Rightarrow> nat \<times> 'x"
  CacheRegister :: "'x \<Rightarrow> nat \<Rightarrow> string \<Rightarrow> duration \<Rightarrow> unit res \<times> 'x"
  CacheRefresh :: "'x \<Rightarrow> nat \<Rightarrow> string \<Rightarrow> 'ks res \<times> 'x"
  CacheGet :: "'x \<Rightarrow> nat \<Rightarrow> string \<Rightarrow> 'ks res \<times> 'x"
  JwtParse :: "'x \<Rightarrow> string \<Rightarrow> 'ks \<Rightarrow> bool \<Rightarrow> string \<Rightarrow> string \<Rightarrow> 'tok res \<times> 'x"

section \<open>Discovery document\<close>

record DiscoveryDocument =
  dd_Issuer :: string
  dd_JWKSURI :: string

definition TrimRight :: "string \<Rightarrow> string \<Rightarrow> string" where
  "TrimRight s cutset = rev (dropWhile (\<lambda>c. c \<in> set cutset) (rev s))"

fun set_doc_members :: "(string \<times> json) list \<Rightarrow> DiscoveryDocument \<Rightarrow> DiscoveryDocument res" where
  "set_doc_members [] doc = Inr doc"
| "set_doc_members ((name, v) # ms) doc =
     (let key = map ascii_lower name;
          r = (if key = ''issuer'' then map_res (\<lambda>t. doc\<lparr>dd_Issuer := t\<rparr>) (into_string v (dd_Issuer doc))
               else if key = ''jwks_uri'' then map_res (\<lambda>t. doc\<lparr>dd_JWKSURI := t\<rparr>) (into_string v (dd_JWKSURI doc))
               else Inr doc) in
      case r of Inl e \<Rightarrow> Inl e | Inr doc \<Rightarrow> set_doc_members ms doc)"

text \<open>\<^verbatim>\<open>Decoder.Decode\<close> reads the first JSON value of the body and leaves the rest.\<close>

definition decode_discovery :: "string \<Rightarrow> DiscoveryDocument res" where
  "decode_discovery body =
     (case json_value (2 * length body + 2) body of
        None \<Rightarrow> Inl json_syntax_error
      | Some (v, _) \<Rightarrow>
          (case v of
             JObj ms \<Rightarrow> set_doc_members ms \<lparr>dd_Issuer = '''', dd_JWKSURI = ''''\<rparr>
           | JNull \<Rightarrow> Inr \<lparr>dd_Issuer = '''', dd_JWKSURI = ''''\<rparr>
           | _ \<Rightarrow> Inl json_type_error))"

definition FetchDiscoveryDocument ::
  "('x, 'ks, 'tok) auth_libs \<Rightarrow> string \<Rightarrow> 'x \<Rightarrow> DiscoveryDocument res \<times> 'x" where
  "FetchDiscoveryDocument L issuerURL x =
     (let url = TrimRight issuerURL ''/'' @ ''/.well-known/openid-configuration'' in
      on_ok (NewRequest L url, x) (wrapf ''build discovery request'') (\<lambda>_ x.
      on_ok (HttpDo L x url) (wrapf (''fetch discovery document '' @ url)) (\<lambda>(status, body) x.
        if status \<noteq> 200 then
          (Inl (ErrText (''fetch discovery document '' @ url @ '': status '' @ FormatInt status)), x)
        else on_ok (decode_discovery body, x) (wrapf (''decode discovery document '' @ url)) (\<lambda>doc x. (Inr doc, x)))))"

section \<open>Key sets and the validator\<close>

datatype 'ks KeySetProvider = JWKSCache nat string | StaticKeySet 'ks

definition NewJWKSCache :: "('x, 'ks, 'tok) auth_libs \<Rightarrow> string \<Rightarrow> 'x \<Rightarrow> 'ks KeySetProvider res \<times> 'x" where
  "NewJWKSCache L jwksURI x =
     (case NewCache L x of (cache, x) \<Rightarrow>
      on_ok (CacheRegister L x cache jwksURI (15 * Minute)) (wrapf (''register jwks cache '' @ jwksURI)) (\<lambda>_ x.
      on_ok (CacheRefresh L x cache jwksURI) (wrapf (''initial jwks fetch '' @ jwksURI)) (\<lambda>_ x.
        (Inr (JWKSCache cache jwksURI), x))))"

fun Keys_Get :: "('x, 'ks, 'tok) auth_libs \<Rightarrow> 'ks KeySetProvider \<Rightarrow> 'x \<Rightarrow> 'ks res \<times> 'x" where
  "Keys_Get L (JWKSCache cache jwksURI) x = CacheGet L x cache jwksURI"
| "Keys_Get L (StaticKeySet keys) x = (Inr keys, x)"

record 'ks Validator =
  v_Issuer :: string
  v_Audience :: string
  v_Keys :: "'ks KeySetProvider"

definition NewValidator :: "('x, 'ks, 'tok) auth_libs \<Rightarrow> string \<Rightarrow> string \<Rightarrow> 'x \<Rightarrow> 'ks Validator res \<times> 'x" where
  "NewValidator L issuerURL audience x =
     on_ok (FetchDiscoveryDocument L issuerURL x) (wrapf ''new validator'') (\<lambda>doc x.
     on_ok (NewJWKSCache L (dd_JWKSURI doc) x) (wrapf ''new validator'') (\<lambda>cache x.
       (Inr \<lparr>v_Issuer = dd_Issuer doc, v_Audience = audience, v_Keys = cache\<rparr>, x)))"

definition Validate :: "('x, 'ks, 'tok) auth_libs \<Rightarrow> 'ks Validator \<Rightarrow> string \<Rightarrow> 'x \<Rightarrow> 'tok res \<times> 'x" where
  "Validate L v tokenString x =
     on_ok (Keys_Get L (v_Keys v) x) (wrapf ''validate: fetch key set'') (\<lambda>keys x.
     on_ok (JwtParse L x tokenString keys True (v_Issuer v) (v_Audience v)) (wrapf ''validate'') (\<lambda>token x.
       (Inr token, x)))"

section \<open>Interceptors\<close>

text \<open>
  The incoming metadata, if there is any, maps lower-case keys to their values; the claims are
  the context value of the interceptor. A validator and a handler act on the state.
\<close>

record 'tok grpc_ctx =
  gc_Metadata :: "(string \<Rightarrow> string list) option"
  gc_Claims :: "'tok option"

definition ClaimsFromContext :: "'tok grpc_ctx \<Rightarrow> 'tok option" where
  "ClaimsFromContext ctx = gc_Claims ctx"

definition bearerToken :: "'tok grpc_ctx \<Rightarrow> string rpc" where
  "bearerToken ctx =
     (case gc_Metadata ctx of
        None \<Rightarrow> Inl (Status CodeUnauthenticated ''missing metadata'')
      | Some md \<Rightarrow>
          (case md ''authorization'' of
             [] \<Rightarrow> Inl (Status CodeUnauthenticated ''missing authorization header'')
           | header # _ \<Rightarrow>
               if \<not> HasPrefix header ''Bearer '' then
                 Inl (Status CodeUnauthenticated ''authorization header must be a bearer token'')
               else Inr (TrimPrefix header ''Bearer '')))"

definition UnaryServerInterceptor ::
  "(string \<Rightarrow> 'x \<Rightarrow> 'tok res \<times> 'x) \<Rightarrow> 'tok grpc_ctx \<Rightarrow> 'req \<Rightarrow>
    ('tok grpc_ctx \<Rightarrow> 'req \<Rightarrow> 'x \<Rightarrow> 'resp rpc \<times> 'x) \<Rightarrow> 'x \<Rightarrow> 'resp rpc \<times> 'x" where
  "UnaryServerInterceptor validate ctx req handler x =
     (case bearerToken ctx of
        Inl err \<Rightarrow> (Inl err, x)
      | Inr token \<Rightarrow>
          (case validate token x of
             (Inl err, x) \<Rightarrow> (Inl (Status CodeUnauthenticated ''invalid token''), x)
           | (Inr claims, x) \<Rightarrow> handler (ctx\<lparr>gc_Claims := Some claims\<rparr>) req x))"

record ('ss, 'tok) authenticatedStream =
  as_ServerStream :: 'ss
  as_ctx :: "'tok grpc_ctx"

text \<open>\<open>ss_Context\<close> is the context method of the stream the server passes in.\<close>

definition StreamServerInterceptor ::
  "(string \<Rightarrow> 'x \<Rightarrow> 'tok res \<times> 'x) \<Rightarrow> ('ss \<Rightarrow> 'tok grpc_ctx) \<Rightarrow> 'srv \<Rightarrow> 'ss \<Rightarrow>
    ('srv \<Rightarrow> ('ss, 'tok) authenticatedStream \<Rightarrow> 'x \<Rightarrow> unit rpc \<times> 'x) \<Rightarrow> 'x \<Rightarrow> unit rpc \<times> 'x" where
  "StreamServerInterceptor validate ss_Context srv ss handler x =
     (case bearerToken (ss_Context ss) of
        Inl err \<Rightarrow> (Inl err, x)
      | Inr token \<Rightarrow>
          (case validate token x of
             (Inl err, x) \<Rightarrow> (Inl (Status CodeUnauthenticated ''invalid token''), x)
           | (Inr claims, x) \<Rightarrow>
               handler srv \<lparr>as_ServerStream = ss, as_ctx = (ss_Context ss)\<lparr>gc_Claims := Some claims\<rparr>\<rparr> x))"

section \<open>Only validated calls reach a handler\<close>

text \<open>
  The documented behaviour of \<^verbatim>\<open>jwt.Parse\<close> with a key set, validation, an issuer and an audience:
  what it returns is the payload of the given text, signed by a key of the set, with that
  issuer and audience and inside its validity period.
\<close>

locale jwt_library =
  fixes L :: "('x, 'ks, 'tok) auth_libs" and signed_by :: "'ks \<Rightarrow> string \<Rightarrow> 'tok \<Rightarrow> bool"
    and issuer :: "'tok \<Rightarrow> string" and audience :: "'tok \<Rightarrow> string set"
    and current :: "'x \<Rightarrow> 'tok \<Rightarrow> bool"
  assumes jwt_parse: "JwtParse L x s keys True iss aud = (Inr tok, x') \<Longrightarrow>
    signed_by keys s tok \<and> issuer tok = iss \<and> aud \<in> audience tok \<and> current x tok"
begin

lemma Validate_ok:
  assumes "Validate L v s x = (Inr tok, x')"
  obtains keys x1 where "Keys_Get L (v_Keys v) x = (Inr keys, x1)" and "signed_by keys s tok" and "issuer tok = v_Issuer v"
    and "v_Audience v \<in> audience tok" and "current x1 tok"
proof -
  from assms obtain keys x1 where k: "Keys_Get L (v_Keys v) x = (Inr keys, x1)"
    and rest: "on_ok (JwtParse L x1 s keys True (v_Issuer v) (v_Audience v)) (wrapf ''validate'') (\<lambda>token x. (Inr token, x)) = (Inr tok, x')"
    unfolding Validate_def by (rule on_okE)
  from rest have "JwtParse L x1 s keys True (v_Issuer v) (v_Audience v) = (Inr tok, x')" by (auto elim: on_okE)
  from jwt_parse [OF this] k that show thesis by blast
qed

end

definition bearer_of :: "'tok grpc_ctx \<Rightarrow> string \<Rightarrow> bool" where
  "bearer_of ctx token =
     (\<exists>md rest. gc_Metadata ctx = Some md \<and> md ''authorization'' = (''Bearer '' @ token) # rest)"

lemma bearerToken_ok: "bearerToken ctx = Inr token \<longleftrightarrow> bearer_of ctx token"
proof -
  have "HasPrefix h ''Bearer '' \<and> TrimPrefix h ''Bearer '' = token \<longleftrightarrow> h = ''Bearer '' @ token" for h
    unfolding HasPrefix_def TrimPrefix_def by (metis append_eq_conv_conj append_take_drop_id)
  then show ?thesis
    by (auto simp: bearerToken_def bearer_of_def split: option.splits list.splits)
qed

lemma bearerToken_error: "bearerToken ctx = Inl err \<Longrightarrow> \<exists>msg. err = Status CodeUnauthenticated msg"
  by (auto simp: bearerToken_def split: option.splits list.splits if_splits)

text \<open>What both interceptors do before the handler: a refusal, or the claims.\<close>

definition admit :: "(string \<Rightarrow> 'x \<Rightarrow> 'tok res \<times> 'x) \<Rightarrow> 'tok grpc_ctx \<Rightarrow> 'x \<Rightarrow> 'tok rpc \<times> 'x" where
  "admit validate ctx x =
     (case bearerToken ctx of
        Inl err \<Rightarrow> (Inl err, x)
      | Inr token \<Rightarrow>
          (case validate token x of
             (Inl err, x) \<Rightarrow> (Inl (Status CodeUnauthenticated ''invalid token''), x)
           | (Inr claims, x) \<Rightarrow> (Inr claims, x)))"

lemma UnaryServerInterceptor_admit:
  "UnaryServerInterceptor validate ctx req handler x =
     (case admit validate ctx x of (Inl err, x) \<Rightarrow> (Inl err, x)
      | (Inr claims, x) \<Rightarrow> handler (ctx\<lparr>gc_Claims := Some claims\<rparr>) req x)"
  by (auto simp: UnaryServerInterceptor_def admit_def split: sum.splits prod.splits)

lemma StreamServerInterceptor_admit:
  "StreamServerInterceptor validate ss_Context srv ss handler x =
     (case admit validate (ss_Context ss) x of (Inl err, x) \<Rightarrow> (Inl err, x)
      | (Inr claims, x) \<Rightarrow> handler srv \<lparr>as_ServerStream = ss, as_ctx = (ss_Context ss)\<lparr>gc_Claims := Some claims\<rparr>\<rparr> x)"
  by (auto simp: StreamServerInterceptor_def admit_def split: sum.splits prod.splits)

lemma admit_cases:
  obtains (rejected) msg x1 where "admit validate ctx x = (Inl (Status CodeUnauthenticated msg), x1)"
  | (accepted) token claims x1 where "bearer_of ctx token" "validate token x = (Inr claims, x1)" "admit validate ctx x = (Inr claims, x1)"
proof (cases "bearerToken ctx")
  case (Inl err)
  with bearerToken_error [OF Inl] rejected show thesis by (auto simp: admit_def)
next
  case (Inr token)
  then have "bearer_of ctx token" using bearerToken_ok by blast
  moreover obtain r x1 where "validate token x = (r, x1)" by force
  ultimately show thesis using Inr rejected accepted by (cases r) (auto simp: admit_def)
qed

text \<open>
  A reference library: one key set, whose signature of a token is the key followed by issuer
  and audience, valid until time 100; the provider answers discovery at one address.
\<close>

definition demo_auth :: "(time, string, string \<times> string) auth_libs" where
  "demo_auth = \<lparr>
     NewRequest = (\<lambda>url. Inr ()),
     HttpDo = (\<lambda>x url. (Inr (if url = ''https://id/.well-known/openid-configuration'' then
       (200, concat [''{'', marshal_member ''issuer'' (marshal_string ''https://id''), '','',
          marshal_member ''jwks_uri'' (marshal_string ''https://id/jwks''), ''}'']) else (404, '''')), x)),
     NewCache = (\<lambda>x. (0, x)),
     CacheRegister = (\<lambda>x cache uri d. (Inr (), x)),
     CacheRefresh = (\<lambda>x cache uri. (Inr ''K'', x)),
     CacheGet = (\<lambda>x cache uri. (Inr ''K'', x)),
     JwtParse = (\<lambda>x s keys check iss aud.
       (if s = keys @ iss @ aud \<and> x \<le> 100 then Inr (iss, aud) else Inl (ErrText ''could not verify message''), x))\<rparr>"

interpretation demo_jwt: jwt_library demo_auth "\<lambda>keys s tok. s = keys @ fst tok @ snd tok" fst "\<lambda>tok. {snd tok}" "\<lambda>x tok. x \<le> 100"
  by unfold_locales (auto simp: demo_auth_def split: if_splits)


text \<open>A call with a token of the issuer found by discovery, and one with a token of another.\<close>

definition demo_validator :: "string Validator" where
  "demo_validator = \<lparr>v_Issuer = ''https://id'', v_Audience = ''kmsvc'', v_Keys = JWKSCache 0 ''https://id/jwks''\<rparr>"

definition demo_call :: "string \<Rightarrow> (string \<times> string) grpc_ctx" where
  "demo_call token = \<lparr>gc_Metadata = Some (\<lambda>k. if k = ''authorization'' then [''Bearer '' @ token] else []), gc_Claims = None\<rparr>"

definition demo_handler :: "(string \<times> string) grpc_ctx \<Rightarrow> string \<Rightarrow> time \<Rightarrow> string rpc \<times> time" where
  "demo_handler ctx req x = (Inr (req @ (case ClaimsFromContext ctx of None \<Rightarrow> '' anonymous'' | Some (iss, aud) \<Rightarrow> '' by '' @ iss)), x + 1)"


end
