(* ===== verification/Api_Handlers.thy ===== *)
theory Api_Handlers
  imports Consumer_Registry Api_Auth
begin

text \<open>
  \<^verbatim>\<open>internal/api/handlers/queue_service.go\<close>: the methods of the gRPC service, which translate
  requests to calls of the message plane and its errors to gRPC codes. The fields of the
  protocol messages are the ones the getters of the generated code return; their strings of
  bytes are copied. A receive is given the consumer of its queue by replacing the poll of the
  Kafka parameter.
\<close>

section \<open>Requests and responses\<close>

record SendMessageRequest =
  sr_QueueName :: string
  sr_MessageBody :: string
  sr_MessageGroupId :: string
  sr_MessageDeduplicationId :: string

record SendMessageResponse =
  sp_MessageId :: string
  sp_SequenceNumber :: string

record SendBatchEntry =
  se_Id :: string
  se_MessageBody :: string
  se_MessageGroupId :: string
  se_MessageDeduplicationId :: string

record BatchResultEntry =
  br_Id :: string
  br_MessageId :: string
  br_Error :: string

record BatchResponse =
  bp_Successful :: "BatchResultEntry list"
  bp_Failed :: "BatchResultEntry list"

record ReceiveMessageRequest =
  rr_QueueName :: string
  rr_MaxNumberOfMessages :: int
  rr_WaitTimeSeconds :: int
  rr_VisibilityTimeoutSeconds :: int

record ProtoMessage =
  pm_MessageId :: string
  pm_ReceiptHandle :: string
  pm_Body :: string
  pm_ReceiveCount :: int
  pm_EnqueuedAt :: time

section \<open>The service\<close>

record ('s, 'k, 'g, 'cl) QueueService =
  sv_sys :: "('s, 'k, 'g) sys"
  sv_DedupWindow :: duration
  sv_Committer :: bool
  sv_Consumers :: "('k, 'cl) consumer_api"
  sv_Brokers :: "string list"
  sv_ReceivePollInterval :: duration

definition mapError :: "go_error \<Rightarrow> rpc_status" where
  "mapError err =
     (let msg = Error err in
      if Contains msg ''not found'' then Status CodeNotFound msg
      else if Contains msg ''exceeds'' \<or> Contains msg ''required for FIFO'' \<or>
        Contains msg ''no consumable shards'' \<or> Contains msg ''not reconciled'' then Status CodeInvalidArgument msg
      else if errors_Is err DeadlineExceeded then Status CodeDeadlineExceeded msg
      else Status CodeInternal msg)"

text \<open>\<open>or_status m k\<close> is the idiom \<^verbatim>\<open>if err != nil { return nil, mapError(err) }\<close>.\<close>

definition or_status :: "'a res \<times> 'x \<Rightarrow> ('a \<Rightarrow> 'x \<Rightarrow> 'b rpc \<times> 'x) \<Rightarrow> 'b rpc \<times> 'x" where
  "or_status m k = (case m of (r, x) \<Rightarrow> (case r of Inl err \<Rightarrow> (Inl (mapError err), x) | Inr v \<Rightarrow> k v x))"

declare or_status_def [code_unfold]

definition Handle_SendMessage ::
  "('s, 'k, 'g, 'cl) QueueService \<Rightarrow> SendMessageRequest \<Rightarrow> ('s, 'k, 'g, 'cl) api_state \<Rightarrow>
    SendMessageResponse rpc \<times> ('s, 'k, 'g, 'cl) api_state" where
  "Handle_SendMessage Q req a =
     or_status (world_do (SendMessage (sv_sys Q) (sv_DedupWindow Q)
         \<lparr>smi_QueueName = sr_QueueName req, smi_Body = sr_MessageBody req,
          smi_MessageGroupID = sr_MessageGroupId req, smi_MessageDeduplicationID = sr_MessageDeduplicationId req\<rparr>) a)
       (\<lambda>out a. (Inr \<lparr>sp_MessageId = smo_MessageID out, sp_SequenceNumber = FormatInt (smo_SequenceNumber out)\<rparr>, a))"

fun send_entries ::
  "('s, 'k, 'g, 'cl) QueueService \<Rightarrow> string \<Rightarrow> SendBatchEntry list \<Rightarrow> BatchResponse \<Rightarrow> ('s, 'k, 'g, 'cl) api_state \<Rightarrow>
    BatchResponse rpc \<times> ('s, 'k, 'g, 'cl) api_state" where
  "send_entries Q queueName [] resp a = (Inr resp, a)"
| "send_entries Q queueName (entry # entries) resp a =
     (case world_do (SendMessage (sv_sys Q) (sv_DedupWindow Q)
         \<lparr>smi_QueueName = queueName, smi_Body = se_MessageBody entry,
          smi_MessageGroupID = se_MessageGroupId entry, smi_MessageDeduplicationID = se_MessageDeduplicationId entry\<rparr>) a of
       (r, a) \<Rightarrow>
       (case r of
          Inl err \<Rightarrow> send_entries Q queueName entries (resp\<lparr>bp_Failed := bp_Failed resp @
            [\<lparr>br_Id = se_Id entry, br_MessageId = '''', br_Error = Error err\<rparr>]\<rparr>) a
        | Inr out \<Rightarrow> send_entries Q queueName entries (resp\<lparr>bp_Successful := bp_Successful resp @
            [\<lparr>br_Id = se_Id entry, br_MessageId = smo_MessageID out, br_Error = ''''\<rparr>]\<rparr>) a))"

definition Handle_SendMessageBatch ::
  "('s, 'k, 'g, 'cl) QueueService \<Rightarrow> string \<Rightarrow> SendBatchEntry list \<Rightarrow> ('s, 'k, 'g, 'cl) api_state \<Rightarrow>
    BatchResponse rpc \<times> ('s, 'k, 'g, 'cl) api_state" where
  "Handle_SendMessageBatch Q queueName entries a = send_entries Q queueName entries \<lparr>bp_Successful = [], bp_Failed = []\<rparr> a"

text \<open>The system a receive runs in: polls go to the consumer of the queue.\<close>

definition fetching :: "('s, 'k, 'g) sys \<Rightarrow> ('k, 'cl) consumer_api \<Rightarrow> 'cl \<Rightarrow> ('s, 'k, 'g) sys" where
  "fetching S C cl = S\<lparr>Kafka := (Kafka S)\<lparr>PollFetches := (\<lambda>k timeout. ClientPoll C k cl timeout)\<rparr>\<rparr>"

fun proto_messages ::
  "('s, 'k, 'g) sys \<Rightarrow> Message list \<Rightarrow> ProtoMessage list \<Rightarrow> ('s, 'k, 'g, 'cl) api_state \<Rightarrow>
    ProtoMessage list \<times> ('s, 'k, 'g, 'cl) api_state" where
  "proto_messages S [] out a = (out, a)"
| "proto_messages S (m # msgs) out a =
     (case world_do (with_now S Pair) a of (now, a) \<Rightarrow>
       proto_messages S msgs (out @ [\<lparr>pm_MessageId = msg_ReceiptHandle m, pm_ReceiptHandle = msg_ReceiptHandle m,
         pm_Body = msg_Body m, pm_ReceiveCount = msg_ReceiveCount m, pm_EnqueuedAt = now\<rparr>]) a)"

text \<open>\<open>None\<close>: the long poll never returns.\<close>

definition Handle_ReceiveMessage ::
  "('s, 'k, 'g, 'cl) QueueService \<Rightarrow> ReceiveMessageRequest \<Rightarrow> ('s, 'k, 'g, 'cl) api_state \<Rightarrow>
    (ProtoMessage list rpc \<times> ('s, 'k, 'g, 'cl) api_state) option" where
  "Handle_ReceiveMessage Q req a =
     (case Registry_Get (sv_sys Q) (sv_Consumers Q) (sv_Brokers Q) (rr_QueueName req) a of
        (Inl err, a) \<Rightarrow> Some (Inl (mapError err), a)
      | (Inr fetcher, a) \<Rightarrow>
          (case ReceiveMessage (fetching (sv_sys Q) (sv_Consumers Q) fetcher) (sv_ReceivePollInterval Q)
              \<lparr>rmi_QueueName = rr_QueueName req, rmi_MaxNumberOfMessages = rr_MaxNumberOfMessages req,
               rmi_WaitTime = rr_WaitTimeSeconds req * Second,
               rmi_VisibilityTimeoutOverride = rr_VisibilityTimeoutSeconds req * Second\<rparr> (ap_world a) of
             None \<Rightarrow> None
           | Some (Inl err, w) \<Rightarrow> Some (Inl (mapError err), a\<lparr>ap_world := w\<rparr>)
           | Some (Inr msgs, w) \<Rightarrow>
               (case proto_messages (sv_sys Q) msgs [] (a\<lparr>ap_world := w\<rparr>) of (out, a) \<Rightarrow> Some (Inr out, a))))"

definition Handle_DeleteMessage ::
  "('s, 'k, 'g, 'cl) QueueService \<Rightarrow> string \<Rightarrow> string \<Rightarrow> ('s, 'k, 'g, 'cl) api_state \<Rightarrow>
    unit rpc \<times> ('s, 'k, 'g, 'cl) api_state" where
  "Handle_DeleteMessage Q queueName receiptHandle a =
     or_status (world_do (DeleteMessage (sv_sys Q) (sv_Committer Q) queueName receiptHandle) a) (\<lambda>_ a. (Inr (), a))"

text \<open>Entries are pairs of an id and a receipt handle.\<close>

fun delete_entries ::
  "('s, 'k, 'g, 'cl) QueueService \<Rightarrow> string \<Rightarrow> (string \<times> string) list \<Rightarrow> BatchResponse \<Rightarrow> ('s, 'k, 'g, 'cl) api_state \<Rightarrow>
    BatchResponse rpc \<times> ('s, 'k, 'g, 'cl) api_state" where
  "delete_entries Q queueName [] resp a = (Inr resp, a)"
| "delete_entries Q queueName ((i, handle) # entries) resp a =
     (case world_do (DeleteMessage (sv_sys Q) (sv_Committer Q) queueName handle) a of
       (r, a) \<Rightarrow>
       (case r of
          Inl err \<Rightarrow> delete_entries Q queueName entries (resp\<lparr>bp_Failed := bp_Failed resp @
            [\<lparr>br_Id = i, br_MessageId = '''', br_Error = Error err\<rparr>]\<rparr>) a
        | Inr _ \<Rightarrow> delete_entries Q queueName entries (resp\<lparr>bp_Successful := bp_Successful resp @
            [\<lparr>br_Id = i, br_MessageId = '''', br_Error = ''''\<rparr>]\<rparr>) a))"

definition Handle_DeleteMessageBatch ::
  "('s, 'k, 'g, 'cl) QueueService \<Rightarrow> string \<Rightarrow> (string \<times> string) list \<Rightarrow> ('s, 'k, 'g, 'cl) api_state \<Rightarrow>
    BatchResponse rpc \<times> ('s, 'k, 'g, 'cl) api_state" where
  "Handle_DeleteMessageBatch Q queueName entries a =
     delete_entries Q queueName entries \<lparr>bp_Successful = [], bp_Failed = []\<rparr> a"

definition Handle_ChangeMessageVisibility ::
  "('s, 'k, 'g, 'cl) QueueService \<Rightarrow> string \<Rightarrow> string \<Rightarrow> int \<Rightarrow> ('s, 'k, 'g, 'cl) api_state \<Rightarrow>
    unit rpc \<times> ('s, 'k, 'g, 'cl) api_state" where
  "Handle_ChangeMessageVisibility Q queueName receiptHandle visibilityTimeoutSeconds a =
     (let timeout = visibilityTimeoutSeconds * Second in
      or_status (world_do (ChangeMessageVisibility (sv_sys Q) queueName receiptHandle timeout) a) (\<lambda>_ a. (Inr (), a)))"

section \<open>Batches\<close>

text \<open>A reference for batches: the calls one after another, each on the state the one before left.\<close>

fun run_each :: "('e \<Rightarrow> 'x \<Rightarrow> 'r \<times> 'x) \<Rightarrow> 'e list \<Rightarrow> 'x \<Rightarrow> ('e \<times> 'r) list \<times> 'x" where
  "run_each f [] x = ([], x)"
| "run_each f (e # es) x = (case f e x of (r, x) \<Rightarrow> (case run_each f es x of (rs, x) \<Rightarrow> ((e, r) # rs, x)))"

lemma run_each_entries: "map fst (fst (run_each f es x)) = es"
  by (induction es arbitrary: x) (simp_all add: case_prod_beta)

text \<open>The entries of a batch response the results of single calls amount to.\<close>

definition accepted :: "('e \<Rightarrow> string) \<Rightarrow> ('v \<Rightarrow> string) \<Rightarrow> ('e \<times> 'v rpc) list \<Rightarrow> BatchResultEntry list" where
  "accepted ident mid rs = concat (map (\<lambda>(e, r). case r of
     Inr v \<Rightarrow> [\<lparr>br_Id = ident e, br_MessageId = mid v, br_Error = ''''\<rparr>] | Inl _ \<Rightarrow> []) rs)"

definition refused :: "('e \<Rightarrow> string) \<Rightarrow> ('e \<times> 'v rpc) list \<Rightarrow> BatchResultEntry list" where
  "refused ident rs = concat (map (\<lambda>(e, r). case r of
     Inl (Status code msg) \<Rightarrow> [\<lparr>br_Id = ident e, br_MessageId = '''', br_Error = msg\<rparr>] | Inr _ \<Rightarrow> []) rs)"

lemma accepted_refused_count: "length (accepted ident mid rs) + length (refused ident' rs) = length rs"
  by (induction rs) (auto simp: accepted_def refused_def split: sum.splits rpc_status.splits)

lemma mapError_text: "\<exists>code. mapError err = Status code (Error err)"
  by (simp add: mapError_def Let_def)

definition send_single :: "string \<Rightarrow> SendBatchEntry \<Rightarrow> SendMessageRequest" where
  "send_single queueName e = \<lparr>sr_QueueName = queueName, sr_MessageBody = se_MessageBody e,
     sr_MessageGroupId = se_MessageGroupId e, sr_MessageDeduplicationId = se_MessageDeduplicationId e\<rparr>"

lemma accepted_simps [simp]:
  "accepted ident mid [] = []"
  "accepted ident mid ((e, Inr v) # rs) = \<lparr>br_Id = ident e, br_MessageId = mid v, br_Error = ''''\<rparr> # accepted ident mid rs"
  "accepted ident mid ((e, Inl st) # rs) = accepted ident mid rs"
  by (simp_all add: accepted_def)

lemma refused_simps [simp]:
  "refused ident [] = []"
  "refused ident ((e, Inr v) # rs) = refused ident rs"
  "refused ident ((e, Inl (mapError err)) # rs) = \<lparr>br_Id = ident e, br_MessageId = '''', br_Error = Error err\<rparr> # refused ident rs"
  using mapError_text [of err] by (auto simp: refused_def)

lemma send_entries_each:
  "send_entries Q q es resp a =
     (case run_each (\<lambda>e. Handle_SendMessage Q (send_single q e)) es a of (rs, a') \<Rightarrow>
       (Inr \<lparr>bp_Successful = bp_Successful resp @ accepted se_Id sp_MessageId rs,
             bp_Failed = bp_Failed resp @ refused se_Id rs\<rparr>, a'))"
proof (induction es arbitrary: resp a)
  case (Cons e es)
  then show ?case
    by (auto simp: Handle_SendMessage_def send_single_def or_status_def split: prod.splits sum.splits)
qed simp

lemma delete_entries_each:
  "delete_entries Q q es resp a =
     (case run_each (\<lambda>(i, handle). Handle_DeleteMessage Q q handle) es a of (rs, a') \<Rightarrow>
       (Inr \<lparr>bp_Successful = bp_Successful resp @ accepted fst (\<lambda>_. '''') rs,
             bp_Failed = bp_Failed resp @ refused fst rs\<rparr>, a'))"
proof (induction es arbitrary: resp a)
  case (Cons e es)
  then show ?case
    by (cases e) (auto simp: Handle_DeleteMessage_def or_status_def split: prod.splits sum.splits)
qed simp

text \<open>
  C10. A batch is its single calls, one after another. Both batch methods leave the state that the
  single methods leave when they are called for the entries in order, list as successful
  exactly the entries whose call succeeds, with its message id, and as failed exactly the
  others, with the text of its status; every entry is listed exactly once and in order, and
  the batch itself never fails.
\<close>

theorem batches_are_single_calls:
  "Handle_SendMessageBatch Q q entries a =
     (case run_each (\<lambda>e. Handle_SendMessage Q (send_single q e)) entries a of (rs, a') \<Rightarrow>
       (Inr \<lparr>bp_Successful = accepted se_Id sp_MessageId rs, bp_Failed = refused se_Id rs\<rparr>, a')) \<and>
   Handle_DeleteMessageBatch Q q dels a =
     (case run_each (\<lambda>(i, handle). Handle_DeleteMessage Q q handle) dels a of (rs, a') \<Rightarrow>
       (Inr \<lparr>bp_Successful = accepted fst (\<lambda>_. '''') rs, bp_Failed = refused fst rs\<rparr>, a')) \<and>
   map fst (fst (run_each (\<lambda>e. Handle_SendMessage Q (send_single q e)) entries a)) = entries \<and>
   map fst (fst (run_each (\<lambda>(i, handle). Handle_DeleteMessage Q q handle) dels a)) = dels \<and>
   length (accepted ident mid rs) + length (refused ident rs) = length rs"
  by (simp add: Handle_SendMessageBatch_def Handle_DeleteMessageBatch_def send_entries_each delete_entries_each
      run_each_entries accepted_refused_count)

section \<open>Error codes\<close>

lemma HasPrefix_Cons [simp]: "HasPrefix (c # cs) (d # ds) \<longleftrightarrow> c = d \<and> HasPrefix cs ds" "HasPrefix cs []"
  "HasPrefix [] (d # ds) \<longleftrightarrow> False"
  by (auto simp: HasPrefix_def)

text \<open>A pattern with a space does not begin inside a word that is followed by something else.\<close>

lemma HasPrefix_word:
  assumes "CHR '' '' \<notin> set q" and "CHR '' '' \<notin> set u"
  shows "HasPrefix (q @ CHR '' '' # rest) (u @ CHR '' '' # v) \<longleftrightarrow> q = u \<and> HasPrefix rest v"
  using assms
proof (induction q arbitrary: u)
  case Nil
  then show ?case by (cases u) auto
next
  case (Cons c q)
  then show ?case by (cases u) auto
qed

lemma Contains_word:
  assumes "CHR '' '' \<notin> set q" and "CHR '' '' \<notin> set u" and "\<not> HasPrefix rest v"
  shows "Contains (q @ CHR '' '' # rest) (u @ CHR '' '' # v) \<longleftrightarrow> Contains (CHR '' '' # rest) (u @ CHR '' '' # v)"
  using assms
proof (induction q)
  case (Cons c q)
  have "\<not> HasPrefix ((c # q) @ CHR '' '' # rest) (u @ CHR '' '' # v)"
    using HasPrefix_word [OF Cons.prems(1,2)] Cons.prems(3) by blast
  with Cons show ?case by simp
qed simp

lemma Contains_no_space:
  assumes "CHR '' '' \<notin> set q" shows "\<not> Contains q (u @ CHR '' '' # v)"
  using assms unfolding Contains_iff by auto

lemma Contains_later: "Contains t p \<Longrightarrow> Contains (s @ t) p"
  unfolding Contains_iff by (metis append.assoc)

lemma not_found_code: "mapError (ErrText (p @ ''not found'' @ r)) = Status CodeNotFound (p @ ''not found'' @ r)"
  by (simp add: mapError_def Let_def del: append.simps) (simp add: Contains_iff, blast)

lemma body_size_code:
  "mapError (ErrText (''message body exceeds '' @ FormatInt MaxMessageBodyBytes @ '' bytes'')) =
     Status CodeInvalidArgument (''message body exceeds '' @ FormatInt MaxMessageBodyBytes @ '' bytes'')"
  by code_simp

lemma group_code:
  assumes "CHR '' '' \<notin> set q"
  shows "mapError (ErrText (''messageGroupId is required for FIFO queue '' @ q)) =
    Status CodeInvalidArgument (''messageGroupId is required for FIFO queue '' @ q)"
  using Contains_no_space [OF assms, of "''not''" "''found''"] by (simp add: mapError_def Let_def)

lemma queue_text:
  assumes "CHR '' '' \<notin> set q" and "\<not> HasPrefix rest ''found''"
  shows "Contains (''queue '' @ q @ CHR '' '' # rest) ''not found'' \<longleftrightarrow> Contains rest ''not found''"
  using Contains_word [of q "''not''" rest "''found''"] assms by simp

lemma no_map_code:
  assumes "CHR '' '' \<notin> set q"
  shows "mapError (ErrText (''queue '' @ q @ '' has no shard map yet (not reconciled)'')) =
    Status CodeInvalidArgument (''queue '' @ q @ '' has no shard map yet (not reconciled)'')"
  using queue_text [OF assms, of "''has no shard map yet (not reconciled)''"] Contains_later [of "'' has no shard map yet (not reconciled)''" "''not reconciled''" q]
  by (simp add: mapError_def Let_def)

lemma no_shards_code:
  assumes "CHR '' '' \<notin> set q"
  shows "mapError (ErrText (''queue '' @ q @ '' has no consumable shards'')) =
    Status CodeInvalidArgument (''queue '' @ q @ '' has no consumable shards'')"
  using queue_text [OF assms, of "''has no consumable shards''"] Contains_later [of "'' has no consumable shards''" "''no consumable shards''" q]
  by (simp add: mapError_def Let_def)

text \<open>
  The names of queues are part of the texts that are searched: an error of any kind on a queue
  whose name contains the word is reported as an invalid argument.
\<close>

lemma exceeds_queue_misreported:
  "\<exists>msg. mapError (wrapf (''send message exceeds'') e) \<in> {Status CodeInvalidArgument msg, Status CodeNotFound msg}"
  by (simp add: mapError_def Let_def)

text \<open>
  C12. Which codes callers see. For a queue whose name has no space: a body over the cap, a FIFO send
  without a group, and a receive from a queue that has no shard map or only closed shards are
  reported as invalid arguments; a send to a queue that does not exist and a change of the
  visibility of a handle that is not in flight are reported as not found.
\<close>

theorem handler_error_codes:
  assumes "CHR '' '' \<notin> set q" and "sr_QueueName req = q" and "rr_QueueName rreq = q"
    and "S = sv_sys Q" and "s = w_redis (ap_world a)"
  shows "(MaxMessageBodyBytes < int (length (sr_MessageBody req)) \<longrightarrow>
      (\<exists>msg. Handle_SendMessage Q req a = (Inl (Status CodeInvalidArgument msg), a))) \<and>
    (int (length (sr_MessageBody req)) \<le> MaxMessageBodyBytes \<longrightarrow> GetQueueMeta (Redis S) q s = (Inr None, s1) \<longrightarrow>
      (\<exists>msg a'. Handle_SendMessage Q req a = (Inl (Status CodeNotFound msg), a'))) \<and>
    (int (length (sr_MessageBody req)) \<le> MaxMessageBodyBytes \<longrightarrow> GetQueueMeta (Redis S) q s = (Inr (Some meta), s1) \<longrightarrow>
      qm_FIFO meta \<longrightarrow> sr_MessageGroupId req = '''' \<longrightarrow>
      (\<exists>msg a'. Handle_SendMessage Q req a = (Inl (Status CodeInvalidArgument msg), a'))) \<and>
    (GetShardMap (Redis S) q s = (Inr None, s1) \<longrightarrow>
      (\<exists>msg a'. Handle_ReceiveMessage Q rreq a = Some (Inl (Status CodeInvalidArgument msg), a'))) \<and>
    (GetShardMap (Redis S) q s = (Inr (Some shards), s1) \<longrightarrow> list_all (\<lambda>sh. sh_Phase sh = ''Closed'') shards \<longrightarrow>
      (\<exists>msg a'. Handle_ReceiveMessage Q rreq a = Some (Inl (Status CodeInvalidArgument msg), a'))) \<and>
    (Now (Env S) (w_env (ap_world a)) = (now, g) \<longrightarrow> ExtendVisibility (Redis S) q handle (secs * Second) now s = (Inr False, s1) \<longrightarrow>
      (\<exists>msg a'. Handle_ChangeMessageVisibility Q q handle secs a = (Inl (Status CodeNotFound msg), a')))"
proof (intro conjI impI)
  note send = Handle_SendMessage_def SendMessage_def or_status_def world_do_def redis_do_def assms(2) assms(4,5) [symmetric]
  note recv = Handle_ReceiveMessage_def Registry_Get_def ConsumableShards_def router_shards_def world_do_def redis_do_def
    assms(3) assms(4,5) [symmetric]
  show "\<exists>msg. Handle_SendMessage Q req a = (Inl (Status CodeInvalidArgument msg), a)"
    if "MaxMessageBodyBytes < int (length (sr_MessageBody req))"
    using that body_size_code by (simp add: send del: append.simps)
  show "\<exists>msg a'. Handle_SendMessage Q req a = (Inl (Status CodeNotFound msg), a')"
    if "int (length (sr_MessageBody req)) \<le> MaxMessageBodyBytes" "GetQueueMeta (Redis S) q s = (Inr None, s1)"
    using that not_found_code [of "''queue '' @ q @ '' ''" "[]"] by (simp add: send)
  show "\<exists>msg a'. Handle_SendMessage Q req a = (Inl (Status CodeInvalidArgument msg), a')"
    if "int (length (sr_MessageBody req)) \<le> MaxMessageBodyBytes" "GetQueueMeta (Redis S) q s = (Inr (Some meta), s1)"
      "qm_FIFO meta" "sr_MessageGroupId req = ''''"
    using that group_code [OF assms(1)] by (simp add: send fifo_admission_def)
  show "\<exists>msg a'. Handle_ReceiveMessage Q rreq a = Some (Inl (Status CodeInvalidArgument msg), a')"
    if "GetShardMap (Redis S) q s = (Inr None, s1)"
    using that no_map_code [OF assms(1)] by (simp add: recv)
  show "\<exists>msg a'. Handle_ReceiveMessage Q rreq a = Some (Inl (Status CodeInvalidArgument msg), a')"
    if "GetShardMap (Redis S) q s = (Inr (Some shards), s1)" "list_all (\<lambda>sh. sh_Phase sh = ''Closed'') shards"
  proof -
    have "filter (\<lambda>sh. sh_Phase sh \<noteq> ''Closed'') shards = []" using that(2) by (induction shards) auto
    with that(1) no_map_code [OF assms(1)] no_shards_code [OF assms(1)] show ?thesis by (simp add: recv)
  qed
  show "\<exists>msg a'. Handle_ChangeMessageVisibility Q q handle secs a = (Inl (Status CodeNotFound msg), a')"
    if "Now (Env S) (w_env (ap_world a)) = (now, g)" "ExtendVisibility (Redis S) q handle (secs * Second) now s = (Inr False, s1)"
    using that not_found_code [of "''receipt handle ''" "'' or already expired''"]
    by (simp add: Handle_ChangeMessageVisibility_def ChangeMessageVisibility_def with_now_def or_status_def world_do_def redis_do_def
        assms(4,5) [symmetric])
qed

definition demo_service :: "(mem, kmem \<times> mem_clients, genv, nat) QueueService" where
  "demo_service = \<lparr>sv_sys = mem_api, sv_DedupWindow = 300 * Second, sv_Committer = True, sv_Consumers = mem_consumers,
     sv_Brokers = [''b:9092''], sv_ReceivePollInterval = 0\<rparr>"

definition demo_request :: SendMessageRequest where
  "demo_request = \<lparr>sr_QueueName = ''nope'', sr_MessageBody = ''hello'', sr_MessageGroupId = '''', sr_MessageDeduplicationId = ''''\<rparr>"

definition demo_receive :: ReceiveMessageRequest where
  "demo_receive = \<lparr>rr_QueueName = ''nope'', rr_MaxNumberOfMessages = 1, rr_WaitTimeSeconds = 0, rr_VisibilityTimeoutSeconds = 0\<rparr>"

theorem handler_error_codes_witness:
  "(\<exists>msg a'. Handle_SendMessage demo_service demo_request demo_server = (Inl (Status CodeNotFound msg), a')) \<and>
   (\<exists>msg a'. Handle_ReceiveMessage demo_service demo_receive demo_server = Some (Inl (Status CodeInvalidArgument msg), a'))"
proof -
  let ?s = "w_redis (ap_world demo_server)"
  have d: "CHR '' '' \<notin> set ''nope''" "sr_QueueName demo_request = ''nope''" "rr_QueueName demo_receive = ''nope''"
    "int (length (sr_MessageBody demo_request)) \<le> MaxMessageBodyBytes" by code_simp+
  have m: "fst (GetQueueMeta (Redis (sv_sys demo_service)) ''nope'' ?s) = Inr None"
    "fst (GetShardMap (Redis (sv_sys demo_service)) ''nope'' ?s) = Inr None" by code_simp+
  from handler_error_codes [OF d(1-3) refl refl, of demo_service demo_server "snd (GetQueueMeta (Redis (sv_sys demo_service)) ''nope'' ?s)"]
    d(4) run_eqI [OF m(1)]
  have "\<exists>msg a'. Handle_SendMessage demo_service demo_request demo_server = (Inl (Status CodeNotFound msg), a')" by blast
  moreover from handler_error_codes [OF d(1-3) refl refl, of demo_service demo_server "snd (GetShardMap (Redis (sv_sys demo_service)) ''nope'' ?s)"]
    run_eqI [OF m(2)]
  have "\<exists>msg a'. Handle_ReceiveMessage demo_service demo_receive demo_server = Some (Inl (Status CodeInvalidArgument msg), a')" by blast
  ultimately show ?thesis ..
qed

section \<open>A receive returns\<close>

lemma fetching_clocked: "clocked S time_of \<Longrightarrow> clocked (fetching S C cl) time_of"
  by (simp add: clocked_def fetching_def)

lemma Handle_ReceiveMessage_returns:
  assumes "clocked (sv_sys Q) time_of"
  shows "Handle_ReceiveMessage Q req a \<noteq> None"
proof -
  have "clocked (fetching (sv_sys Q) (sv_Consumers Q) cl) time_of" for cl by (rule fetching_clocked [OF assms])
  from clocked.ReceiveMessage_not_stuck [OF this]
  have ns: "ReceiveMessage (fetching (sv_sys Q) (sv_Consumers Q) cl) pi inp w \<noteq> None" for cl pi inp w .
  show ?thesis
    by (auto simp: Handle_ReceiveMessage_def ns simp del: not_Some_eq not_None_eq split: prod.splits sum.splits option.splits)
qed

end
