(* ===== verification/Reaper_Sweep.thy ===== *)
theory Reaper_Sweep
  imports Message_Receipt
begin

text \<open>
  Package \<^verbatim>\<open>internal/core/reaper\<close>: one sweep over the expired entries of a queue's visibility
  index, the routing of exhausted messages to the dead-letter queue, and the ticker loop. The
  dead-letter sender is the program's own \<^verbatim>\<open>SendMessageService\<close>, or absent. The ticker loop ends
  only when its context is done, so it is a partial function.
\<close>

section \<open>Definitions\<close>

definition defaultSweepInterval :: duration where "defaultSweepInterval = 5 * Second"
definition sweepBatchSize :: nat where "sweepBatchSize = 100"

text \<open>\<open>sender\<close>: the deduplication window of the sending service, or \<open>None\<close> if there is none.\<close>

definition routeToDLQ ::
  "('s, 'k, 'g) sys \<Rightarrow> duration option \<Rightarrow> QueueMeta \<Rightarrow> ReapResult \<Rightarrow> ('s, 'k, 'g) world \<Rightarrow> unit res \<times> ('s, 'k, 'g) world" where
  "routeToDLQ S sender meta result w =
     (case sender of
        None \<Rightarrow> (Inr (), w)
      | Some win \<Rightarrow>
          if qm_DLQQueueName meta = '''' then (Inr (), w)
          else on_ok (SendMessage S win \<lparr>smi_QueueName = qm_DLQQueueName meta, smi_Body = rr_Body result,
                  smi_MessageGroupID = rr_GroupID result, smi_MessageDeduplicationID = ''''\<rparr> w) id
            (\<lambda>_ w. (Inr (), w)))"

text \<open>The loop over the handles: the count so far and the error that ended it, if any.\<close>

fun sweep_handles ::
  "('s, 'k, 'g) sys \<Rightarrow> duration option \<Rightarrow> string \<Rightarrow> QueueMeta \<Rightarrow> string list \<Rightarrow> int \<Rightarrow> ('s, 'k, 'g) world \<Rightarrow>
    (int \<times> go_error option) \<times> ('s, 'k, 'g) world" where
  "sweep_handles S sender queueName meta [] swept w = ((swept, None), w)"
| "sweep_handles S sender queueName meta (handle # handles) swept w =
     (case redis_do (Reap (Redis S) queueName handle (qm_MaxReceiveCount meta)) w of
        (Inl err, w) \<Rightarrow> ((swept, Some (wrapf (''reaper sweep '' @ queueName) err)), w)
      | (Inr result, w) \<Rightarrow>
          (case rr_Outcome result of
             ReapOutcomeGone \<Rightarrow> sweep_handles S sender queueName meta handles swept w
           | ReapOutcomeDLQ \<Rightarrow>
               (case routeToDLQ S sender meta result w of
                  (Inl err, w) \<Rightarrow> ((swept, Some (wrapf (''reaper sweep '' @ queueName) err)), w)
                | (Inr _, w) \<Rightarrow> sweep_handles S sender queueName meta handles (swept + 1) w)
           | ReapOutcomeRedeliver \<Rightarrow> sweep_handles S sender queueName meta handles (swept + 1) w))"

definition Sweep ::
  "('s, 'k, 'g) sys \<Rightarrow> duration option \<Rightarrow> string \<Rightarrow> ('s, 'k, 'g) world \<Rightarrow> (int \<times> go_error option) \<times> ('s, 'k, 'g) world" where
  "Sweep S sender queueName w =
     (case redis_do (GetQueueMeta (Redis S) queueName) w of
        (Inl err, w) \<Rightarrow> ((0, Some (wrapf (''reaper sweep '' @ queueName) err)), w)
      | (Inr None, w) \<Rightarrow> ((0, None), w)
      | (Inr (Some meta), w) \<Rightarrow>
          with_now S (\<lambda>now w.
            case redis_do (ExpiredVisIndexEntries (Redis S) queueName sweepBatchSize now) w of
              (Inl err, w) \<Rightarrow> ((0, Some (wrapf (''reaper sweep '' @ queueName) err)), w)
            | (Inr handles, w) \<Rightarrow> sweep_handles S sender queueName meta handles 0 w) w)"

text \<open>The ticker loop: the errors it reports, in order. A sweep error does not end it.\<close>

partial_function (option) reaper_Run ::
  "('s, 'k, 'g) sys \<Rightarrow> duration option \<Rightarrow> duration \<Rightarrow> string \<Rightarrow> go_error list \<Rightarrow> ('s, 'k, 'g) world \<Rightarrow>
    (go_error list \<times> ('s, 'k, 'g) world) option" where
  "reaper_Run S sender interval queueName reported w =
     (case Sleep (Env S) (w_env w) (if interval \<le> 0 then defaultSweepInterval else interval) of
        (Some _, g) \<Rightarrow> Some (reported, w\<lparr>w_env := g\<rparr>)
      | (None, g) \<Rightarrow>
          (case Sweep S sender queueName (w\<lparr>w_env := g\<rparr>) of
             ((_, err), w) \<Rightarrow>
               reaper_Run S sender interval queueName
                 (case err of None \<Rightarrow> reported | Some e \<Rightarrow> reported @ [e]) w))"

section \<open>What SendMessage leaves alone\<close>

text \<open>
  The commands \<^verbatim>\<open>SendMessage\<close> issues are reads and claims of deduplication keys, whatever its
  result. So a property of the server state that these keep is kept by the whole call.
\<close>

definition send_stable :: "'s redis \<Rightarrow> ('s \<Rightarrow> bool) \<Rightarrow> bool" where
  "send_stable R P =
     (\<forall>s. P s \<longrightarrow> P (snd (LINK R s)) \<and> (\<forall>k. P (snd (HGETALL R s k)) \<and> P (snd (GET R s k))) \<and>
       (\<forall>q g d v ttl. P (snd (SETNX R s (DedupKey q g d) v ttl))))"

lemma round_trip_stable:
  assumes "send_stable R P" and "P s" and "\<And>s. P s \<Longrightarrow> P (snd (f s))"
  shows "P (snd (round_trip R f s))"
  using assms by (auto simp: round_trip_def send_stable_def Let_def split: link.splits)

lemma redis_do_stable: "P (snd (f (w_redis w))) \<Longrightarrow> P (w_redis (snd (redis_do f w)))"
  by (cases "f (w_redis w)") (simp add: redis_do_def)

lemma kafka_do_stable: "P (w_redis w) \<Longrightarrow> P (w_redis (snd (kafka_do f w)))"
  by (simp add: kafka_do_def split: prod.splits)

lemma new_uuid_stable:
  "P (w_redis w) \<Longrightarrow> (\<And>u w. P (w_redis w) \<Longrightarrow> P (w_redis (snd (f u w)))) \<Longrightarrow> P (w_redis (snd (new_uuid S f w)))"
  by (simp add: new_uuid_def split: prod.splits)

lemma SendMessage_stable:
  assumes st: "send_stable (Redis S) P" and "P (w_redis w)"
  shows "P (w_redis (snd (SendMessage S win inp w)))"
proof -
  have meta: "P s \<Longrightarrow> P (snd (GetQueueMeta (Redis S) q s))" for q s
    unfolding GetQueueMeta_def using st
    by (auto intro!: on_ok_inv [where P = P] round_trip_stable [OF st] simp: send_stable_def)
  have adm: "P s \<Longrightarrow> P (snd (fifo_admission (Redis S) win inp m s))" for m s
    unfolding fifo_admission_def TryDedup_def Let_def using st
    by (auto intro!: on_ok_inv [where P = P] round_trip_stable [OF st] simp: send_stable_def)
  have route: "P s \<Longrightarrow> P (snd (RouteForSend (Redis S) q key s))" for q key s
    unfolding RouteForSend_def router_shards_def GetShardMap_def using st
    by (auto intro!: on_ok_inv [where P = P] round_trip_stable [OF st] simp: send_stable_def split: option.splits sum.splits)
  have "P (w_redis w) \<Longrightarrow> P (w_redis (snd (route_and_produce S inp m key w)))" for m key w
    unfolding route_and_produce_def Let_def
    by (auto intro!: on_ok_inv [where P = "\<lambda>w. P (w_redis w)"] redis_do_stable [where P = P] kafka_do_stable [where P = P]
        new_uuid_stable [where P = P] route)
  then show ?thesis
    using assms(2) unfolding SendMessage_def
    by (auto intro!: on_ok_inv [where P = "\<lambda>w. P (w_redis w)"] redis_do_stable [where P = P] new_uuid_stable [where P = P]
        meta adm split: option.splits)
qed

lemma routeToDLQ_stable:
  assumes "send_stable (Redis S) P" and "P (w_redis w)"
  shows "P (w_redis (snd (routeToDLQ S sender meta result w)))"
proof (cases "sender = None \<or> qm_DLQQueueName meta = ''''")
  case True
  with assms(2) show ?thesis by (auto simp: routeToDLQ_def split: option.splits)
next
  case False
  then obtain win where win: "sender = Some win" "qm_DLQQueueName meta \<noteq> ''''" by auto
  show ?thesis
    unfolding routeToDLQ_def win option.case
    by (simp add: win) (rule on_ok_inv [where P = "\<lambda>w. P (w_redis w)"], rule SendMessage_stable [OF assms], simp)
qed

definition no_dedup_key :: "string \<Rightarrow> bool" where
  "no_dedup_key k = (\<forall>q g d. k \<noteq> DedupKey q g d)"

lemma no_dedup_keys [simp]:
  "no_dedup_key (InFlightKey q h)" "no_dedup_key (VisIndexKey q)" "no_dedup_key (PendingKey q s p)"
  "no_dedup_key (RedeliverKey q)" "no_dedup_key (QueueMetaKey q)" "no_dedup_key (ShardMapKey q)"
  by (simp_all add: no_dedup_key_def)

context message_plane begin

lemma key_stable: "no_dedup_key k \<Longrightarrow> send_stable (Redis S) (\<lambda>s. ks s k = v)"
  by (auto simp: send_stable_def no_dedup_key_def)

lemma clock_stable: "send_stable (Redis S) (\<lambda>s. t \<le> clock s)"
  by (auto simp: send_stable_def order_trans [OF _ link_clock])

lemmas routeToDLQ_wkey = routeToDLQ_stable [OF key_stable]
lemmas routeToDLQ_clock = routeToDLQ_stable [OF clock_stable]

end

section \<open>A sweep empties the expired part of the index\<close>

lemma Reap_index_shrinks:
  assumes "redis_quiet R ks clock" and "Reap R q h mx s = (Inr r, s')" and "deadline (ks s (VisIndexKey q)) = None"
  shows "deadline (ks s' (VisIndexKey q)) = None \<and>
    as_zset t (ks s' (VisIndexKey q)) = AList.delete h (as_zset t' (ks s (VisIndexKey q)))"
proof -
  let ?e = "ks s (VisIndexKey q)"
  have v: "ks s' (VisIndexKey q) = snd (cmd_zrem (clock s') h ?e)"
    using redis_quiet.Reap_vis_index [OF assms(1,2)] .
  have d: "deadline (snd (cmd_zrem (clock s') h ?e)) = None" by (rule deadline_zrem [OF assms(3)])
  have "as_zset t (snd (cmd_zrem (clock s') h ?e)) = as_zset (clock s') (snd (cmd_zrem (clock s') h ?e))"
    by (rule deadline_None_later(1) [OF d])
  with v d deadline_None_later(1) [OF assms(3), of "clock s'" t'] show ?thesis by simp
qed

lemma set_alist_delete: "set (AList.delete h z) = {p \<in> set z. fst p \<noteq> h}"
  by (auto simp: AList.delete_eq)

context message_plane begin

lemma sweep_handles_cases:
  assumes "sweep_handles S sender q meta (h # hs) n w = ((m, None), w')"
  obtains r s1 n1 w1 where "Reap (Redis S) q h (qm_MaxReceiveCount meta) (w_redis w) = (Inr r, s1)"
    and "sweep_handles S sender q meta hs n1 w1 = ((m, None), w')" and "n \<le> n1" and "n1 \<le> n + 1"
    and "w1 = w\<lparr>w_redis := s1\<rparr> \<or> w1 = snd (routeToDLQ S sender meta r (w\<lparr>w_redis := s1\<rparr>))"
proof -
  obtain x s1 where x: "Reap (Redis S) q h (qm_MaxReceiveCount meta) (w_redis w) = (x, s1)" by force
  with assms obtain r where r: "x = Inr r" by (cases x) (auto simp: redis_do_def)
  obtain y w1 where y: "routeToDLQ S sender meta r (w\<lparr>w_redis := s1\<rparr>) = (y, w1)" by force
  show thesis
  proof (cases "rr_Outcome r")
    case ReapOutcomeGone
    with assms x r that [of r s1 n "w\<lparr>w_redis := s1\<rparr>"] show thesis by (auto simp: redis_do_def)
  next
    case ReapOutcomeDLQ
    with assms x r y obtain u where "y = Inr u" by (cases y) (auto simp: redis_do_def)
    with ReapOutcomeDLQ assms x r y that [of r s1 "n + 1" w1] show thesis by (auto simp: redis_do_def)
  next
    case ReapOutcomeRedeliver
    with assms x r that [of r s1 "n + 1" "w\<lparr>w_redis := s1\<rparr>"] show thesis by (auto simp: redis_do_def)
  qed
qed

lemma sweep_handles_clears:
  assumes "sweep_handles S sender q meta hs n w = ((m, None), w')" and "deadline (wks w (VisIndexKey q)) = None"
  shows "n \<le> m \<and> m \<le> n + int (length hs) \<and>
    set (as_zset t (wks w' (VisIndexKey q))) = {p \<in> set (as_zset t (wks w (VisIndexKey q))). fst p \<notin> set hs}"
  using assms
proof (induction hs arbitrary: n w)
  case Nil
  then show ?case by simp
next
  case (Cons h hs)
  from Cons.prems(1) obtain r s1 n1 w1 where reap: "Reap (Redis S) q h (qm_MaxReceiveCount meta) (w_redis w) = (Inr r, s1)"
    and rest: "sweep_handles S sender q meta hs n1 w1 = ((m, None), w')" and n1: "n \<le> n1" "n1 \<le> n + 1"
    and w1: "w1 = w\<lparr>w_redis := s1\<rparr> \<or> w1 = snd (routeToDLQ S sender meta r (w\<lparr>w_redis := s1\<rparr>))"
    by (rule sweep_handles_cases)
  have v1: "wks w1 (VisIndexKey q) = ks s1 (VisIndexKey q)"
    using w1 routeToDLQ_wkey [of "VisIndexKey q" "w\<lparr>w_redis := s1\<rparr>" "ks s1 (VisIndexKey q)"] by auto
  note sh = Reap_index_shrinks [OF redis_quiet_axioms reap Cons.prems(2)]
  from Cons.IH [OF rest] v1 sh have "n1 \<le> m \<and> m \<le> n1 + int (length hs) \<and>
    set (as_zset t (wks w' (VisIndexKey q))) = {p \<in> set (as_zset t (ks s1 (VisIndexKey q))). fst p \<notin> set hs}" by simp
  moreover have "set (as_zset t (ks s1 (VisIndexKey q))) = {p \<in> set (as_zset t (wks w (VisIndexKey q))). fst p \<noteq> h}"
    using sh [of t t] by (simp add: set_alist_delete)
  ultimately show ?case using n1 by auto
qed

lemma Sweep_runs:
  assumes "Sweep S sender q w = ((n, None), w')" and pub: "published (wks w) q meta shards"
  obtains handles w2 where "sweep_handles S sender q meta handles 0 w2 = ((n, None), w')" and "wks w2 = wks w"
    and "wclock w \<le> wclock w2" and "w_kafka w2 = w_kafka w"
    and "handles = take sweepBatchSize (map fst (filter (\<lambda>(m, sc). 0 \<le> sc \<and> sc \<le> UnixMilli (fst (Now (Env S) (w_env w))))
           (zorder (as_zset (wclock w2) (wks w (VisIndexKey q))))))"
proof -
  obtain x s1 where x: "GetQueueMeta (Redis S) q (w_redis w) = (x, s1)" by force
  with assms(1) obtain m where m: "x = Inr m" by (cases x) (auto simp: Sweep_def redis_do_def)
  with GetQueueMeta_published [OF pub] x have m': "m = Some meta" "ks s1 = wks w" "wclock w \<le> clock s1" by auto
  obtain now g where now: "Now (Env S) (w_env w) = (now, g)" by force
  obtain y s2 where y: "ExpiredVisIndexEntries (Redis S) q sweepBatchSize now s1 = (y, s2)" by force
  with assms(1) x m m'(1) now obtain hs where hs: "y = Inr hs"
    by (cases y) (auto simp: Sweep_def redis_do_def with_now_def)
  with y have y': "ExpiredVisIndexEntries (Redis S) q sweepBatchSize now s1 = (Inr hs, s2)" by simp
  from assms(1) x m m'(1) now y hs
  have "sweep_handles S sender q meta hs 0 (w\<lparr>w_env := g, w_redis := s2\<rparr>) = ((n, None), w')"
    by (simp add: Sweep_def redis_do_def with_now_def)
  with that [of hs "w\<lparr>w_env := g, w_redis := s2\<rparr>"] ExpiredVisIndexEntries_ok [OF y'] m' now show thesis by simp
qed

end


section \<open>Properties\<close>



definition demo_late :: "(mem, kmem, genv) world" where
  "demo_late = demo_inflight\<lparr>w_env := \<lparr>g_time = 40 * Second, g_uuid = 0, g_ctx = None\<rparr>\<rparr>"

lemma demo_late_published: "published (mem_ks (w_redis demo_late)) ''orders'' demo_config [shard0]"
  by code_simp


text \<open>
  C20. Dead-lettering, end to end: when a message whose receive count has reached the limit
  is reaped and the sweep goes on without error, its body has been produced once to an active
  shard of the dead-letter queue, keyed by its message group, and no trace of the message is
  left in the in-flight records, the visibility index and the pending set of its own queue.
\<close>

context message_plane begin

lemma SendMessage_produces:
  assumes "SendMessage S win inp w = (Inr out, w')" and "published (wks w) (smi_QueueName inp) meta shards"
    and "smi_MessageDeduplicationID inp = ''''" and "smi_MessageGroupID inp = g" and "smi_Body inp = body"
  shows "\<exists>key shard. SelectShard (ActiveShards shards) key = Some shard \<and> (g \<noteq> '''' \<longrightarrow> key = g) \<and>
    ProduceSync (Kafka S) (w_kafka w) (sh_Topic shard) (PartitionWithinShard key (qm_PartitionsPerShard meta))
      (if qm_FIFO meta then Some g else None) body = (Inr (smo_SequenceNumber out), w_kafka w')"
  using SendMessage_ok [OF assms(1,2)] unfolding assms(3-5)
  by (simp only: simp_thms if_False) (elim conjE exE, intro exI conjI, assumption+)

end

lemma Reap_pending:
  assumes "redis_quiet R ks clock" and "Reap R q h mx s = (Inr r, s')"
    and "h \<in> fst ` set (as_zset (clock s') (ks s (VisIndexKey q)))"
    and "holds_record (clock s') (ks s) q h rec" and "record_in_range rec" and "int_in_bits 32 mx"
    and "mx \<le> ifr_ReceiveCount rec"
  shows "rr_Outcome r = ReapOutcomeDLQ \<and> rr_Body r = ifr_Body rec \<and> rr_GroupID r = ifr_GroupID rec \<and>
    ks s' (InFlightKey q h) = None \<and> h \<notin> fst ` set (as_zset (clock s') (ks s' (VisIndexKey q))) \<and>
    FormatInt (ifr_Offset rec) \<notin> fst ` set (as_zset (clock s') (ks s' (PendingKey q (ifr_ShardID rec) (ifr_Partition rec)))) \<and>
    (\<forall>q'. ks s' (QueueMetaKey q') = ks s (QueueMetaKey q') \<and> ks s' (ShardMapKey q') = ks s (ShardMapKey q'))"
  using redis_quiet.Reap_ok [OF assms(1-6)] assms(7)
  by (auto simp: unlock_other delete_notin_dom)



text \<open>The message of \<open>demo_late\<close> with a receive limit of one, and a published dead-letter queue.\<close>

definition demo_exhausted :: "(mem, kmem, genv) world" where
  "demo_exhausted = demo_late\<lparr>w_redis := (w_redis demo_late)\<lparr>m_db :=
     [(''kmsvc:queue:orders-dlq'', RHash [(''fifo'', ''0''), (''partitionsPerShard'', ''6'')], None),
      (''kmsvc:shardmap:orders-dlq'', RStr (marshal_shards [shard0\<lparr>sh_Topic := ''dlq''\<rparr>]), None)] @
     m_db (w_redis demo_late)\<rparr>\<rparr>"

definition demo_dlq_config :: QueueMeta where
  "demo_dlq_config = decode_queue_meta [(''fifo'', ''0''), (''partitionsPerShard'', ''6'')]"

lemma demo_exhausted_holds:
  "mem_ks (w_redis demo_exhausted) (InFlightKey ''orders'' ''h1'') = mem_ks (w_redis demo_inflight) (InFlightKey ''orders'' ''h1'')"
  "mem_ks (w_redis demo_exhausted) (VisIndexKey ''orders'') = Some (RZSet [(''h1'', 31000)], None)"
  "published (mem_ks (w_redis demo_exhausted)) ''orders-dlq'' demo_dlq_config [shard0\<lparr>sh_Topic := ''dlq''\<rparr>]"
  by code_simp+


text \<open>
  C35. The state of an exhausted message is deleted before it is sent to the dead-letter
  queue, so a failing send loses it. In this run the dead-letter queue is not known yet: the
  sweep reports an error, and the message is in no index, no list and no Kafka log.
\<close>

definition demo_lost :: "(mem, kmem, genv) world" where
  "demo_lost = snd (sweep_handles mem_sys (Some 0) ''orders'' (demo_config\<lparr>qm_MaxReceiveCount := 1\<rparr>) [''h1''] 0 demo_late)"


end
