(* ===== verification/Worker_Controller.thy ===== *)
theory Worker_Controller
  imports Kube_Api
begin

text \<open>
  \<^verbatim>\<open>internal/operator/temporal_worker_controller.go\<close>: the controller that keeps a Deployment for
  every \<^verbatim>\<open>TemporalWorker\<close> the queue controller has created. Its state is the cluster alone.
  \<open>worker_store\<close> is the contract of the API server for workers and deployments; \<open>mem_kube\<close>
  meets it.
\<close>

section \<open>The desired deployment\<close>

definition temporalWorkerFinalizerName :: string where
  "temporalWorkerFinalizerName = ''kmsvc.io/temporal-worker''"

abbreviation tw_Name :: "TemporalWorker \<Rightarrow> string" where "tw_Name t \<equiv> om_Name (tw_Meta t)"
abbreviation worker_key :: "TemporalWorker \<Rightarrow> string \<times> string" where "worker_key t \<equiv> meta_key (tw_Meta t)"

definition worker_deleting :: "TemporalWorker \<Rightarrow> bool" where
  "worker_deleting t = (case om_DeletionTimestamp (tw_Meta t) of None \<Rightarrow> False | Some d \<Rightarrow> d \<noteq> zero_time)"

definition worker_finalizers :: "TemporalWorker \<Rightarrow> string list \<Rightarrow> TemporalWorker" where
  "worker_finalizers t fs = t\<lparr>tw_Meta := (tw_Meta t)\<lparr>om_Finalizers := fs\<rparr>\<rparr>"

definition desired_replicas :: "TemporalWorker \<Rightarrow> int" where
  "desired_replicas worker = (case tws_Replicas (tw_Spec worker) of None \<Rightarrow> 1 | Some n \<Rightarrow> n)"

definition desired_pull_policy :: "TemporalWorker \<Rightarrow> string" where
  "desired_pull_policy worker =
     (if tws_ImagePullPolicy (tw_Spec worker) \<noteq> '''' then tws_ImagePullPolicy (tw_Spec worker) else ''IfNotPresent'')"

definition worker_labels :: "TemporalWorker \<Rightarrow> (string \<times> string) list" where
  "worker_labels worker =
     [(''app.kubernetes.io/name'', ''temporal-worker''),
      (''app.kubernetes.io/instance'', tw_Name worker),
      (''app.kubernetes.io/managed-by'', ''kmsvc-temporal-operator'')]"

definition worker_container :: "TemporalWorker \<Rightarrow> Container" where
  "worker_container worker = \<lparr>
     c_Name = ''worker'',
     c_Image = tws_Image (tw_Spec worker),
     c_ImagePullPolicy = desired_pull_policy worker,
     c_Env = [(''TEMPORAL_FRONTEND_ADDRESS'', ''temporal-frontend.temporal.svc.cluster.local:7233''),
       (''TEMPORAL_NAMESPACE'', tws_Namespace (tw_Spec worker)),
       (''TEMPORAL_TASK_QUEUE'', tw_Name worker)],
     c_Resources = tws_Resources (tw_Spec worker)\<rparr>"

text \<open>The function passed to \<^verbatim>\<open>CreateOrUpdate\<close>: placement is only written when the worker asks for one.\<close>

definition fill_deployment :: "'c kube_api \<Rightarrow> TemporalWorker \<Rightarrow> Deployment \<Rightarrow> Deployment res" where
  "fill_deployment K worker deployment =
     (case SetControllerReference K worker deployment of
       Inl e \<Rightarrow> Inl (wrapf ''set controller reference'' e)
     | Inr d \<Rightarrow>
         let spec = tw_Spec worker;
             d = d\<lparr>d_Replicas := Some (desired_replicas worker), d_Selector := worker_labels worker,
                   d_TemplateLabels := worker_labels worker, d_Containers := [worker_container worker]\<rparr>;
             d = (if 0 < length (tws_NodeSelector spec) then d\<lparr>d_NodeSelector := tws_NodeSelector spec\<rparr> else d);
             d = (if tws_Affinity spec \<noteq> None then d\<lparr>d_Affinity := tws_Affinity spec\<rparr> else d);
             d = (if 0 < length (tws_Tolerations spec) then d\<lparr>d_Tolerations := tws_Tolerations spec\<rparr> else d)
         in Inr d)"

section \<open>Status and reconcile\<close>

definition with_worker_phase :: "TemporalWorker \<Rightarrow> TemporalWorkerPhase \<Rightarrow> TemporalWorker" where
  "with_worker_phase t p = t\<lparr>tw_Status := (tw_Status t)\<lparr>twst_Phase := p\<rparr>\<rparr>"

definition nil_panic :: go_error where
  "nil_panic = ErrText ''runtime error: invalid memory address or nil pointer dereference''"

text \<open>The status after a successful \<^verbatim>\<open>CreateOrUpdate\<close>; \<^const>\<open>None\<close> replicas would be a nil dereference.\<close>

definition worker_status :: "TemporalWorker \<Rightarrow> Deployment \<Rightarrow> TemporalWorker res" where
  "worker_status worker deployment =
     (case d_Replicas deployment of None \<Rightarrow> Inl nil_panic
      | Some n \<Rightarrow> Inr (worker\<lparr>tw_Status := (tw_Status worker)\<lparr>
          twst_Replicas := n, twst_ReadyReplicas := d_ReadyReplicas deployment,
          twst_Phase := (if d_ReadyReplicas deployment = n then TemporalWorkerPhaseReady else TemporalWorkerPhasePending)\<rparr>\<rparr>))"

definition worker_reconcileDelete :: "'c kube_api \<Rightarrow> TemporalWorker \<Rightarrow> 'c \<Rightarrow> unit res \<times> 'c" where
  "worker_reconcileDelete K worker c =
     (let fs = om_Finalizers (tw_Meta worker) in
      if \<not> ContainsFinalizer K fs temporalWorkerFinalizerName then (Inr (), c)
      else on_ok (UpdateWorker K c (worker_finalizers worker (RemoveFinalizer K fs temporalWorkerFinalizerName)))
        (wrapf ''remove finalizer'') (\<lambda>_ c. (Inr (), c)))"

definition worker_ensure_finalizer :: "'c kube_api \<Rightarrow> TemporalWorker \<Rightarrow> 'c \<Rightarrow> TemporalWorker res \<times> 'c" where
  "worker_ensure_finalizer K worker c =
     (let fs = om_Finalizers (tw_Meta worker) in
      if ContainsFinalizer K fs temporalWorkerFinalizerName then (Inr worker, c)
      else on_ok (UpdateWorker K c (worker_finalizers worker (AddFinalizer K fs temporalWorkerFinalizerName)))
        (wrapf ''add finalizer'') (\<lambda>worker c. (Inr worker, c)))"

text \<open>
  From the seed object to the status update. The error of a failed \<^verbatim>\<open>CreateOrUpdate\<close> is
  answered after the phase has been stored, unless storing it fails too.
\<close>

definition reconcile_deployment :: "'c kube_api \<Rightarrow> TemporalWorker \<Rightarrow> 'c \<Rightarrow> unit res \<times> 'c" where
  "reconcile_deployment K worker c =
     (case CreateOrUpdateDeployment K c (new_Deployment (tw_Name worker) (om_Namespace (tw_Meta worker)))
        (fill_deployment K worker) of (r, c) \<Rightarrow>
      (case r of
        Inl err \<Rightarrow>
          on_ok (UpdateWorkerStatus K c (with_worker_phase worker TemporalWorkerPhaseFailed))
            (wrapf ''update status failed'') (\<lambda>_ c. (Inl err, c))
      | Inr deployment \<Rightarrow>
          on_ok (worker_status worker deployment, c) id (\<lambda>worker c.
          on_ok (UpdateWorkerStatus K c worker) (wrapf ''update status'') (\<lambda>_ c. (Inr (), c)))))"

definition Worker_Reconcile :: "'c kube_api \<Rightarrow> string \<Rightarrow> string \<Rightarrow> 'c \<Rightarrow> unit res \<times> 'c" where
  "Worker_Reconcile K namespace name c =
     on_ok (GetWorker K c namespace name) (wrapf (''get temporalworker '' @ namespace @ ''/'' @ name)) (\<lambda>found c.
       case found of None \<Rightarrow> (Inr (), c)
       | Some worker \<Rightarrow>
           if worker_deleting worker then worker_reconcileDelete K worker c
           else on_ok (worker_ensure_finalizer K worker c) id (\<lambda>worker c. reconcile_deployment K worker c))"

section \<open>Contract of the API server\<close>

text \<open>
  Workers and deployments are stored by namespace and name. A status update changes the status
  of its worker only; a plain update leaves the status alone and removes a worker that is
  being deleted and has no finalizer left. \<^verbatim>\<open>CreateOrUpdate\<close> applies the caller's function to the
  stored deployment, or to the seed if there is none, and stores its result; a reference to
  the controller changes the owner and nothing else.
\<close>

definition worker_after_update :: "TemporalWorker \<Rightarrow> TemporalWorker option" where
  "worker_after_update t =
     (if om_DeletionTimestamp (tw_Meta t) \<noteq> None \<and> om_Finalizers (tw_Meta t) = [] then None else Some t)"

locale worker_store =
  fixes K :: "'c kube_api" and workers :: "'c \<Rightarrow> string \<times> string \<rightharpoonup> TemporalWorker"
    and deployments :: "'c \<Rightarrow> string \<times> string \<rightharpoonup> Deployment"
  assumes get_worker: "GetWorker K c ns n = (Inr r, c') \<Longrightarrow>
      r = workers c (ns, n) \<and> workers c' = workers c \<and> deployments c' = deployments c"
    and update_worker: "UpdateWorker K c t = (Inr t', c') \<Longrightarrow>
      \<exists>t0. workers c (worker_key t) = Some t0 \<and> t' = t\<lparr>tw_Status := tw_Status t0\<rparr> \<and>
        workers c' = (workers c)(worker_key t := worker_after_update t') \<and> deployments c' = deployments c"
    and update_worker_status: "UpdateWorkerStatus K c t = (Inr t', c') \<Longrightarrow>
      \<exists>t0. workers c (worker_key t) = Some t0 \<and> t' = t0\<lparr>tw_Status := tw_Status t\<rparr> \<and>
        workers c' = (workers c)(worker_key t \<mapsto> t') \<and> deployments c' = deployments c"
    and create_or_update: "CreateOrUpdateDeployment K c seed f = (Inr d, c') \<Longrightarrow>
      f (case deployments c (meta_key (d_Meta seed)) of Some d0 \<Rightarrow> d0 | None \<Rightarrow> seed) = Inr d \<and>
      deployments c' = (deployments c)(meta_key (d_Meta seed) \<mapsto> d) \<and> workers c' = workers c"
    and create_or_update_error: "CreateOrUpdateDeployment K c seed f = (Inl e, c') \<Longrightarrow>
      deployments c' = deployments c \<and> workers c' = workers c"
    and set_reference: "SetControllerReference K t d = Inr d' \<Longrightarrow> d' = d\<lparr>d_Owner := Some (worker_key t)\<rparr>"
    and worker_contains_finalizer: "ContainsFinalizer K fs fin \<longleftrightarrow> fin \<in> set fs"
    and worker_add_finalizer: "set (AddFinalizer K fs fin) = insert fin (set fs)"
    and worker_remove_finalizer: "set (RemoveFinalizer K fs fin) = set fs - {fin}"

begin

lemma fill_deployment_ok:
  assumes "fill_deployment K t d0 = Inr d"
  shows "d_Owner d = Some (worker_key t) \<and> d_Replicas d = Some (desired_replicas t) \<and>
    d_Selector d = worker_labels t \<and> d_TemplateLabels d = worker_labels t \<and> d_Containers d = [worker_container t] \<and>
    d_NodeSelector d = (if tws_NodeSelector (tw_Spec t) = [] then d_NodeSelector d0 else tws_NodeSelector (tw_Spec t)) \<and>
    d_Affinity d = (if tws_Affinity (tw_Spec t) = None then d_Affinity d0 else tws_Affinity (tw_Spec t)) \<and>
    d_Tolerations d = (if tws_Tolerations (tw_Spec t) = [] then d_Tolerations d0 else tws_Tolerations (tw_Spec t)) \<and>
    d_ReadyReplicas d = d_ReadyReplicas d0 \<and> d_Meta d = d_Meta d0"
proof (cases "SetControllerReference K t d0")
  case (Inl e)
  with assms show ?thesis by (simp add: fill_deployment_def)
next
  case (Inr d1)
  from set_reference [OF Inr] assms Inr show ?thesis by (auto simp: fill_deployment_def Let_def)
qed

lemma worker_ensure_finalizer_ok:
  assumes "worker_ensure_finalizer K t c = (Inr t', c')" and "workers c (worker_key t) = Some t" and "\<not> worker_deleting t"
  shows "workers c' = (workers c)(worker_key t \<mapsto> t') \<and> deployments c' = deployments c \<and>
    temporalWorkerFinalizerName \<in> set (om_Finalizers (tw_Meta t')) \<and> worker_key t' = worker_key t \<and>
    tw_Spec t' = tw_Spec t \<and> tw_Status t' = tw_Status t"
proof (cases "temporalWorkerFinalizerName \<in> set (om_Finalizers (tw_Meta t))")
  case True
  with assms show ?thesis by (auto simp: worker_ensure_finalizer_def worker_contains_finalizer Let_def)
next
  case False
  let ?t = "worker_finalizers t (AddFinalizer K (om_Finalizers (tw_Meta t)) temporalWorkerFinalizerName)"
  from False assms(1) have u: "UpdateWorker K c ?t = (Inr t', c')"
    by (auto simp: worker_ensure_finalizer_def worker_contains_finalizer Let_def elim: on_okE)
  have k: "worker_key ?t = worker_key t" by (simp add: worker_finalizers_def)
  have fin: "temporalWorkerFinalizerName \<in> set (om_Finalizers (tw_Meta ?t))"
    by (simp add: worker_finalizers_def worker_add_finalizer)
  from update_worker [OF u] assms(2) k have t': "t' = ?t\<lparr>tw_Status := tw_Status t\<rparr>"
    and ws: "workers c' = (workers c)(worker_key t := worker_after_update t')" "deployments c' = deployments c" by auto
  have "worker_after_update t' = Some t'" using fin t' by (auto simp: worker_after_update_def)
  with ws t' fin k show ?thesis by (simp add: worker_finalizers_def)
qed

lemma reconcile_deployment_ok:
  assumes "reconcile_deployment K t c = (Inr (), c')" and "workers c (worker_key t) = Some t"
  shows "\<exists>d. fill_deployment K t (case deployments c (worker_key t) of Some d0 \<Rightarrow> d0
      | None \<Rightarrow> new_Deployment (tw_Name t) (om_Namespace (tw_Meta t))) = Inr d \<and>
    deployments c' = (deployments c)(worker_key t \<mapsto> d) \<and>
    (\<exists>t'. worker_status t d = Inr t' \<and> workers c' = (workers c)(worker_key t \<mapsto> t'))"
proof -
  let ?seed = "new_Deployment (tw_Name t) (om_Namespace (tw_Meta t))"
  have seed: "meta_key (d_Meta ?seed) = worker_key t" by (simp add: new_Deployment_def meta_of_def)
  obtain r c1 where cu: "CreateOrUpdateDeployment K c ?seed (fill_deployment K t) = (r, c1)" by fastforce
  with assms(1) obtain d t1 t2 where r: "r = Inr d" and st: "worker_status t d = Inr t1"
    and u: "UpdateWorkerStatus K c1 t1 = (Inr t2, c')"
    by (auto simp: reconcile_deployment_def split: sum.splits elim!: on_okE)
  note c = create_or_update [OF cu [unfolded r]]
  from st have t1: "tw_Meta t1 = tw_Meta t" "tw_Spec t1 = tw_Spec t"
    by (auto simp: worker_status_def split: option.splits)
  from update_worker_status [OF u] c assms(2) t1 have "t2 = t\<lparr>tw_Status := tw_Status t1\<rparr>"
    and ws: "workers c' = (workers c)(worker_key t \<mapsto> t2)" "deployments c' = deployments c1" by auto
  then have "t2 = t1" using t1 by simp
  with ws c st seed show ?thesis by auto
qed

lemma Worker_Reconcile_deployed:
  assumes "Worker_Reconcile K ns n c = (Inr (), c')" and "workers c (ns, n) = Some t" and "worker_key t = (ns, n)"
    and "\<not> worker_deleting t"
  shows "\<exists>t1 d t'. tw_Spec t1 = tw_Spec t \<and> worker_key t1 = (ns, n) \<and>
    temporalWorkerFinalizerName \<in> set (om_Finalizers (tw_Meta t1)) \<and>
    fill_deployment K t1 (case deployments c (ns, n) of Some d0 \<Rightarrow> d0 | None \<Rightarrow> new_Deployment n ns) = Inr d \<and>
    deployments c' = (deployments c)((ns, n) \<mapsto> d) \<and> worker_status t1 d = Inr t' \<and> workers c' = (workers c)((ns, n) \<mapsto> t')"
proof -
  from assms(1) obtain v c0 where g: "GetWorker K c ns n = (Inr v, c0)"
    and rest: "(case v of None \<Rightarrow> (Inr (), c0) | Some worker \<Rightarrow>
      if worker_deleting worker then worker_reconcileDelete K worker c0
      else on_ok (worker_ensure_finalizer K worker c0) id (\<lambda>worker c. reconcile_deployment K worker c)) = (Inr (), c')"
    unfolding Worker_Reconcile_def by (rule on_okE)
  from get_worker [OF g] assms(2) have v: "v = Some t" and c0: "workers c0 = workers c" "deployments c0 = deployments c" by auto
  with rest assms(4) obtain t1 c1 where e: "worker_ensure_finalizer K t c0 = (Inr t1, c1)"
    and d: "reconcile_deployment K t1 c1 = (Inr (), c')" by (auto elim: on_okE)
  from worker_ensure_finalizer_ok [OF e] c0 assms(2,3,4) have w1: "workers c1 = (workers c)((ns, n) \<mapsto> t1)"
    "deployments c1 = deployments c" "temporalWorkerFinalizerName \<in> set (om_Finalizers (tw_Meta t1))"
    "worker_key t1 = (ns, n)" "tw_Spec t1 = tw_Spec t" by auto
  from reconcile_deployment_ok [OF d] w1 show ?thesis by auto
qed

end

lemma worker_status_ok:
  assumes "worker_status t d = Inr t'" and "d_Replicas d = Some m"
  shows "tw_Spec t' = tw_Spec t \<and> tw_Meta t' = tw_Meta t \<and> twst_Replicas (tw_Status t') = m \<and>
    twst_ReadyReplicas (tw_Status t') = d_ReadyReplicas d \<and>
    twst_Phase (tw_Status t') = (if d_ReadyReplicas d = m then TemporalWorkerPhaseReady else TemporalWorkerPhasePending)"
  using assms by (auto simp: worker_status_def)

section \<open>The deployment follows the worker\<close>

definition mem_workers :: "kcluster \<Rightarrow> string \<times> string \<rightharpoonup> TemporalWorker" where
  "mem_workers c = map_of (kc_workers c)"

definition mem_deployments :: "kcluster \<Rightarrow> string \<times> string \<rightharpoonup> Deployment" where
  "mem_deployments c = map_of (kc_deployments c)"

interpretation mem_workers: worker_store mem_kube mem_workers mem_deployments
  by unfold_locales
    (auto simp: mem_kube_def mem_workers_def mem_deployments_def worker_after_update_def Let_def
      split: option.splits if_splits sum.splits)

text \<open>
  C13. A successful reconcile of a live worker makes its deployment what the worker asks for: owned by
  the worker, with its replica count (1 when unset), one container of its image, pull policy
  and resources that is told the Temporal namespace and the task queue, and a selector equal
  to the labels of the pods it creates. The status of the worker records the counts of the
  deployment and is ready exactly when all desired replicas are; every other worker and
  deployment is untouched. Node selector, affinity and tolerations of the worker are copied
  when present, but those a worker no longer has stay on its deployment.
\<close>

theorem Worker_Reconcile_realises:
  assumes "worker_store K workers deployments" and "Worker_Reconcile K ns n c = (Inr (), c')"
    and "workers c (ns, n) = Some t" and "worker_key t = (ns, n)" and "\<not> worker_deleting t"
    and "d0 = (case deployments c (ns, n) of Some d0 \<Rightarrow> d0 | None \<Rightarrow> new_Deployment n ns)"
  shows "\<exists>d t'. deployments c' = (deployments c)((ns, n) \<mapsto> d) \<and> workers c' = (workers c)((ns, n) \<mapsto> t') \<and>
    d_Owner d = Some (ns, n) \<and> d_Replicas d = Some (desired_replicas t) \<and> d_Containers d = [worker_container t] \<and>
    d_Selector d = worker_labels t \<and> d_TemplateLabels d = d_Selector d \<and>
    d_NodeSelector d = (if tws_NodeSelector (tw_Spec t) = [] then d_NodeSelector d0 else tws_NodeSelector (tw_Spec t)) \<and>
    d_Affinity d = (if tws_Affinity (tw_Spec t) = None then d_Affinity d0 else tws_Affinity (tw_Spec t)) \<and>
    d_Tolerations d = (if tws_Tolerations (tw_Spec t) = [] then d_Tolerations d0 else tws_Tolerations (tw_Spec t)) \<and>
    tw_Spec t' = tw_Spec t \<and> temporalWorkerFinalizerName \<in> set (om_Finalizers (tw_Meta t')) \<and>
    twst_Replicas (tw_Status t') = desired_replicas t \<and> twst_ReadyReplicas (tw_Status t') = d_ReadyReplicas d0 \<and>
    twst_Phase (tw_Status t') =
      (if d_ReadyReplicas d0 = desired_replicas t then TemporalWorkerPhaseReady else TemporalWorkerPhasePending)"
proof -
  from worker_store.Worker_Reconcile_deployed [OF assms(1-5)] assms(6) obtain t1 d t' where
    t1: "tw_Spec t1 = tw_Spec t" "worker_key t1 = (ns, n)" "temporalWorkerFinalizerName \<in> set (om_Finalizers (tw_Meta t1))"
    and f: "fill_deployment K t1 d0 = Inr d" and s: "worker_status t1 d = Inr t'"
    and c': "deployments c' = (deployments c)((ns, n) \<mapsto> d)" "workers c' = (workers c)((ns, n) \<mapsto> t')" by blast
  have same: "worker_container t1 = worker_container t" "worker_labels t1 = worker_labels t" "desired_replicas t1 = desired_replicas t"
    using t1 assms(4) by (simp_all add: worker_container_def worker_labels_def desired_replicas_def desired_pull_policy_def)
  note d = worker_store.fill_deployment_ok [OF assms(1) f]
  from worker_status_ok [OF s, of "desired_replicas t"] d same have "tw_Spec t' = tw_Spec t1" "tw_Meta t' = tw_Meta t1"
    "twst_Replicas (tw_Status t') = desired_replicas t" "twst_ReadyReplicas (tw_Status t') = d_ReadyReplicas d0"
    "twst_Phase (tw_Status t') =
      (if d_ReadyReplicas d0 = desired_replicas t then TemporalWorkerPhaseReady else TemporalWorkerPhasePending)" by simp_all
  with c' d t1 same show ?thesis by (intro exI [of _ d] exI [of _ t']) simp
qed

text \<open>A worker whose node selector has been removed, and its deployment from before.\<close>

definition demo_worker :: TemporalWorker where
  "demo_worker = \<lparr>
     tw_Meta = \<lparr>om_Name = ''worker-story'', om_Namespace = ''temporal'', om_Labels = None, om_Finalizers = [],
       om_CreationTimestamp = 5, om_DeletionTimestamp = None\<rparr>,
     tw_Spec = \<lparr>tws_Namespace = ''story'', tws_Image = ''story/worker:2'', tws_ImagePullPolicy = '''', tws_Replicas = Some 2,
       tws_Resources = None, tws_NodeSelector = [], tws_Affinity = None, tws_Tolerations = []\<rparr>,
     tw_Status = \<lparr>twst_Phase = '''', twst_Replicas = 0, twst_ReadyReplicas = 0, twst_Conditions = []\<rparr>\<rparr>"

definition demo_deployment :: Deployment where
  "demo_deployment = (new_Deployment ''worker-story'' ''temporal'')\<lparr>
     d_NodeSelector := [(''disk'', ''ssd'')], d_ReadyReplicas := 2\<rparr>"

definition demo_workers :: kcluster where
  "demo_workers = \<lparr>kc_queues = [], kc_workers = [((''temporal'', ''worker-story''), demo_worker)],
     kc_deployments = [((''temporal'', ''worker-story''), demo_deployment)], kc_pods = [], kc_nodes = [], kc_namespaces = []\<rparr>"

theorem Worker_Reconcile_realises_witness:
  "\<exists>d t'. mem_deployments (snd (Worker_Reconcile mem_kube ''temporal'' ''worker-story'' demo_workers)) (''temporal'', ''worker-story'') = Some d \<and>
     d_Replicas d = Some 2 \<and> d_NodeSelector d = [(''disk'', ''ssd'')] \<and>
   mem_workers (snd (Worker_Reconcile mem_kube ''temporal'' ''worker-story'' demo_workers)) (''temporal'', ''worker-story'') = Some t' \<and>
     tws_NodeSelector (tw_Spec t') = [] \<and> twst_Phase (tw_Status t') = TemporalWorkerPhaseReady"
proof -
  have r: "fst (Worker_Reconcile mem_kube ''temporal'' ''worker-story'' demo_workers) = Inr ()" by code_simp
  have s: "mem_workers demo_workers (''temporal'', ''worker-story'') = Some demo_worker"
    "mem_deployments demo_workers (''temporal'', ''worker-story'') = Some demo_deployment" 
    by (simp_all add: mem_workers_def mem_deployments_def demo_workers_def)
  have t: "worker_key demo_worker = (''temporal'', ''worker-story'')" "\<not> worker_deleting demo_worker"
    "desired_replicas demo_worker = 2" "tws_NodeSelector (tw_Spec demo_worker) = []"
    "d_ReadyReplicas demo_deployment = 2" "d_NodeSelector demo_deployment = [(''disk'', ''ssd'')]" by code_simp+
  from Worker_Reconcile_realises [OF mem_workers.worker_store_axioms, OF run_eqI [OF r] s(1) t(1,2) refl] s(2) t(3-6)
  show ?thesis by auto
qed

lemma worker_reconcileDelete_releases:
  assumes "worker_store K workers deployments" and "worker_reconcileDelete K t c = (Inr (), c')"
    and "temporalWorkerFinalizerName \<in> set (om_Finalizers (tw_Meta t))"
  shows "deployments c' = deployments c \<and>
    (\<forall>t'. workers c' (worker_key t) = Some t' \<longrightarrow> temporalWorkerFinalizerName \<notin> set (om_Finalizers (tw_Meta t')))"
proof -
  let ?t = "worker_finalizers t (RemoveFinalizer K (om_Finalizers (tw_Meta t)) temporalWorkerFinalizerName)"
  from assms obtain t' where u: "UpdateWorker K c ?t = (Inr t', c')"
    by (auto simp: worker_reconcileDelete_def worker_store.worker_contains_finalizer [OF assms(1)] Let_def elim!: on_okE)
  have "temporalWorkerFinalizerName \<notin> set (om_Finalizers (tw_Meta ?t))" "worker_key ?t = worker_key t"
    by (simp_all add: worker_finalizers_def worker_store.worker_remove_finalizer [OF assms(1)])
  with worker_store.update_worker [OF assms(1) u] show ?thesis
    by (auto simp: worker_after_update_def split: if_splits)
qed

lemma reconcile_deployment_failure:
  assumes "worker_store K workers deployments" and "workers c (worker_key t) = Some t"
    and "CreateOrUpdateDeployment K c (new_Deployment (tw_Name t) (om_Namespace (tw_Meta t))) (fill_deployment K t) = (Inl e, c1)"
  shows "\<exists>e'. fst (reconcile_deployment K t c) = Inl e' \<and>
    (e' = e \<longrightarrow> (\<forall>x. e \<noteq> wrapf ''update status failed'' x) \<longrightarrow>
      (\<exists>t'. workers (snd (reconcile_deployment K t c)) (worker_key t) = Some t' \<and>
        twst_Phase (tw_Status t') = TemporalWorkerPhaseFailed))"
proof (cases "UpdateWorkerStatus K c1 (with_worker_phase t TemporalWorkerPhaseFailed)")
  case (Pair r c2)
  have k: "worker_key (with_worker_phase t TemporalWorkerPhaseFailed) = worker_key t"
    "twst_Phase (tw_Status (with_worker_phase t TemporalWorkerPhaseFailed)) = TemporalWorkerPhaseFailed"
    by (simp_all add: with_worker_phase_def)
  show ?thesis
  proof (cases r)
    case (Inl e2)
    with Pair assms(3) show ?thesis by (auto simp: reconcile_deployment_def)
  next
    case (Inr t2)
    from worker_store.update_worker_status [OF assms(1) Pair [unfolded Inr]] k
    have "workers c2 (worker_key t) = Some t2" "twst_Phase (tw_Status t2) = TemporalWorkerPhaseFailed" by auto
    with Pair Inr assms(3) show ?thesis by (simp add: reconcile_deployment_def)
  qed
qed

end
