(* ===== verification/Server_Config.thy ===== *)
theory Server_Config
  imports Api_Handlers Reaper_Sweep Queue_Controller Worker_Controller "HOL-Library.Sublist"
begin

text \<open>
  Configuration and wiring: \<^verbatim>\<open>internal/config/config.go\<close>, the construction of the services and the
  reaper discovery of \<^verbatim>\<open>cmd/server/main.go\<close>, and the settings of \<^verbatim>\<open>cmd/queue-operator/main.go\<close>.
  The process environment is a function that answers the empty string for unset variables.
  White space is the white space of ASCII. The main functions that use these parts, connecting and
  disconnecting, are in \<open>Server_Main\<close>.
\<close>

section \<open>Configuration\<close>

definition is_space :: "char \<Rightarrow> bool" where
  "is_space c = (c \<in> {CHR '' '', CHR 0x09, CHR 0x0A, CHR 0x0B, CHR 0x0C, CHR 0x0D})"

definition TrimSpace :: "string \<Rightarrow> string" where
  "TrimSpace s = rev (dropWhile is_space (rev (dropWhile is_space s)))"

fun Split :: "string \<Rightarrow> char \<Rightarrow> string list" where
  "Split [] sep = [[]]"
| "Split (c # cs) sep =
     (if c = sep then [] # Split cs sep
      else case Split cs sep of p # ps \<Rightarrow> (c # p) # ps | [] \<Rightarrow> [[c]])"

definition getEnv :: "(string \<Rightarrow> string) \<Rightarrow> string \<Rightarrow> string \<Rightarrow> string" where
  "getEnv Getenv key def = (if Getenv key \<noteq> '''' then Getenv key else def)"

definition splitCSV :: "string \<Rightarrow> string list" where
  "splitCSV s = filter (\<lambda>p. p \<noteq> '''') (map TrimSpace (Split s (CHR '','')))"

definition Atoi :: "string \<Rightarrow> int res" where
  "Atoi s = (case ParseInt 64 s of (n, None) \<Rightarrow> Inr n | (_, Some e) \<Rightarrow> Inl (NumError ''Atoi'' s e))"

record Config =
  cf_KafkaBrokers :: "string list"
  cf_RedisAddr :: string
  cf_RedisPassword :: string
  cf_RedisDB :: int
  cf_AuthentikIssuerURL :: string
  cf_AuthentikAudience :: string
  cf_GRPCListenAddr :: string
  cf_HTTPListenAddr :: string
  cf_MaxMessageBodyBytes :: int
  cf_DedupWindowSeconds :: int

definition Load :: "(string \<Rightarrow> string) \<Rightarrow> Config res" where
  "Load Getenv =
     (let cfg = \<lparr>
        cf_KafkaBrokers = splitCSV (getEnv Getenv ''KMSVC_KAFKA_BROKERS'' ''localhost:9092''),
        cf_RedisAddr = getEnv Getenv ''KMSVC_REDIS_ADDR'' ''localhost:6379'',
        cf_RedisPassword = Getenv ''KMSVC_REDIS_PASSWORD'',
        cf_RedisDB = 0,
        cf_AuthentikIssuerURL = Getenv ''KMSVC_AUTHENTIK_ISSUER_URL'',
        cf_AuthentikAudience = Getenv ''KMSVC_AUTHENTIK_AUDIENCE'',
        cf_GRPCListenAddr = getEnv Getenv ''KMSVC_GRPC_LISTEN_ADDR'' '':9090'',
        cf_HTTPListenAddr = getEnv Getenv ''KMSVC_HTTP_LISTEN_ADDR'' '':8080'',
        cf_MaxMessageBodyBytes = 256 * 1024,
        cf_DedupWindowSeconds = 300\<rparr>;
        v = Getenv ''KMSVC_REDIS_DB'' in
      if v \<noteq> '''' then
        (case Atoi v of
           Inl err \<Rightarrow> Inl (wrapf ''invalid KMSVC_REDIS_DB'' err)
         | Inr n \<Rightarrow> Inr (cfg\<lparr>cf_RedisDB := n\<rparr>))
      else Inr cfg)"

section \<open>Services of the server\<close>

definition server_service :: "('s, 'k, 'g) sys \<Rightarrow> ('k, 'cl) consumer_api \<Rightarrow> Config \<Rightarrow> ('s, 'k, 'g, 'cl) QueueService" where
  "server_service S C cfg = \<lparr>
     sv_sys = S, sv_DedupWindow = cf_DedupWindowSeconds cfg * Second, sv_Committer = True,
     sv_Consumers = C, sv_Brokers = cf_KafkaBrokers cfg, sv_ReceivePollInterval = 0\<rparr>"

text \<open>The deduplication window of the reaper's dead-letter sender; its sweep interval is the default.\<close>

definition server_dlq_sender :: "Config \<Rightarrow> duration option" where
  "server_dlq_sender cfg = Some (cf_DedupWindowSeconds cfg * Second)"

section \<open>Settings of the operator\<close>

text \<open>The operator has its own copies of the two helpers.\<close>

definition operator_getEnv :: "(string \<Rightarrow> string) \<Rightarrow> string \<Rightarrow> string \<Rightarrow> string" where
  "operator_getEnv Getenv key def = (let v = Getenv key in if v \<noteq> '''' then v else def)"

fun csv_parts :: "string list \<Rightarrow> string list \<Rightarrow> string list" where
  "csv_parts [] out = out"
| "csv_parts (p # parts) out = (let p = TrimSpace p in csv_parts parts (if p \<noteq> '''' then out @ [p] else out))"

definition operator_splitCSV :: "string \<Rightarrow> string list" where
  "operator_splitCSV s = csv_parts (Split s (CHR '','')) []"

record operator_settings =
  os_brokers :: "string list"
  os_redisAddr :: string
  os_redisPassword :: string
  os_redisDB :: int
  os_temporalAddress :: string

definition operator_env :: "(string \<Rightarrow> string) \<Rightarrow> operator_settings res" where
  "operator_env Getenv =
     (let v = Getenv ''KMSVC_REDIS_DB'';
          settings = (\<lambda>db. \<lparr>os_brokers = operator_splitCSV (operator_getEnv Getenv ''KMSVC_KAFKA_BROKERS'' ''localhost:9092''),
            os_redisAddr = operator_getEnv Getenv ''KMSVC_REDIS_ADDR'' ''localhost:6379'',
            os_redisPassword = Getenv ''KMSVC_REDIS_PASSWORD'', os_redisDB = db,
            os_temporalAddress = operator_getEnv Getenv ''KMSVC_TEMPORAL_FRONTEND_ADDRESS''
              ''temporal-frontend.temporal.svc.cluster.local:7233''\<rparr>) in
      if v \<noteq> '''' then (case Atoi v of Inl err \<Rightarrow> Inl (wrapf ''invalid KMSVC_REDIS_DB'' err) | Inr n \<Rightarrow> Inr (settings n))
      else Inr (settings 0))"

definition operator_reconciler ::
  "'c kube_api \<Rightarrow> ('s, 'k, 'g) sys \<Rightarrow> (string \<Rightarrow> string) \<Rightarrow> ('s, 'k, 'g, 'c) QueueReconciler" where
  "operator_reconciler client S Getenv = \<lparr>
     qr_Client = client, qr_sys = S, qr_Now = Some (Now (Env S)),
     qr_Zones = Some \<lparr>zl_Namespace = operator_getEnv Getenv ''KMSVC_NAMESPACE'' ''sqs'',
       zl_ClusterName = operator_getEnv Getenv ''KMSVC_KAFKA_CLUSTER_NAME'' ''kmsvc'',
       zl_PoolName = operator_getEnv Getenv ''KMSVC_KAFKA_POOL_NAME'' ''kmsvc-pool''\<rparr>,
     qr_Getenv = Getenv\<rparr>"

text \<open>The functions the controllers are registered with.\<close>

definition queue_reconcile_func ::
  "('s, 'k, 'g, 'c) QueueReconciler \<Rightarrow> string \<Rightarrow> string \<Rightarrow> ('s, 'k, 'g, 'c) op_world \<Rightarrow> unit res \<times> ('s, 'k, 'g, 'c) op_world" where
  "queue_reconcile_func R namespace name w = on_ok (Reconcile R namespace name w) id (\<lambda>_ w. (Inr (), w))"

definition worker_reconcile_func :: "'c kube_api \<Rightarrow> string \<Rightarrow> string \<Rightarrow> 'c \<Rightarrow> unit res \<times> 'c" where
  "worker_reconcile_func K namespace name c =
     on_ok (Worker_Reconcile K namespace name c)
       (wrapf (''reconcile TemporalWorker '' @ namespace @ ''/'' @ name)) (\<lambda>_ c. (Inr (), c))"

section \<open>Reaper discovery\<close>

definition queueDiscoveryInterval :: duration where "queueDiscoveryInterval = 10 * Second"

text \<open>The queues marked as started, and the ones a reaper goroutine was launched for, in order.\<close>

record discovery =
  dc_started :: "string list"
  dc_launched :: "string list"

fun launch_new :: "string list \<Rightarrow> discovery \<Rightarrow> discovery" where
  "launch_new [] d = d"
| "launch_new (name # names) d =
     (if name \<in> set (dc_started d) then launch_new names d
      else launch_new names (d\<lparr>dc_started := name # dc_started d, dc_launched := dc_launched d @ [name]\<rparr>))"

definition discover :: "'s redis \<Rightarrow> discovery \<Rightarrow> 's \<Rightarrow> discovery \<times> 's" where
  "discover R d s =
     (case ListQueueNames R s of
        (Inl err, s) \<Rightarrow> (d, s)
      | (Inr names, s) \<Rightarrow> (launch_new names d, s))"

text \<open>
  The loop until the context is done. Each tick is preceded by whatever else has happened to
  the server state since the last one.
\<close>

fun discovery_loop :: "'s redis \<Rightarrow> ('s \<Rightarrow> 's) list \<Rightarrow> discovery \<Rightarrow> 's \<Rightarrow> discovery \<times> 's" where
  "discovery_loop R [] d s = (d, s)"
| "discovery_loop R (meanwhile # ticks) d s =
     (case discover R d (meanwhile s) of (d, s) \<Rightarrow> discovery_loop R ticks d s)"

definition runReaperDiscovery :: "'s redis \<Rightarrow> ('s \<Rightarrow> 's) list \<Rightarrow> 's \<Rightarrow> discovery \<times> 's" where
  "runReaperDiscovery R ticks s =
     (case discover R \<lparr>dc_started = [], dc_launched = []\<rparr> s of (d, s) \<Rightarrow> discovery_loop R ticks d s)"

section \<open>Broker lists\<close>

definition trimmed :: "string \<Rightarrow> bool" where
  "trimmed s = (s = [] \<or> (\<not> is_space (hd s) \<and> \<not> is_space (last s)))"

lemma TrimSpace_id: "trimmed s \<Longrightarrow> TrimSpace s = s"
proof -
  assume t: "trimmed s"
  show ?thesis
  proof (cases "s = []")
    case False
    with t have "dropWhile is_space s = s" "dropWhile is_space (rev s) = rev s"
      by (auto simp: trimmed_def dropWhile_eq_self_iff hd_rev)
    then show ?thesis by (simp add: TrimSpace_def)
  qed (simp add: TrimSpace_def)
qed

lemma TrimSpace_trimmed: "trimmed (TrimSpace s)"
proof -
  define d where "d = dropWhile is_space s"
  define e where "e = dropWhile is_space (rev d)"
  have t: "TrimSpace s = rev e" by (simp add: TrimSpace_def d_def e_def)
  show ?thesis
  proof (cases "e = []")
    case False
    then have "\<not> is_space (hd e)" unfolding e_def by (rule hd_dropWhile)
    moreover obtain w where "rev d = w @ e" unfolding e_def by (metis takeWhile_dropWhile_id)
    then have "d = rev e @ rev w" by (metis rev_append rev_rev_ident)
    with False have "hd (rev e) = hd d" "d \<noteq> []" by simp_all
    moreover from this(2) have "\<not> is_space (hd d)" unfolding d_def by (rule hd_dropWhile)
    ultimately show ?thesis by (simp add: t trimmed_def last_rev)
  qed (simp add: t trimmed_def)
qed

lemma TrimSpace_set: "set (TrimSpace s) \<subseteq> set s"
  unfolding TrimSpace_def by (auto dest!: set_dropWhileD)

lemma Split_nonempty: "Split s sep \<noteq> []"
  by (induction s) (auto split: list.splits)

lemma Split_parts: "p \<in> set (Split s sep) \<Longrightarrow> sep \<notin> set p"
proof (induction s arbitrary: p)
  case (Cons c cs)
  then show ?case using Split_nonempty [of cs sep] by (auto split: if_splits list.splits)
qed simp

lemma Split_word: "sep \<notin> set p \<Longrightarrow> Split p sep = [p]"
  by (induction p) auto

lemma Split_step: "sep \<notin> set p \<Longrightarrow> Split (p @ sep # rest) sep = p # Split rest sep"
  by (induction p) auto

definition clean_part :: "string \<Rightarrow> bool" where
  "clean_part p = (p \<noteq> '''' \<and> CHR '','' \<notin> set p \<and> trimmed p)"

lemma splitCSV_join: "list_all clean_part ps \<Longrightarrow> splitCSV (sep_by '','' ps) = ps"
proof (induction ps rule: induct_list012)
  case 1
  show ?case by (simp add: splitCSV_def TrimSpace_def)
next
  case (2 p)
  then show ?case by (simp add: splitCSV_def clean_part_def Split_word TrimSpace_id)
next
  case (3 p p' ps)
  then have "splitCSV (sep_by '','' (p' # ps)) = p' # ps" by simp
  with 3(3) show ?case by (simp add: splitCSV_def clean_part_def Split_step TrimSpace_id)
qed

lemma splitCSV_clean: "list_all clean_part (splitCSV s)"
  using Split_parts [of _ s "CHR '',''"] TrimSpace_set TrimSpace_trimmed
  by (fastforce simp: splitCSV_def clean_part_def list_all_iff)

text \<open>
  A list of brokers is read as its parts between commas, without surrounding white space and
  without empty parts; printing the result and reading it again changes nothing.
\<close>

lemma splitCSV_round_trip: "splitCSV (sep_by '','' (splitCSV s)) = splitCSV s"
  by (rule splitCSV_join [OF splitCSV_clean])

lemma csv_parts_eq: "csv_parts parts out = out @ filter (\<lambda>p. p \<noteq> '''') (map TrimSpace parts)"
  by (induction parts arbitrary: out) (simp_all add: Let_def)

lemma operator_helpers_agree: "operator_getEnv = getEnv" "operator_splitCSV = splitCSV"
  by (simp_all add: fun_eq_iff operator_getEnv_def getEnv_def operator_splitCSV_def splitCSV_def csv_parts_eq Let_def)

text \<open>Server and operator read the same brokers and the same Redis from the same environment.\<close>

lemma operator_env_matches_server:
  assumes "Load Getenv = Inr cfg"
  shows "\<exists>st. operator_env Getenv = Inr st \<and> os_brokers st = cf_KafkaBrokers cfg \<and> os_redisAddr st = cf_RedisAddr cfg \<and>
    os_redisPassword st = cf_RedisPassword cfg \<and> os_redisDB st = cf_RedisDB cfg"
  using assms by (auto simp: Load_def operator_env_def operator_helpers_agree Let_def split: if_splits sum.splits)

lemma Load_ok:
  assumes "Load Getenv = Inr cfg"
  shows "list_all clean_part (cf_KafkaBrokers cfg) \<and> cf_DedupWindowSeconds cfg * Second = defaultDedupWindow \<and>
    cf_MaxMessageBodyBytes cfg = MaxMessageBodyBytes"
  using assms splitCSV_clean
  by (auto simp: Load_def Let_def defaultDedupWindow_def MaxMessageBodyBytes_def split: if_splits sum.splits)

section \<open>One reaper per queue\<close>

lemma launch_new_spec:
  "set (dc_started d) = set (dc_launched d) \<Longrightarrow> distinct (dc_launched d) \<Longrightarrow> d' = launch_new names d \<Longrightarrow>
    set (dc_started d') = set (dc_launched d') \<and> distinct (dc_launched d') \<and>
    set (dc_launched d') = set (dc_launched d) \<union> set names \<and> prefix (dc_launched d) (dc_launched d')"
proof (induction names arbitrary: d)
  case (Cons name names)
  show ?case
  proof (cases "name \<in> set (dc_started d)")
    case True
    with Cons.prems Cons.IH [OF Cons.prems(1,2)] show ?thesis by auto
  next
    case False
    let ?d = "d\<lparr>dc_started := name # dc_started d, dc_launched := dc_launched d @ [name]\<rparr>"
    from False Cons.prems have "set (dc_started ?d) = set (dc_launched ?d)" "distinct (dc_launched ?d)" "d' = launch_new names ?d" by auto
    from Cons.IH [OF this] show ?thesis by (auto simp: prefix_def)
  qed
qed simp

text \<open>The state of a discovery: every launched queue is marked, once.\<close>

definition discovery_inv :: "discovery \<Rightarrow> bool" where
  "discovery_inv d = (set (dc_started d) = set (dc_launched d) \<and> distinct (dc_launched d))"

lemma discover_spec:
  assumes "discover R d s = (d', s')" and "discovery_inv d"
  shows "discovery_inv d' \<and> prefix (dc_launched d) (dc_launched d') \<and>
    (\<forall>names. fst (ListQueueNames R s) = Inr names \<longrightarrow> set names \<subseteq> set (dc_launched d'))"
proof -
  obtain r s2 where l: "ListQueueNames R s = (r, s2)" by force
  show ?thesis
  proof (cases r)
    case (Inl e)
    with assms l show ?thesis by (simp add: discover_def)
  next
    case (Inr names)
    with assms(1) l have d': "d' = launch_new names d" by (simp add: discover_def)
    have "set (dc_started d) = set (dc_launched d)" "distinct (dc_launched d)" using assms(2) by (simp_all add: discovery_inv_def)
    from launch_new_spec [OF this d'] l Inr show ?thesis by (simp add: discovery_inv_def)
  qed
qed

lemma discovery_loop_spec:
  "discovery_inv d \<Longrightarrow> discovery_loop R ticks d s = (d', s') \<Longrightarrow>
    discovery_inv d' \<and> prefix (dc_launched d) (dc_launched d')"
proof (induction ticks arbitrary: d s)
  case (Cons meanwhile ticks)
  obtain d1 s1 where d1: "discover R d (meanwhile s) = (d1, s1)" by force
  note one = discover_spec [OF d1 Cons.prems(1)]
  from Cons.IH [of d1 s1] Cons.prems(2) d1 one show ?case by (auto intro: prefix_order.trans)
qed simp

lemma discovery_loop_append:
  "discovery_loop R (xs @ ys) d s = (case discovery_loop R xs d s of (d, s) \<Rightarrow> discovery_loop R ys d s)"
  by (induction xs arbitrary: d s) (auto split: prod.splits)

lemma runReaperDiscovery_inv: "discovery_inv (fst (runReaperDiscovery R ticks s))"
proof -
  have e: "discovery_inv \<lparr>dc_started = [], dc_launched = []\<rparr>" by (simp add: discovery_inv_def)
  obtain d s1 where d: "discover R \<lparr>dc_started = [], dc_launched = []\<rparr> s = (d, s1)" by force
  obtain d' s' where l: "discovery_loop R ticks d s1 = (d', s')" by force
  from discover_spec [OF d e] discovery_loop_spec [OF _ l] d l show ?thesis by (simp add: runReaperDiscovery_def)
qed

lemma runReaperDiscovery_later:
  "fst (discover R d (meanwhile s1)) = d1 \<Longrightarrow> runReaperDiscovery R pre s = (d, s1) \<Longrightarrow>
    set (dc_launched d1) \<subseteq> set (dc_launched (fst (runReaperDiscovery R (pre @ meanwhile # post) s)))"
proof -
  assume d1: "fst (discover R d (meanwhile s1)) = d1" and r: "runReaperDiscovery R pre s = (d, s1)"
  have inv: "discovery_inv d" using runReaperDiscovery_inv [of R pre s] r by simp
  obtain s2 where s2: "discover R d (meanwhile s1) = (d1, s2)" using d1 by (metis prod.collapse)
  obtain d3 s3 where d3: "discovery_loop R post d1 s2 = (d3, s3)" by force
  have "runReaperDiscovery R (pre @ meanwhile # post) s = (d3, s3)"
    using r s2 d3 by (auto simp: runReaperDiscovery_def discovery_loop_append split: prod.splits)
  with discovery_loop_spec [OF _ d3] discover_spec [OF s2 inv] show ?thesis by (auto dest: set_mono_prefix)
qed

lemma distinct_count: "distinct xs \<Longrightarrow> count_list xs x = (if x \<in> set xs then 1 else 0)"
  by (induction xs) auto

text \<open>
  C11. No queue is swept by two reapers of a server and none is forgotten: discovery launches the
  reaper of a queue at most once however often it runs, and a queue that is published when a
  tick succeeds in listing the queues has its reaper from then on.
\<close>

theorem discovery_launches_once:
  assumes "redis_quiet R ks clock" and "runReaperDiscovery R pre s = (d, s1)"
    and "published (ks (meanwhile s1)) q meta shards" and "ListQueueNames R (meanwhile s1) = (Inr names, s2)"
  shows "count_list (dc_launched (fst (runReaperDiscovery R (pre @ meanwhile # post) s))) q = 1 \<and>
    distinct (dc_launched (fst (runReaperDiscovery R ticks s0)))"
proof -
  from assms(3) obtain h where "ks (meanwhile s1) (QueueMetaKey q) = Some (RHash h, None)" by (rule publishedE)
  then have "q \<in> set names"
    using redis_quiet.ListQueueNames_ok [OF assms(1,4)] by (simp add: live_def alive_def)
  moreover have "discovery_inv d" using runReaperDiscovery_inv [of R pre s] assms(2) by simp
  moreover obtain d1 s3 where d1: "discover R d (meanwhile s1) = (d1, s3)" by force
  ultimately have "q \<in> set (dc_launched (fst (discover R d (meanwhile s1))))"
    using discover_spec [OF d1] assms(4) by auto
  with runReaperDiscovery_later [OF refl assms(2)]
  have "q \<in> set (dc_launched (fst (runReaperDiscovery R (pre @ meanwhile # post) s)))" by blast
  moreover have "distinct (dc_launched (fst (runReaperDiscovery R t x)))" for t x
    using runReaperDiscovery_inv [of R t x] by (simp add: discovery_inv_def)
  ultimately show ?thesis by (simp add: distinct_count)
qed

definition demo_tick :: "mem \<Rightarrow> mem" where
  "demo_tick s = snd (PutShardMap mem_redis ''orders'' [shard0] (snd (PutQueueMeta mem_redis ''orders'' demo_meta 0 s)))"

theorem discovery_launches_once_witness:
  "count_list (dc_launched (fst (runReaperDiscovery mem_redis [id, demo_tick, id] demo_empty))) ''orders'' = 1"
proof -
  let ?s = "snd (runReaperDiscovery mem_redis [id] demo_empty)"
  have p: "published (mem_ks (demo_tick ?s)) ''orders'' (case fst (GetQueueMeta mem_redis ''orders'' (demo_tick ?s)) of Inr (Some m) \<Rightarrow> m) [shard0]"
    by code_simp
  have n: "fst (ListQueueNames mem_redis (demo_tick ?s)) = Inr [''orders'']" by code_simp
  from discovery_launches_once [OF mem.redis_quiet_axioms, where meanwhile = demo_tick and pre = "[id]" and s = demo_empty
      and post = "[id]", OF prod.collapse [symmetric] p run_eqI [OF n]]
  show ?thesis by simp
qed

end
