(* ===== verification/Server_Main.thy ===== *)
theory Server_Main
  imports Server_Config
begin

text \<open>
  The constructors of the clients (\<^verbatim>\<open>kafka/client.go\<close>, \<^verbatim>\<open>kafka/produce.go\<close>, \<^verbatim>\<open>kafka/admin.go\<close>,
  \<^verbatim>\<open>redis/client.go\<close>, \<^verbatim>\<open>temporal/client.go\<close>) and the main functions of the two commands, which
  acquire them in order and release them again. Everything they call is a library: the
  parameter \<open>platform\<close> over an opaque state, in which connections are numbers. Serving until
  the process is told to stop is one call, which answers the consumers that the registry of
  the service holds at the end. \<open>connections\<close> is the contract of the connections.
\<close>

section \<open>Constructors\<close>

datatype kgo_opt =
    SeedBrokers "string list"
  | OptConsumerGroup string
  | OptConsumeTopics "string list"
  | DisableAutoCommit
  | SnappyCompression
  | ManualPartitioner

record redis_options =
  ro_Addr :: string
  ro_Password :: string
  ro_DB :: int

record 'x platform =
  KgoNewClient :: "'x \<Rightarrow> kgo_opt list \<Rightarrow> nat res \<times> 'x"
  RedisConnect :: "'x \<Rightarrow> redis_options \<Rightarrow> nat \<times> 'x"
  RedisPing :: "'x \<Rightarrow> nat \<Rightarrow> unit res \<times> 'x"
  GrpcDial :: "'x \<Rightarrow> string \<Rightarrow> nat res \<times> 'x"
  CloseConn :: "'x \<Rightarrow> nat \<Rightarrow> 'x"
  RegisterGateway :: "'x \<Rightarrow> unit res \<times> 'x"
  ServeUntilDone :: "'x \<Rightarrow> string \<Rightarrow> string \<Rightarrow> nat list \<times> 'x"
  AddScheme :: "'x \<Rightarrow> string \<Rightarrow> unit res \<times> 'x"
  NewManager :: "'x \<Rightarrow> unit res \<times> 'x"
  SetupController :: "'x \<Rightarrow> string \<Rightarrow> unit res \<times> 'x"
  StartManager :: "'x \<Rightarrow> unit res \<times> 'x"

definition NewProducerClient :: "'x platform \<Rightarrow> string list \<Rightarrow> 'x \<Rightarrow> nat res \<times> 'x" where
  "NewProducerClient P brokers x =
     on_ok (KgoNewClient P x [SeedBrokers brokers, SnappyCompression])
       (wrapf ''creating kafka producer client'') (\<lambda>cl x. (Inr cl, x))"

definition NewConsumerClient :: "'x platform \<Rightarrow> string list \<Rightarrow> string \<Rightarrow> string list \<Rightarrow> 'x \<Rightarrow> nat res \<times> 'x" where
  "NewConsumerClient P brokers consumerGroup topics x =
     on_ok (KgoNewClient P x [SeedBrokers brokers, OptConsumerGroup consumerGroup, OptConsumeTopics topics, DisableAutoCommit])
       (wrapf ''creating kafka consumer client'') (\<lambda>cl x. (Inr cl, x))"

definition NewProducer :: "'x platform \<Rightarrow> string list \<Rightarrow> 'x \<Rightarrow> nat res \<times> 'x" where
  "NewProducer P brokers x =
     on_ok (KgoNewClient P x [SeedBrokers brokers, ManualPartitioner])
       (wrapf ''creating kafka producer client'') (\<lambda>cl x. (Inr cl, x))"

definition NewAdmin :: "'x platform \<Rightarrow> string list \<Rightarrow> 'x \<Rightarrow> nat res \<times> 'x" where
  "NewAdmin P brokers x =
     on_ok (KgoNewClient P x [SeedBrokers brokers]) (wrapf ''creating kafka client'') (\<lambda>cl x. (Inr cl, x))"

definition Redis_NewClient :: "'x platform \<Rightarrow> string \<Rightarrow> string \<Rightarrow> int \<Rightarrow> 'x \<Rightarrow> nat \<times> 'x" where
  "Redis_NewClient P addr password db x = RedisConnect P x \<lparr>ro_Addr = addr, ro_Password = password, ro_DB = db\<rparr>"

definition Temporal_NewClient :: "'x platform \<Rightarrow> string \<Rightarrow> 'x \<Rightarrow> nat res \<times> 'x" where
  "Temporal_NewClient P address x =
     on_ok (GrpcDial P x address) (wrapf (''dial temporal frontend '' @ address)) (\<lambda>conn x. (Inr conn, x))"

section \<open>The server\<close>

text \<open>\<open>deferring close body\<close> is \<^verbatim>\<open>defer close()\<close> in front of the rest of a function.\<close>

definition deferring :: "('x \<Rightarrow> 'x) \<Rightarrow> ('x \<Rightarrow> 'r \<times> 'x) \<Rightarrow> 'x \<Rightarrow> 'r \<times> 'x" where
  "deferring close body x = (case body x of (r, x) \<Rightarrow> (r, close x))"

text \<open>From the construction of the services on; the registry is empty before the server serves.\<close>

definition serve_phase :: "'x platform \<Rightarrow> Config \<Rightarrow> 'x \<Rightarrow> unit res \<times> 'x" where
  "serve_phase P cfg x =
     on_ok (RegisterGateway P x) id (\<lambda>_ x.
       case ServeUntilDone P x (cf_GRPCListenAddr cfg) (cf_HTTPListenAddr cfg) of (consumers, x) \<Rightarrow>
         (Inr (), fold (\<lambda>cl x. CloseConn P x cl) consumers x))"

definition run :: "'x platform \<Rightarrow> (string \<Rightarrow> string) \<Rightarrow> 'x \<Rightarrow> unit res \<times> 'x" where
  "run P Getenv x =
     (case Load Getenv of
        Inl err \<Rightarrow> (Inl err, x)
      | Inr cfg \<Rightarrow>
          (case Redis_NewClient P (cf_RedisAddr cfg) (cf_RedisPassword cfg) (cf_RedisDB cfg) x of (rdb, x) \<Rightarrow>
            deferring (\<lambda>x. CloseConn P x rdb) (\<lambda>x.
              on_ok (NewAdmin P (cf_KafkaBrokers cfg) x) id (\<lambda>admin x.
                deferring (\<lambda>x. CloseConn P x admin) (\<lambda>x.
                  on_ok (NewProducer P (cf_KafkaBrokers cfg) x) id (\<lambda>producer x.
                    deferring (\<lambda>x. CloseConn P x producer) (serve_phase P cfg) x)) x)) x))"

section \<open>The operator\<close>

text \<open>An error is what \<^verbatim>\<open>exitf\<close> prints before the process ends.\<close>

definition operator_main :: "'x platform \<Rightarrow> (string \<Rightarrow> string) \<Rightarrow> 'x \<Rightarrow> unit res \<times> 'x" where
  "operator_main P Getenv x =
     on_ok (operator_env Getenv, x) id (\<lambda>st x.
     on_ok (AddScheme P x ''client-go'') (wrapf ''registering client-go scheme'') (\<lambda>_ x.
     on_ok (AddScheme P x ''kmsvc'') (wrapf ''registering kmsvc scheme'') (\<lambda>_ x.
     on_ok (AddScheme P x ''apps'') (wrapf ''registering apps scheme'') (\<lambda>_ x.
     on_ok (NewManager P x) (wrapf ''creating manager'') (\<lambda>_ x.
     on_ok (NewAdmin P (os_brokers st) x) (wrapf ''creating kafka admin'') (\<lambda>admin x.
     case RedisConnect P x \<lparr>ro_Addr = os_redisAddr st, ro_Password = os_redisPassword st, ro_DB = os_redisDB st\<rparr> of (rdb, x) \<Rightarrow>
     on_ok (RedisPing P x rdb) (wrapf (''connecting to redis at '' @ os_redisAddr st)) (\<lambda>_ x.
     on_ok (Temporal_NewClient P (os_temporalAddress st) x) (wrapf ''creating temporal client'') (\<lambda>temporal x.
     on_ok (SetupController P x ''Queue'') (wrapf ''setting up queue controller'') (\<lambda>_ x.
     on_ok (SetupController P x ''TemporalWorker'') (wrapf ''setting up temporal worker controller'') (\<lambda>_ x.
     on_ok (StartManager P x) (wrapf ''running manager'') (\<lambda>_ x. (Inr (), x))))))))))))"

section \<open>Every connection of the server is closed\<close>

text \<open>
  \<open>conns\<close> are the open connections. A new one was not open before, a failed attempt opens
  none, closing closes that one; while the server serves, the registry opens consumers and
  nothing is closed.
\<close>

locale connections =
  fixes P :: "'x platform" and conns :: "'x \<Rightarrow> nat set"
  assumes kgo_new: "KgoNewClient P x opts = (Inr c, x') \<Longrightarrow> c \<notin> conns x \<and> conns x' = insert c (conns x)"
    and kgo_error: "KgoNewClient P x opts = (Inl e, x') \<Longrightarrow> conns x' = conns x"
    and redis_new: "RedisConnect P x ro = (c, x') \<Longrightarrow> c \<notin> conns x \<and> conns x' = insert c (conns x)"
    and close: "conns (CloseConn P x c) = conns x - {c}"
    and gateway: "conns (snd (RegisterGateway P x)) = conns x"
    and serve: "ServeUntilDone P x ga ha = (cs, x') \<Longrightarrow> conns x' = conns x \<union> set cs \<and> set cs \<inter> conns x = {}"
begin

lemma close_all: "conns (fold (\<lambda>c x. CloseConn P x c) cs x) = conns x - set cs"
  by (induction cs arbitrary: x) (auto simp: close)

lemma deferring_releases:
  assumes "c \<notin> conns x0" and "conns x = insert c (conns x0)" and "conns (snd (body x)) = conns x"
  shows "conns (snd (deferring (\<lambda>x. CloseConn P x c) body x)) = conns x0"
proof -
  obtain r y where b: "body x = (r, y)" by force
  then have "conns (snd (deferring (\<lambda>x. CloseConn P x c) body x)) = conns y - {c}"
    by (simp add: deferring_def close)
  also have "conns y = insert c (conns x0)" using assms(2,3) b by simp
  also have "insert c (conns x0) - {c} = conns x0" using assms(1) by simp
  finally show ?thesis .
qed

lemma serve_phase_releases: "conns (snd (serve_phase P cfg x)) = conns x"
proof -
  obtain r x1 where g: "RegisterGateway P x = (r, x1)" by force
  obtain cs x2 where s: "ServeUntilDone P x1 (cf_GRPCListenAddr cfg) (cf_HTTPListenAddr cfg) = (cs, x2)" by force
  have "conns x1 = conns x" using gateway [of x] g by simp
  with serve [OF s] g s show ?thesis
    by (cases r) (auto simp: serve_phase_def close_all)
qed

lemma new_kafka_releases:
  assumes "m = on_ok (KgoNewClient P x opts) w (\<lambda>c x. (Inr c, x))"
    and "\<And>c y. c \<notin> conns x \<Longrightarrow> conns y = insert c (conns x) \<Longrightarrow> conns (snd (k c y)) = conns x"
  shows "conns (snd (on_ok m id k)) = conns x"
proof -
  obtain r y where n: "KgoNewClient P x opts = (r, y)" by force
  show ?thesis
  proof (cases r)
    case (Inl e)
    with n kgo_error show ?thesis by (simp add: assms(1))
  next
    case (Inr c)
    with n kgo_new have "c \<notin> conns x" "conns y = insert c (conns x)" by blast+
    with assms(2) n Inr show ?thesis by (simp add: assms(1))
  qed
qed

lemma run_releases: "conns (snd (run P Getenv x)) = conns x"
proof (cases "Load Getenv")
  case (Inl e)
  then show ?thesis by (simp add: run_def)
next
  case (Inr cfg)
  obtain rdb x1 where r: "Redis_NewClient P (cf_RedisAddr cfg) (cf_RedisPassword cfg) (cf_RedisDB cfg) x = (rdb, x1)" by force
  have "rdb \<notin> conns x" "conns x1 = insert rdb (conns x)" using r redis_new by (auto simp: Redis_NewClient_def)
  moreover have "conns (snd (on_ok (NewAdmin P bs y) id (\<lambda>admin x. deferring (\<lambda>x. CloseConn P x admin) (\<lambda>x.
      on_ok (NewProducer P bs x) id (\<lambda>producer x. deferring (\<lambda>x. CloseConn P x producer) (serve_phase P cfg) x)) x))) = conns y" for bs y
    by (rule new_kafka_releases [OF NewAdmin_def], rule deferring_releases, assumption, assumption,
        rule new_kafka_releases [OF NewProducer_def], rule deferring_releases) (simp_all add: serve_phase_releases)
  ultimately show ?thesis using Inr r by (simp add: run_def deferring_releases)
qed

end

section \<open>A platform\<close>

text \<open>
  A platform whose state is the list of the open connections. A Kafka client without brokers
  is refused, and serving leaves two consumers in the registry.
\<close>

definition fresh_conn :: "nat list \<Rightarrow> nat" where
  "fresh_conn open = Suc (sum_list open)"

definition open_conn :: "nat list \<Rightarrow> nat \<times> nat list" where
  "open_conn open = (fresh_conn open, fresh_conn open # open)"

definition demo_platform :: "nat list platform" where
  "demo_platform = \<lparr>
     KgoNewClient = (\<lambda>open opts. if SeedBrokers [] \<in> set opts then (Inl (ErrText ''no seed brokers''), open)
       else (case open_conn open of (c, open) \<Rightarrow> (Inr c, open))),
     RedisConnect = (\<lambda>open ro. open_conn open),
     RedisPing = (\<lambda>open c. (Inr (), open)),
     GrpcDial = (\<lambda>open addr. case open_conn open of (c, open) \<Rightarrow> (Inr c, open)),
     CloseConn = (\<lambda>open c. removeAll c open),
     RegisterGateway = (\<lambda>open. (Inr (), open)),
     ServeUntilDone = (\<lambda>open ga ha. case open_conn open of (a, open) \<Rightarrow> case open_conn open of (b, open) \<Rightarrow> ([a, b], open)),
     AddScheme = (\<lambda>open name. (Inr (), open)),
     NewManager = (\<lambda>open. (Inr (), open)),
     SetupController = (\<lambda>open name. (Inr (), open)),
     StartManager = (\<lambda>open. (Inr (), open))\<rparr>"

lemma fresh_conn_new: "fresh_conn open \<notin> set open"
proof
  assume "fresh_conn open \<in> set open"
  then have "fresh_conn open \<le> sum_list open" by (rule member_le_sum_list) simp
  then show False by (simp add: fresh_conn_def)
qed

interpretation dp: connections demo_platform set
proof
  fix x opts c x' and e
  show "KgoNewClient demo_platform x opts = (Inr c, x') \<Longrightarrow> c \<notin> set x \<and> set x' = insert c (set x)"
    using fresh_conn_new [of x] by (auto simp: demo_platform_def open_conn_def split: if_splits)
  show "KgoNewClient demo_platform x opts = (Inl e, x') \<Longrightarrow> set x' = set x"
    by (auto simp: demo_platform_def open_conn_def split: if_splits)
next
  fix x ro c x'
  show "RedisConnect demo_platform x ro = (c, x') \<Longrightarrow> c \<notin> set x \<and> set x' = insert c (set x)"
    using fresh_conn_new [of x] by (auto simp: demo_platform_def open_conn_def)
next
  fix x ga ha cs x'
  assume "ServeUntilDone demo_platform x ga ha = (cs, x')"
  then show "set x' = set x \<union> set cs \<and> set cs \<inter> set x = {}"
    using fresh_conn_new [of x] fresh_conn_new [of "fresh_conn x # x"]
    by (auto simp: demo_platform_def open_conn_def)
qed (auto simp: demo_platform_def)



end
