(* ===== verification/Deep_Copy.thy ===== *)
theory Deep_Copy
  imports Kube_Api "HOL-Library.Sublist"
begin

text \<open>
  The copy methods of the custom resources: those of \<^verbatim>\<open>temporalworker_types.go\<close>, written by hand,
  and those of \<^verbatim>\<open>zz_generated.deepcopy.go\<close>, generated for the queue types. What they are for is
  aliasing, so here the objects are kept the way they lie in memory: a pointer, a map and a
  slice are addresses of a cell of the heap, and \<open>nil\<close> is no address. The abstraction functions
  give back the records of the rest of the development, in which all of them are values.
  Allocation appends a cell. Slices are whole arrays. The copy methods of Kubernetes' own
  types are not part of the repository and taken to copy values (metadata, conditions,
  tolerations, affinity, resource requirements).
\<close>

section \<open>Objects in memory\<close>

type_synonym addr = nat

record hShardStatus =
  hs_ID :: string
  hs_Topic :: string
  hs_HashRangeStart :: int
  hs_HashRangeEnd :: int
  hs_Phase :: ShardPhase
  hs_ParentID :: string
  hs_CreatedAt :: time
  hs_AvailabilityZones :: "addr option"

record hQueueStatus =
  hqst_Phase :: QueuePhase
  hqst_Shards :: "addr option"
  hqst_Conditions :: "addr option"

record hQueue =
  hq_Meta :: ObjectMeta
  hq_Spec :: QueueSpec
  hq_Status :: hQueueStatus

record hTemporalWorkerSpec =
  hw_Namespace :: string
  hw_Image :: string
  hw_ImagePullPolicy :: string
  hw_Replicas :: "addr option"
  hw_Resources :: "addr option"
  hw_NodeSelector :: "addr option"
  hw_Affinity :: "addr option"
  hw_Tolerations :: "addr option"

record hTemporalWorkerStatus =
  hws_Phase :: TemporalWorkerPhase
  hws_Replicas :: int
  hws_ReadyReplicas :: int
  hws_Conditions :: "addr option"

record hTemporalWorker =
  htw_Meta :: ObjectMeta
  htw_Spec :: hTemporalWorkerSpec
  htw_Status :: hTemporalWorkerStatus

datatype cell =
    IntCell int
  | OpaqueCell opaque
  | MapCell "(string \<times> string) list"
  | OpaqueArr "opaque list"
  | StrArr "string list"
  | ShardArr "hShardStatus list"
  | QueueArr "hQueue list"
  | WorkerArr "hTemporalWorker list"

type_synonym heap = "cell list"

definition cell_at :: "heap \<Rightarrow> addr option \<Rightarrow> cell option" where
  "cell_at h p = (case p of None \<Rightarrow> None | Some a \<Rightarrow> if a < length h then Some (h ! a) else None)"

section \<open>Copying\<close>

text \<open>A new cell with the contents of another one, for cells without addresses in them.\<close>

definition copy_cell :: "heap \<Rightarrow> addr option \<Rightarrow> addr option \<times> heap" where
  "copy_cell h p = (case p of None \<Rightarrow> (None, h) | Some a \<Rightarrow> (Some (length h), h @ [h ! a]))"

definition TemporalWorkerSpec_DeepCopyInto :: "heap \<Rightarrow> hTemporalWorkerSpec \<Rightarrow> hTemporalWorkerSpec \<times> heap" where
  "TemporalWorkerSpec_DeepCopyInto h s =
     (case copy_cell h (hw_Replicas s) of (replicas, h) \<Rightarrow>
      case copy_cell h (hw_Resources s) of (resources, h) \<Rightarrow>
      case copy_cell h (hw_NodeSelector s) of (nodeSelector, h) \<Rightarrow>
      case copy_cell h (hw_Affinity s) of (affinity, h) \<Rightarrow>
      case copy_cell h (hw_Tolerations s) of (tolerations, h) \<Rightarrow>
        (s\<lparr>hw_Replicas := replicas, hw_Resources := resources, hw_NodeSelector := nodeSelector,
          hw_Affinity := affinity, hw_Tolerations := tolerations\<rparr>, h))"

definition TemporalWorkerStatus_DeepCopyInto :: "heap \<Rightarrow> hTemporalWorkerStatus \<Rightarrow> hTemporalWorkerStatus \<times> heap" where
  "TemporalWorkerStatus_DeepCopyInto h s =
     (case copy_cell h (hws_Conditions s) of (conditions, h) \<Rightarrow> (s\<lparr>hws_Conditions := conditions\<rparr>, h))"

definition TemporalWorker_DeepCopyInto :: "heap \<Rightarrow> hTemporalWorker \<Rightarrow> hTemporalWorker \<times> heap" where
  "TemporalWorker_DeepCopyInto h t =
     (case TemporalWorkerSpec_DeepCopyInto h (htw_Spec t) of (spec, h) \<Rightarrow>
      case TemporalWorkerStatus_DeepCopyInto h (htw_Status t) of (status, h) \<Rightarrow>
        (t\<lparr>htw_Spec := spec, htw_Status := status\<rparr>, h))"

text \<open>The loop over the items of a list.\<close>

fun copy_each :: "(heap \<Rightarrow> 'a \<Rightarrow> 'a \<times> heap) \<Rightarrow> heap \<Rightarrow> 'a list \<Rightarrow> 'a list \<times> heap" where
  "copy_each f h [] = ([], h)"
| "copy_each f h (x # xs) =
     (case f h x of (y, h) \<Rightarrow> case copy_each f h xs of (ys, h) \<Rightarrow> (y # ys, h))"

text \<open>
  The items of a worker list. \<^verbatim>\<open>make\<close> reserves the new array before the items are copied into it,
  so its cell comes first and is written once they are there.
\<close>

definition TemporalWorkerList_DeepCopyInto :: "heap \<Rightarrow> addr option \<Rightarrow> addr option \<times> heap" where
  "TemporalWorkerList_DeepCopyInto h items =
     (case cell_at h items of
        Some (WorkerArr ws) \<Rightarrow>
          (case copy_each TemporalWorker_DeepCopyInto (h @ [WorkerArr []]) ws of (ws', h') \<Rightarrow>
            (Some (length h), h'[length h := WorkerArr ws']))
      | _ \<Rightarrow> (None, h))"

text \<open>\<^verbatim>\<open>ShardStatus.DeepCopyInto\<close>: the struct is assigned and only its time is copied.\<close>

definition ShardStatus_DeepCopyInto :: "heap \<Rightarrow> hShardStatus \<Rightarrow> hShardStatus \<times> heap" where
  "ShardStatus_DeepCopyInto h s = (s\<lparr>hs_CreatedAt := hs_CreatedAt s\<rparr>, h)"

definition QueueSpec_DeepCopyInto :: "QueueSpec \<Rightarrow> QueueSpec" where
  "QueueSpec_DeepCopyInto spec = spec"

definition copy_shards :: "heap \<Rightarrow> addr option \<Rightarrow> addr option \<times> heap" where
  "copy_shards h shards =
     (case cell_at h shards of
        Some (ShardArr ss) \<Rightarrow>
          (case copy_each ShardStatus_DeepCopyInto (h @ [ShardArr []]) ss of (ss', h') \<Rightarrow>
            (Some (length h), h'[length h := ShardArr ss']))
      | _ \<Rightarrow> (None, h))"

definition QueueStatus_DeepCopyInto :: "heap \<Rightarrow> hQueueStatus \<Rightarrow> hQueueStatus \<times> heap" where
  "QueueStatus_DeepCopyInto h s =
     (case copy_shards h (hqst_Shards s) of (shards, h) \<Rightarrow>
      case copy_cell h (hqst_Conditions s) of (conditions, h) \<Rightarrow>
        (s\<lparr>hqst_Shards := shards, hqst_Conditions := conditions\<rparr>, h))"

definition Queue_DeepCopyInto :: "heap \<Rightarrow> hQueue \<Rightarrow> hQueue \<times> heap" where
  "Queue_DeepCopyInto h q =
     (case QueueStatus_DeepCopyInto h (hq_Status q) of (status, h) \<Rightarrow>
        (q\<lparr>hq_Spec := QueueSpec_DeepCopyInto (hq_Spec q), hq_Status := status\<rparr>, h))"

definition QueueList_DeepCopyInto :: "heap \<Rightarrow> addr option \<Rightarrow> addr option \<times> heap" where
  "QueueList_DeepCopyInto h items =
     (case cell_at h items of
        Some (QueueArr qs) \<Rightarrow>
          (case copy_each Queue_DeepCopyInto (h @ [QueueArr []]) qs of (qs', h') \<Rightarrow>
            (Some (length h), h'[length h := QueueArr qs']))
      | _ \<Rightarrow> (None, h))"

text \<open>\<^verbatim>\<open>DeepCopy\<close> of a receiver that may be nil, and what \<^verbatim>\<open>DeepCopyObject\<close> makes of it: an interface
  value is nil, or holds a pointer, which may itself be nil.\<close>

definition DeepCopy_of :: "(heap \<Rightarrow> 'a \<Rightarrow> 'a \<times> heap) \<Rightarrow> heap \<Rightarrow> 'a option \<Rightarrow> 'a option \<times> heap" where
  "DeepCopy_of f h inn = (case inn of None \<Rightarrow> (None, h) | Some v \<Rightarrow> (case f h v of (out, h) \<Rightarrow> (Some out, h)))"

datatype 'a iface = NilInterface | Interface "'a option"

text \<open>The generated \<^verbatim>\<open>DeepCopyObject\<close> compares the copy with nil, the one written by hand does not.\<close>

definition checked_object :: "'a option \<times> heap \<Rightarrow> 'a iface \<times> heap" where
  "checked_object r = (case r of (c, h) \<Rightarrow> (if c \<noteq> None then Interface c else NilInterface, h))"

definition unchecked_object :: "'a option \<times> heap \<Rightarrow> 'a iface \<times> heap" where
  "unchecked_object r = (case r of (c, h) \<Rightarrow> (Interface c, h))"

definition ShardStatus_DeepCopy :: "heap \<Rightarrow> hShardStatus option \<Rightarrow> hShardStatus option \<times> heap" where
  "ShardStatus_DeepCopy = DeepCopy_of ShardStatus_DeepCopyInto"

definition QueueSpec_DeepCopy :: "heap \<Rightarrow> QueueSpec option \<Rightarrow> QueueSpec option \<times> heap" where
  "QueueSpec_DeepCopy = DeepCopy_of (\<lambda>h spec. (QueueSpec_DeepCopyInto spec, h))"

definition QueueStatus_DeepCopy :: "heap \<Rightarrow> hQueueStatus option \<Rightarrow> hQueueStatus option \<times> heap" where
  "QueueStatus_DeepCopy = DeepCopy_of QueueStatus_DeepCopyInto"

definition Queue_DeepCopy :: "heap \<Rightarrow> hQueue option \<Rightarrow> hQueue option \<times> heap" where
  "Queue_DeepCopy = DeepCopy_of Queue_DeepCopyInto"

definition Queue_DeepCopyObject :: "heap \<Rightarrow> hQueue option \<Rightarrow> hQueue iface \<times> heap" where
  "Queue_DeepCopyObject h inn = checked_object (Queue_DeepCopy h inn)"

text \<open>A list object is its items.\<close>

definition QueueList_DeepCopy :: "heap \<Rightarrow> addr option option \<Rightarrow> addr option option \<times> heap" where
  "QueueList_DeepCopy = DeepCopy_of QueueList_DeepCopyInto"

definition QueueList_DeepCopyObject :: "heap \<Rightarrow> addr option option \<Rightarrow> addr option iface \<times> heap" where
  "QueueList_DeepCopyObject h inn = checked_object (QueueList_DeepCopy h inn)"

definition TemporalWorkerSpec_DeepCopy :: "heap \<Rightarrow> hTemporalWorkerSpec option \<Rightarrow> hTemporalWorkerSpec option \<times> heap" where
  "TemporalWorkerSpec_DeepCopy = DeepCopy_of TemporalWorkerSpec_DeepCopyInto"

definition TemporalWorkerStatus_DeepCopy :: "heap \<Rightarrow> hTemporalWorkerStatus option \<Rightarrow> hTemporalWorkerStatus option \<times> heap" where
  "TemporalWorkerStatus_DeepCopy = DeepCopy_of TemporalWorkerStatus_DeepCopyInto"

definition TemporalWorker_DeepCopy :: "heap \<Rightarrow> hTemporalWorker option \<Rightarrow> hTemporalWorker option \<times> heap" where
  "TemporalWorker_DeepCopy = DeepCopy_of TemporalWorker_DeepCopyInto"

definition TemporalWorker_DeepCopyObject :: "heap \<Rightarrow> hTemporalWorker option \<Rightarrow> hTemporalWorker iface \<times> heap" where
  "TemporalWorker_DeepCopyObject h inn = unchecked_object (TemporalWorker_DeepCopy h inn)"

definition TemporalWorkerList_DeepCopy :: "heap \<Rightarrow> addr option option \<Rightarrow> addr option option \<times> heap" where
  "TemporalWorkerList_DeepCopy = DeepCopy_of TemporalWorkerList_DeepCopyInto"

definition TemporalWorkerList_DeepCopyObject :: "heap \<Rightarrow> addr option option \<Rightarrow> addr option iface \<times> heap" where
  "TemporalWorkerList_DeepCopyObject h inn = unchecked_object (TemporalWorkerList_DeepCopy h inn)"

section \<open>What the objects mean\<close>

definition ints_at :: "heap \<Rightarrow> addr option \<Rightarrow> int option" where
  "ints_at h p = (case cell_at h p of Some (IntCell n) \<Rightarrow> Some n | _ \<Rightarrow> None)"

definition opaque_at :: "heap \<Rightarrow> addr option \<Rightarrow> opaque option" where
  "opaque_at h p = (case cell_at h p of Some (OpaqueCell x) \<Rightarrow> Some x | _ \<Rightarrow> None)"

definition map_at :: "heap \<Rightarrow> addr option \<Rightarrow> (string \<times> string) list" where
  "map_at h p = (case cell_at h p of Some (MapCell m) \<Rightarrow> m | _ \<Rightarrow> [])"

definition opaques_at :: "heap \<Rightarrow> addr option \<Rightarrow> opaque list" where
  "opaques_at h p = (case cell_at h p of Some (OpaqueArr xs) \<Rightarrow> xs | _ \<Rightarrow> [])"

definition strings_at :: "heap \<Rightarrow> addr option \<Rightarrow> string list" where
  "strings_at h p = (case cell_at h p of Some (StrArr xs) \<Rightarrow> xs | _ \<Rightarrow> [])"

definition shards_at :: "heap \<Rightarrow> addr option \<Rightarrow> hShardStatus list" where
  "shards_at h p = (case cell_at h p of Some (ShardArr ss) \<Rightarrow> ss | _ \<Rightarrow> [])"

definition workers_at :: "heap \<Rightarrow> addr option \<Rightarrow> hTemporalWorker list" where
  "workers_at h p = (case cell_at h p of Some (WorkerArr ws) \<Rightarrow> ws | _ \<Rightarrow> [])"

lemmas readers = ints_at_def opaque_at_def map_at_def opaques_at_def strings_at_def shards_at_def workers_at_def

definition abs_spec :: "heap \<Rightarrow> hTemporalWorkerSpec \<Rightarrow> TemporalWorkerSpec" where
  "abs_spec h s = \<lparr>tws_Namespace = hw_Namespace s, tws_Image = hw_Image s, tws_ImagePullPolicy = hw_ImagePullPolicy s,
     tws_Replicas = ints_at h (hw_Replicas s), tws_Resources = opaque_at h (hw_Resources s),
     tws_NodeSelector = map_at h (hw_NodeSelector s), tws_Affinity = opaque_at h (hw_Affinity s),
     tws_Tolerations = opaques_at h (hw_Tolerations s)\<rparr>"

definition abs_worker_status :: "heap \<Rightarrow> hTemporalWorkerStatus \<Rightarrow> TemporalWorkerStatus" where
  "abs_worker_status h s = \<lparr>twst_Phase = hws_Phase s, twst_Replicas = hws_Replicas s,
     twst_ReadyReplicas = hws_ReadyReplicas s, twst_Conditions = opaques_at h (hws_Conditions s)\<rparr>"

definition abs_worker :: "heap \<Rightarrow> hTemporalWorker \<Rightarrow> TemporalWorker" where
  "abs_worker h t = \<lparr>tw_Meta = htw_Meta t, tw_Spec = abs_spec h (htw_Spec t), tw_Status = abs_worker_status h (htw_Status t)\<rparr>"

definition abs_shard :: "heap \<Rightarrow> hShardStatus \<Rightarrow> ShardStatus" where
  "abs_shard h s = \<lparr>ss_ID = hs_ID s, ss_Topic = hs_Topic s, ss_HashRangeStart = hs_HashRangeStart s,
     ss_HashRangeEnd = hs_HashRangeEnd s, ss_Phase = hs_Phase s, ss_ParentID = hs_ParentID s,
     ss_CreatedAt = hs_CreatedAt s, ss_AvailabilityZones = strings_at h (hs_AvailabilityZones s)\<rparr>"

definition abs_queue :: "heap \<Rightarrow> hQueue \<Rightarrow> Queue" where
  "abs_queue h q = \<lparr>q_Meta = hq_Meta q, q_Spec = hq_Spec q, q_Status = \<lparr>qst_Phase = hqst_Phase (hq_Status q),
     qst_Shards = map (abs_shard h) (shards_at h (hqst_Shards (hq_Status q))),
     qst_Conditions = opaques_at h (hqst_Conditions (hq_Status q))\<rparr>\<rparr>"

text \<open>The addresses in an object.\<close>

definition spec_addrs :: "hTemporalWorkerSpec \<Rightarrow> addr set" where
  "spec_addrs s = set_option (hw_Replicas s) \<union> set_option (hw_Resources s) \<union> set_option (hw_NodeSelector s) \<union>
     set_option (hw_Affinity s) \<union> set_option (hw_Tolerations s)"

definition worker_status_addrs :: "hTemporalWorkerStatus \<Rightarrow> addr set" where
  "worker_status_addrs s = set_option (hws_Conditions s)"

definition worker_addrs :: "hTemporalWorker \<Rightarrow> addr set" where
  "worker_addrs t = spec_addrs (htw_Spec t) \<union> worker_status_addrs (htw_Status t)"

section \<open>The contract of a deep copy\<close>

lemma cell_at_same:
  assumes "set_option p \<subseteq> {..<length h}" and "length h \<le> length h'" and "\<forall>a \<in> set_option p. h' ! a = h ! a"
  shows "cell_at h' p = cell_at h p"
  using assms by (cases p) (auto simp: cell_at_def)

lemma prefix_nth: "prefix h h' \<Longrightarrow> a < length h \<Longrightarrow> h' ! a = h ! a"
  by (auto simp: prefix_def nth_append)

lemma cell_at_prefix: "prefix h h' \<Longrightarrow> set_option p \<subseteq> {..<length h} \<Longrightarrow> cell_at h' p = cell_at h p"
  by (rule cell_at_same) (auto simp: prefix_length_le prefix_nth)

text \<open>
  A copy of \<open>x\<close> only allocates, means the same, and has no address that was there before; and
  what an object means depends on the cells at its addresses only.
\<close>

locale deep_copier =
  fixes copy :: "heap \<Rightarrow> 'a \<Rightarrow> 'a \<times> heap" and addrs :: "'a \<Rightarrow> addr set" and meaning :: "heap \<Rightarrow> 'a \<Rightarrow> 'b"
  assumes copies: "copy h x = (y, h') \<Longrightarrow> addrs x \<subseteq> {..<length h} \<Longrightarrow>
      prefix h h' \<and> meaning h' y = meaning h x \<and> addrs y \<subseteq> {length h..<length h'}"
    and local: "addrs x \<subseteq> {..<length h} \<Longrightarrow> length h \<le> length h' \<Longrightarrow> \<forall>a \<in> addrs x. h' ! a = h ! a \<Longrightarrow>
      meaning h' x = meaning h x"
begin

lemma meaning_prefix: "prefix h h' \<Longrightarrow> addrs x \<subseteq> {..<length h} \<Longrightarrow> meaning h' x = meaning h x"
  by (rule local) (auto simp: prefix_length_le prefix_nth)

lemma copy_each_spec:
  assumes "copy_each copy h xs = (ys, h')" and "\<forall>x \<in> set xs. addrs x \<subseteq> {..<length h}"
  shows "prefix h h' \<and> map (meaning h') ys = map (meaning h) xs \<and> (\<forall>y \<in> set ys. addrs y \<subseteq> {length h..<length h'})"
  using assms
proof (induction xs arbitrary: h ys)
  case (Cons x xs)
  obtain y h1 where c: "copy h x = (y, h1)" by force
  obtain ys1 where r: "copy_each copy h1 xs = (ys1, h')" and ys: "ys = y # ys1"
    using Cons.prems(1) c by (auto split: prod.splits)
  have y: "prefix h h1" "meaning h1 y = meaning h x" "addrs y \<subseteq> {length h..<length h1}"
    using copies [OF c] Cons.prems(2) by simp_all
  have le: "length h \<le> length h1" using y(1) by (rule prefix_length_le)
  then have in1: "\<forall>x \<in> set xs. addrs x \<subseteq> {..<length h1}" using Cons.prems(2) by fastforce
  from Cons.IH [OF r in1] have ih: "prefix h1 h'" "map (meaning h') ys1 = map (meaning h1) xs"
    "\<forall>y \<in> set ys1. addrs y \<subseteq> {length h1..<length h'}" by simp_all
  have le': "length h1 \<le> length h'" using ih(1) by (rule prefix_length_le)
  have "map (meaning h1) xs = map (meaning h) xs"
    using y(1) Cons.prems(2) meaning_prefix [of h h1] by simp
  moreover have "meaning h' y = meaning h1 y" using y(3) by (intro meaning_prefix [OF ih(1)]) auto
  moreover have "prefix h h'" using y(1) ih(1) by (rule prefix_order.trans)
  moreover have "\<forall>z \<in> set ys. addrs z \<subseteq> {length h..<length h'}"
  proof
    fix z assume "z \<in> set ys"
    then consider "z = y" | "z \<in> set ys1" using ys by auto
    then show "addrs z \<subseteq> {length h..<length h'}" using y(3) ih(3) le le' by cases fastforce+
  qed
  ultimately show ?case using y(2) ih(2) ys by simp
qed simp

text \<open>A write at an address of the copy does not change what the original means.\<close>

lemma write_through_copy:
  assumes "copy h x = (y, h')" and "addrs x \<subseteq> {..<length h}" and "a \<in> addrs y"
  shows "meaning (h'[a := c]) x = meaning h x"
proof -
  have "prefix h h'" and a: "length h \<le> a" using copies [OF assms(1,2)] assms(3) by auto
  then have "\<forall>b \<in> addrs x. h'[a := c] ! b = h ! b" using assms(2) by (fastforce simp: prefix_nth)
  with assms(2) \<open>prefix h h'\<close> show ?thesis by (intro local) (simp_all add: prefix_length_le)
qed

end

lemma copy_cell_spec:
  assumes "copy_cell h p = (p', h')" and "prefix h0 h" and "set_option p \<subseteq> {..<length h0}"
  shows "prefix h h' \<and> cell_at h' p' = cell_at h0 p \<and> set_option p' \<subseteq> {length h..<length h'}"
proof (cases p)
  case None
  with assms show ?thesis by (simp add: copy_cell_def cell_at_def)
next
  case (Some a)
  with assms(3) have a: "a < length h0" by simp
  then have "h ! a = h0 ! a" using assms(2) by (simp add: prefix_nth)
  with Some a assms(1) show ?thesis by (auto simp: copy_cell_def cell_at_def)
qed

text \<open>The five fields of a worker specification, one after another.\<close>

lemma TemporalWorkerSpec_copied:
  assumes "TemporalWorkerSpec_DeepCopyInto h s = (s', h')" and "spec_addrs s \<subseteq> {..<length h}"
  shows "prefix h h' \<and> abs_spec h' s' = abs_spec h s \<and> spec_addrs s' \<subseteq> {length h..<length h'}"
proof -
  obtain p1 h1 where 1: "copy_cell h (hw_Replicas s) = (p1, h1)" by force
  obtain p2 h2 where 2: "copy_cell h1 (hw_Resources s) = (p2, h2)" by force
  obtain p3 h3 where 3: "copy_cell h2 (hw_NodeSelector s) = (p3, h3)" by force
  obtain p4 h4 where 4: "copy_cell h3 (hw_Affinity s) = (p4, h4)" by force
  obtain p5 h5 where 5: "copy_cell h4 (hw_Tolerations s) = (p5, h5)" by force
  have s': "s' = s\<lparr>hw_Replicas := p1, hw_Resources := p2, hw_NodeSelector := p3, hw_Affinity := p4, hw_Tolerations := p5\<rparr>" "h' = h5"
    using assms(1) 1 2 3 4 5 by (simp_all add: TemporalWorkerSpec_DeepCopyInto_def)
  have r: "set_option (hw_Replicas s) \<subseteq> {..<length h}" "set_option (hw_Resources s) \<subseteq> {..<length h}"
    "set_option (hw_NodeSelector s) \<subseteq> {..<length h}" "set_option (hw_Affinity s) \<subseteq> {..<length h}"
    "set_option (hw_Tolerations s) \<subseteq> {..<length h}" using assms(2) by (simp_all add: spec_addrs_def)
  note c1 = copy_cell_spec [OF 1 prefix_order.refl r(1)]
  have q1: "prefix h h1" using c1 by simp
  note c2 = copy_cell_spec [OF 2 q1 r(2)]
  have q2: "prefix h h2" using q1 c2 by (meson prefix_order.trans)
  note c3 = copy_cell_spec [OF 3 q2 r(3)]
  have q3: "prefix h h3" using q2 c3 by (meson prefix_order.trans)
  note c4 = copy_cell_spec [OF 4 q3 r(4)]
  have q4: "prefix h h4" using q3 c4 by (meson prefix_order.trans)
  note c5 = copy_cell_spec [OF 5 q4 r(5)]
  have q5: "prefix h h5" using q4 c5 by (meson prefix_order.trans)
  have t: "prefix h4 h5" "prefix h3 h5" "prefix h2 h5" "prefix h1 h5" using c2 c3 c4 c5 by (meson prefix_order.trans)+
  note len = prefix_length_le [OF q1] prefix_length_le [OF q2] prefix_length_le [OF q3] prefix_length_le [OF q4]
    prefix_length_le [OF t(1)] prefix_length_le [OF t(2)] prefix_length_le [OF t(3)] prefix_length_le [OF t(4)]
  have b: "set_option p1 \<subseteq> {..<length h1}" "set_option p2 \<subseteq> {..<length h2}" "set_option p3 \<subseteq> {..<length h3}" "set_option p4 \<subseteq> {..<length h4}"
    using c1 c2 c3 c4 by auto
  have "cell_at h5 p1 = cell_at h (hw_Replicas s)" "cell_at h5 p2 = cell_at h (hw_Resources s)"
    "cell_at h5 p3 = cell_at h (hw_NodeSelector s)" "cell_at h5 p4 = cell_at h (hw_Affinity s)" "cell_at h5 p5 = cell_at h (hw_Tolerations s)"
    using c1 c2 c3 c4 c5 cell_at_prefix [OF t(1) b(4)] cell_at_prefix [OF t(2) b(3)] cell_at_prefix [OF t(3) b(2)] cell_at_prefix [OF t(4) b(1)]
    by simp_all
  then have "abs_spec h' s' = abs_spec h s" by (simp add: s' abs_spec_def readers)
  moreover have "set_option p1 \<subseteq> {length h..<length h5}" "set_option p2 \<subseteq> {length h..<length h5}" "set_option p3 \<subseteq> {length h..<length h5}"
    "set_option p4 \<subseteq> {length h..<length h5}" "set_option p5 \<subseteq> {length h..<length h5}"
    using c1 c2 c3 c4 c5 len by (auto simp: subset_iff)
  then have "spec_addrs s' \<subseteq> {length h..<length h'}" by (simp add: s' spec_addrs_def)
  ultimately show ?thesis using q5 s' by simp
qed

lemma TemporalWorkerStatus_copied:
  assumes "TemporalWorkerStatus_DeepCopyInto h s = (s', h')" and "worker_status_addrs s \<subseteq> {..<length h}"
  shows "prefix h h' \<and> abs_worker_status h' s' = abs_worker_status h s \<and> worker_status_addrs s' \<subseteq> {length h..<length h'}"
proof -
  obtain p h1 where c: "copy_cell h (hws_Conditions s) = (p, h1)" by force
  then have s': "s' = s\<lparr>hws_Conditions := p\<rparr>" "h' = h1" using assms(1) by (simp_all add: TemporalWorkerStatus_DeepCopyInto_def)
  from copy_cell_spec [OF c prefix_order.refl] assms(2) show ?thesis
    by (simp add: s' abs_worker_status_def worker_status_addrs_def readers)
qed

interpretation spec_copy: deep_copier TemporalWorkerSpec_DeepCopyInto spec_addrs abs_spec
proof
  fix h h' :: heap and x y
  show "prefix h h' \<and> abs_spec h' y = abs_spec h x \<and> spec_addrs y \<subseteq> {length h..<length h'}"
    if "TemporalWorkerSpec_DeepCopyInto h x = (y, h')" "spec_addrs x \<subseteq> {..<length h}"
    using that by (rule TemporalWorkerSpec_copied)
  show "abs_spec h' x = abs_spec h x"
    if "spec_addrs x \<subseteq> {..<length h}" "length h \<le> length h'" "\<forall>a \<in> spec_addrs x. h' ! a = h ! a"
    using that cell_at_same [of _ h h'] by (simp add: abs_spec_def spec_addrs_def readers)
qed

interpretation status_copy: deep_copier TemporalWorkerStatus_DeepCopyInto worker_status_addrs abs_worker_status
proof
  fix h h' :: heap and x y
  show "prefix h h' \<and> abs_worker_status h' y = abs_worker_status h x \<and> worker_status_addrs y \<subseteq> {length h..<length h'}"
    if "TemporalWorkerStatus_DeepCopyInto h x = (y, h')" "worker_status_addrs x \<subseteq> {..<length h}"
    using that by (rule TemporalWorkerStatus_copied)
  show "abs_worker_status h' x = abs_worker_status h x"
    if "worker_status_addrs x \<subseteq> {..<length h}" "length h \<le> length h'" "\<forall>a \<in> worker_status_addrs x. h' ! a = h ! a"
    using that cell_at_same [of _ h h'] by (simp add: abs_worker_status_def worker_status_addrs_def readers)
qed

lemma TemporalWorker_copied:
  assumes "TemporalWorker_DeepCopyInto h t = (t', h')" and "worker_addrs t \<subseteq> {..<length h}"
  shows "prefix h h' \<and> abs_worker h' t' = abs_worker h t \<and> worker_addrs t' \<subseteq> {length h..<length h'}"
proof -
  obtain s1 h1 where 1: "TemporalWorkerSpec_DeepCopyInto h (htw_Spec t) = (s1, h1)" by force
  obtain s2 h2 where 2: "TemporalWorkerStatus_DeepCopyInto h1 (htw_Status t) = (s2, h2)" by force
  have t': "t' = t\<lparr>htw_Spec := s1, htw_Status := s2\<rparr>" "h' = h2"
    using assms(1) 1 2 by (simp_all add: TemporalWorker_DeepCopyInto_def)
  have r: "spec_addrs (htw_Spec t) \<subseteq> {..<length h}" "worker_status_addrs (htw_Status t) \<subseteq> {..<length h}"
    using assms(2) by (simp_all add: worker_addrs_def)
  note c1 = spec_copy.copies [OF 1 r(1)]
  then have le: "length h \<le> length h1" by (simp add: prefix_length_le)
  with r(2) have r': "worker_status_addrs (htw_Status t) \<subseteq> {..<length h1}" by auto
  note c2 = status_copy.copies [OF 2 r']
  then have le': "length h1 \<le> length h2" by (simp add: prefix_length_le)
  have "abs_spec h2 s1 = abs_spec h1 s1" using c1 c2 by (intro spec_copy.meaning_prefix) auto
  moreover have "abs_worker_status h1 (htw_Status t) = abs_worker_status h (htw_Status t)"
    using c1 r(2) by (intro status_copy.meaning_prefix) auto
  moreover have "prefix h h2" using c1 c2 by (meson prefix_order.trans)
  moreover have "spec_addrs s1 \<union> worker_status_addrs s2 \<subseteq> {length h..<length h2}" using c1 c2 le le' by (auto simp: subset_iff)
  ultimately show ?thesis using c1 c2 by (simp add: t' abs_worker_def worker_addrs_def)
qed

interpretation worker_copy: deep_copier TemporalWorker_DeepCopyInto worker_addrs abs_worker
proof
  fix h h' :: heap and x y
  show "prefix h h' \<and> abs_worker h' y = abs_worker h x \<and> worker_addrs y \<subseteq> {length h..<length h'}"
    if "TemporalWorker_DeepCopyInto h x = (y, h')" "worker_addrs x \<subseteq> {..<length h}"
    using that by (rule TemporalWorker_copied)
  show "abs_worker h' x = abs_worker h x"
    if "worker_addrs x \<subseteq> {..<length h}" "length h \<le> length h'" "\<forall>a \<in> worker_addrs x. h' ! a = h ! a"
    using that spec_copy.local [of "htw_Spec x" h h'] status_copy.local [of "htw_Status x" h h']
    by (simp add: abs_worker_def worker_addrs_def)
qed

section \<open>Worker lists are copied deeply\<close>

definition abs_workers :: "heap \<Rightarrow> addr option \<Rightarrow> TemporalWorker list" where
  "abs_workers h p = map (abs_worker h) (workers_at h p)"

definition list_addrs :: "heap \<Rightarrow> addr option \<Rightarrow> addr set" where
  "list_addrs h p = set_option p \<union> (\<Union>w \<in> set (workers_at h p). worker_addrs w)"

lemma abs_workers_local:
  assumes "list_addrs h p \<subseteq> {..<length h}" and "length h \<le> length h'" and "\<forall>a < length h. h' ! a = h ! a"
  shows "abs_workers h' p = abs_workers h p"
proof -
  have "cell_at h' p = cell_at h p" using assms by (intro cell_at_same) (auto simp: list_addrs_def)
  then have "workers_at h' p = workers_at h p" by (simp add: workers_at_def)
  moreover have "abs_worker h' w = abs_worker h w" if "w \<in> set (workers_at h p)" for w
  proof (rule worker_copy.local [OF _ assms(2)])
    show in_h: "worker_addrs w \<subseteq> {..<length h}" using assms(1) that by (auto simp: list_addrs_def)
    show "\<forall>a \<in> worker_addrs w. h' ! a = h ! a" using in_h assms(3) by auto
  qed
  ultimately show ?thesis by (simp add: abs_workers_def)
qed

lemma TemporalWorkerList_copied:
  assumes "TemporalWorkerList_DeepCopyInto h p = (p', h')" and "list_addrs h p \<subseteq> {..<length h}"
    and "cell_at h p = Some (WorkerArr ws)"
  shows "length h \<le> length h' \<and> (\<forall>a < length h. h' ! a = h ! a) \<and> abs_workers h' p' = abs_workers h p \<and>
    list_addrs h' p' \<subseteq> {length h..<length h'}"
proof -
  let ?h0 = "h @ [WorkerArr []]"
  obtain ws' h1 where c: "copy_each TemporalWorker_DeepCopyInto ?h0 ws = (ws', h1)" by force
  have p': "p' = Some (length h)" "h' = h1[length h := WorkerArr ws']"
    using assms(1,3) c by (simp_all add: TemporalWorkerList_DeepCopyInto_def)
  have at: "workers_at h p = ws" using assms(3) by (simp add: workers_at_def)
  have r: "\<forall>w \<in> set ws. worker_addrs w \<subseteq> {..<length h}" using assms(2) at by (auto simp: list_addrs_def)
  then have "\<forall>w \<in> set ws. worker_addrs w \<subseteq> {..<length ?h0}" by fastforce
  from worker_copy.copy_each_spec [OF c this] have p: "prefix ?h0 h1" and m: "map (abs_worker h1) ws' = map (abs_worker ?h0) ws"
    and f: "\<forall>w \<in> set ws'. worker_addrs w \<subseteq> {length ?h0..<length h1}" by simp_all
  have len: "length ?h0 \<le> length h1" using p by (rule prefix_length_le)
  have m0: "abs_worker ?h0 w = abs_worker h w" if "w \<in> set ws" for w
    using r that by (intro worker_copy.meaning_prefix) auto
  have m1: "abs_worker h' w = abs_worker h1 w" if "w \<in> set ws'" for w
    using f that by (intro worker_copy.local) (fastforce simp: p')+
  have at': "workers_at h' p' = ws'" using len by (simp add: p' workers_at_def cell_at_def)
  have "map (abs_worker h') ws' = map (abs_worker h1) ws'" using m1 by simp
  also have "\<dots> = map (abs_worker h) ws" using m m0 by simp
  finally have "abs_workers h' p' = abs_workers h p" by (simp add: abs_workers_def at at')
  moreover have "\<forall>a < length h. h' ! a = h ! a" using prefix_nth [OF p] by (simp add: p' nth_append)
  moreover have "list_addrs h' p' \<subseteq> {length h..<length h'}"
  proof
    fix a assume "a \<in> list_addrs h' p'"
    then consider "a = length h" | w where "w \<in> set ws'" "a \<in> worker_addrs w" unfolding list_addrs_def at' by (auto simp: p')
    then have "length h \<le> a \<and> a < length h1" using f len by cases fastforce+
    then show "a \<in> {length h..<length h'}" by (simp add: p')
  qed
  ultimately show ?thesis using len by (simp add: p')
qed

text \<open>
  C15. The copy of a list of workers is deep: it means the same as the original, making it changes
  nothing, and whatever is written later at any address reachable from the copy, the original
  keeps its meaning.
\<close>

theorem TemporalWorkerList_copy_is_deep:
  assumes "TemporalWorkerList_DeepCopyInto h p = (p', h')" and "list_addrs h p \<subseteq> {..<length h}"
    and "cell_at h p = Some (WorkerArr ws)"
  shows "abs_workers h' p' = abs_workers h p \<and> abs_workers h' p = abs_workers h p \<and> list_addrs h p \<inter> list_addrs h' p' = {} \<and>
    (\<forall>a \<in> list_addrs h' p'. \<forall>c. abs_workers (h'[a := c]) p = abs_workers h p)"
proof -
  note c = TemporalWorkerList_copied [OF assms]
  have "abs_workers (h'[a := x]) p = abs_workers h p" if "a \<in> list_addrs h' p'" for a x
    using c that by (intro abs_workers_local [OF assms(2)]) (auto simp: subset_iff)
  moreover have "abs_workers h' p = abs_workers h p" using c by (intro abs_workers_local [OF assms(2)]) auto
  moreover have "list_addrs h p \<inter> list_addrs h' p' = {}" using c assms(2) by fastforce
  ultimately show ?thesis using c by simp
qed

definition demo_list :: heap where
  "demo_list = [IntCell 3, MapCell [(''disk'', ''ssd'')], WorkerArr [\<lparr>htw_Meta = meta_of ''w'' ''t'',
     htw_Spec = \<lparr>hw_Namespace = ''story'', hw_Image = ''i'', hw_ImagePullPolicy = '''', hw_Replicas = Some 0, hw_Resources = None,
       hw_NodeSelector = Some 1, hw_Affinity = None, hw_Tolerations = None\<rparr>,
     htw_Status = \<lparr>hws_Phase = '''', hws_Replicas = 0, hws_ReadyReplicas = 0, hws_Conditions = None\<rparr>\<rparr>]]"

theorem TemporalWorkerList_copy_is_deep_witness:
  "map (\<lambda>t. tws_NodeSelector (tw_Spec t)) (abs_workers ((snd (TemporalWorkerList_DeepCopyInto demo_list (Some 2)))[5 := MapCell []]) (Some 2)) =
     [[(''disk'', ''ssd'')]]"
proof -
  let ?h = "snd (TemporalWorkerList_DeepCopyInto demo_list (Some 2))"
  have p: "fst (TemporalWorkerList_DeepCopyInto demo_list (Some 2)) = Some 3" by code_simp
  have w: "length demo_list = 3" "\<exists>ws. cell_at demo_list (Some 2) = Some (WorkerArr ws)" "workers_at demo_list (Some 2) =
      (case demo_list ! 2 of WorkerArr ws \<Rightarrow> ws | _ \<Rightarrow> [])"
    by (simp_all add: demo_list_def cell_at_def workers_at_def)
  have l: "list_addrs demo_list (Some 2) = {0, 1, 2}"
    by (auto simp: list_addrs_def workers_at_def cell_at_def demo_list_def worker_addrs_def spec_addrs_def worker_status_addrs_def)
  have l': "5 \<in> list_addrs ?h (Some 3)" by code_simp
  have o: "map (\<lambda>t. tws_NodeSelector (tw_Spec t)) (abs_workers demo_list (Some 2)) = [[(''disk'', ''ssd'')]]" by code_simp
  obtain ws where "cell_at demo_list (Some 2) = Some (WorkerArr ws)" using w(2) by blast
  from TemporalWorkerList_copy_is_deep [of demo_list "Some 2" "Some 3" ?h, OF _ _ this] p l w(1) l' o show ?thesis
    by (simp add: prod_eq_iff)
qed

section \<open>Queues share their zones with their copies\<close>

definition zone_addrs :: "heap \<Rightarrow> hQueue \<Rightarrow> addr set" where
  "zone_addrs h q = (\<Union>s \<in> set (shards_at h (hqst_Shards (hq_Status q))). set_option (hs_AvailabilityZones s))"

definition own_addrs :: "hQueue \<Rightarrow> addr set" where
  "own_addrs q = set_option (hqst_Shards (hq_Status q)) \<union> set_option (hqst_Conditions (hq_Status q))"

definition queue_typed :: "heap \<Rightarrow> hQueue \<Rightarrow> bool" where
  "queue_typed h q = (own_addrs q \<union> zone_addrs h q \<subseteq> {..<length h} \<and>
     (\<forall>a. hqst_Shards (hq_Status q) = Some a \<longrightarrow> (\<exists>ss. h ! a = ShardArr ss)))"

lemma copy_shards_each: "copy_each ShardStatus_DeepCopyInto h ss = (ss, h)"
  by (induction ss) (simp_all add: ShardStatus_DeepCopyInto_def)

lemma copy_shards_eq:
  assumes "queue_typed h q" and "hqst_Shards (hq_Status q) = p"
  shows "copy_shards h p = (case p of None \<Rightarrow> (None, h) | Some a \<Rightarrow> (Some (length h), h @ [h ! a]))"
proof (cases p)
  case None
  then show ?thesis by (simp add: copy_shards_def cell_at_def)
next
  case (Some a)
  with assms obtain ss where "h ! a = ShardArr ss" "a < length h" by (auto simp: queue_typed_def own_addrs_def)
  with Some show ?thesis by (simp add: copy_shards_def cell_at_def copy_shards_each)
qed

lemma abs_shard_prefix:
  assumes "prefix h h'" and "zone_addrs h q \<subseteq> {..<length h}" and "s \<in> set (shards_at h (hqst_Shards (hq_Status q)))"
  shows "abs_shard h' s = abs_shard h s"
proof -
  have "set_option (hs_AvailabilityZones s) \<subseteq> {..<length h}" using assms(2,3) by (auto simp: zone_addrs_def)
  from cell_at_prefix [OF assms(1) this] show ?thesis by (simp add: abs_shard_def strings_at_def)
qed

lemma Queue_copied:
  assumes "Queue_DeepCopyInto h q = (q', h')" and "queue_typed h q"
  shows "prefix h h' \<and> abs_queue h' q' = abs_queue h q \<and> own_addrs q' \<subseteq> {length h..<length h'} \<and>
    shards_at h' (hqst_Shards (hq_Status q')) = shards_at h (hqst_Shards (hq_Status q))"
proof -
  let ?p = "hqst_Shards (hq_Status q)"
  let ?c = "hqst_Conditions (hq_Status q)"
  obtain p h1 where 1: "copy_cell h ?p = (p, h1)" by force
  obtain c h2 where 2: "copy_cell h1 ?c = (c, h2)" by force
  have "copy_shards h ?p = (p, h1)" using copy_shards_eq [OF assms(2) refl] 1 by (simp add: copy_cell_def)
  then have q': "q' = q\<lparr>hq_Status := (hq_Status q)\<lparr>hqst_Shards := p, hqst_Conditions := c\<rparr>\<rparr>" "h' = h2"
    using assms(1) 2 by (simp_all add: Queue_DeepCopyInto_def QueueStatus_DeepCopyInto_def QueueSpec_DeepCopyInto_def)
  have r: "set_option ?p \<subseteq> {..<length h}" "set_option ?c \<subseteq> {..<length h}" "zone_addrs h q \<subseteq> {..<length h}"
    using assms(2) by (auto simp: queue_typed_def own_addrs_def)
  note c1 = copy_cell_spec [OF 1 prefix_order.refl r(1)]
  have q1: "prefix h h1" using c1 by simp
  note c2 = copy_cell_spec [OF 2 q1 r(2)]
  have q2: "prefix h1 h2" "prefix h h2" using q1 c2 by (simp, meson prefix_order.trans)
  have "set_option p \<subseteq> {..<length h1}" using c1 by auto
  then have shards: "shards_at h2 p = shards_at h ?p" using c1 cell_at_prefix [OF q2(1)] by (simp add: shards_at_def)
  with abs_shard_prefix [OF q2(2) r(3)] have "abs_queue h' q' = abs_queue h q" using c2 by (simp add: q' abs_queue_def opaques_at_def)
  moreover have "length h1 \<le> length h2" "length h \<le> length h1" using q1 q2 by (simp_all add: prefix_length_le)
  then have "own_addrs q' \<subseteq> {length h..<length h'}" using c1 c2 by (auto simp: q' own_addrs_def subset_iff)
  ultimately show ?thesis using q2(2) q' shards by simp
qed

text \<open>
  C16. The generated copy of a queue is not deep. It means the same as the original and its shard
  array and its conditions are new, but the zone lists of the shards are the very lists of
  the original: they are the addresses the two have in common, all of them. So a zone list
  that is changed in place in a copy changes in the original, whatever is written.
\<close>

theorem Queue_copy_shares_zones:
  assumes "Queue_DeepCopyInto h q = (q', h')" and "queue_typed h q"
  shows "abs_queue h' q' = abs_queue h q \<and> abs_queue h' q = abs_queue h q \<and>
    (own_addrs q' \<union> zone_addrs h' q') \<inter> {..<length h} = zone_addrs h q \<and>
    (\<forall>s \<in> set (shards_at h (hqst_Shards (hq_Status q))). \<forall>a zs. hs_AvailabilityZones s = Some a \<longrightarrow>
      s \<in> set (shards_at h' (hqst_Shards (hq_Status q'))) \<and> strings_at (h'[a := StrArr zs]) (hs_AvailabilityZones s) = zs)"
proof -
  note c = Queue_copied [OF assms]
  let ?p = "hqst_Shards (hq_Status q)"
  have r: "set_option ?p \<subseteq> {..<length h}" "set_option (hqst_Conditions (hq_Status q)) \<subseteq> {..<length h}" "zone_addrs h q \<subseteq> {..<length h}"
    using assms(2) by (auto simp: queue_typed_def own_addrs_def)
  have p: "prefix h h'" using c by simp
  have same: "shards_at h' ?p = shards_at h ?p" using cell_at_prefix [OF p r(1)] by (simp add: shards_at_def)
  have "abs_queue h' q = abs_queue h q"
    using abs_shard_prefix [OF p r(3)] same cell_at_prefix [OF p r(2)] by (simp add: abs_queue_def opaques_at_def)
  moreover have "(own_addrs q' \<union> zone_addrs h' q') \<inter> {..<length h} = zone_addrs h q"
    using c r(3) by (auto simp: zone_addrs_def)
  moreover have "strings_at (h'[a := StrArr zs]) (Some a) = zs" if "s \<in> set (shards_at h ?p)" "hs_AvailabilityZones s = Some a" for s a zs
  proof -
    have "a < length h" using r(3) that by (auto simp: zone_addrs_def)
    then have "a < length h'" using prefix_length_le [OF p] by simp
    then show ?thesis by (simp add: strings_at_def cell_at_def)
  qed
  ultimately show ?thesis using c by simp
qed

definition demo_zones :: heap where
  "demo_zones = [StrArr [''a'', ''b''], ShardArr [\<lparr>hs_ID = ''0'', hs_Topic = ''t'', hs_HashRangeStart = 0, hs_HashRangeEnd = 7,
     hs_Phase = ShardPhaseActive, hs_ParentID = '''', hs_CreatedAt = 1, hs_AvailabilityZones = Some 0\<rparr>]]"

definition demo_hqueue :: hQueue where
  "demo_hqueue = \<lparr>hq_Meta = meta_of ''orders'' ''sqs'',
     hq_Spec = \<lparr>qs_FIFOQueue = True, qs_VisibilityTimeoutSeconds = 30, qs_MessageRetentionPeriodSeconds = 60, qs_MaxReceiveCount = 3,
       qs_DeadLetterTargetQueue = '''', qs_PartitionsPerShard = 6, qs_DelaySeconds = 0, qs_IsDLQ = False, qs_MinShards = 1,
       qs_MaxShards = 4, qs_ShardSplitThresholdBytesPerSec = 0, qs_ShardSplitCooldownSeconds = 0\<rparr>,
     hq_Status = \<lparr>hqst_Phase = QueuePhaseReady, hqst_Shards = Some 1, hqst_Conditions = None\<rparr>\<rparr>"

theorem Queue_copy_shares_zones_witness:
  "(own_addrs (fst (Queue_DeepCopyInto demo_zones demo_hqueue)) \<union>
     zone_addrs (snd (Queue_DeepCopyInto demo_zones demo_hqueue)) (fst (Queue_DeepCopyInto demo_zones demo_hqueue))) \<inter> {..<2} = {0} \<and>
   map ss_AvailabilityZones (q_Shards (abs_queue demo_zones demo_hqueue)) = [[''a'', ''b'']] \<and>
   map ss_AvailabilityZones (q_Shards (abs_queue ((snd (Queue_DeepCopyInto demo_zones demo_hqueue))[0 := StrArr []]) demo_hqueue)) = [[]]"
proof -
  have t: "queue_typed demo_zones demo_hqueue"
    by (auto simp: queue_typed_def own_addrs_def zone_addrs_def shards_at_def cell_at_def demo_zones_def demo_hqueue_def)
  have z: "zone_addrs demo_zones demo_hqueue = {0}" "length demo_zones = 2"
    by (simp_all add: zone_addrs_def shards_at_def cell_at_def demo_zones_def demo_hqueue_def)
  have "map ss_AvailabilityZones (q_Shards (abs_queue demo_zones demo_hqueue)) = [[''a'', ''b'']]"
    "map ss_AvailabilityZones (q_Shards (abs_queue ((snd (Queue_DeepCopyInto demo_zones demo_hqueue))[0 := StrArr []]) demo_hqueue)) = [[]]"
    by code_simp+
  with Queue_copy_shares_zones [OF prod.collapse [symmetric] t] z show ?thesis by simp
qed

text \<open>
  The two kinds of \<^verbatim>\<open>DeepCopyObject\<close> differ on a nil receiver: the generated one answers the nil
  interface, the one written by hand an interface that holds a nil pointer and does not
  compare equal to nil.
\<close>

lemma nil_DeepCopyObject:
  "Queue_DeepCopyObject h None = (NilInterface, h)" "QueueList_DeepCopyObject h None = (NilInterface, h)"
  "TemporalWorker_DeepCopyObject h None = (Interface None, h)" "TemporalWorkerList_DeepCopyObject h None = (Interface None, h)"
  by (simp_all add: Queue_DeepCopyObject_def QueueList_DeepCopyObject_def TemporalWorker_DeepCopyObject_def TemporalWorkerList_DeepCopyObject_def
      Queue_DeepCopy_def QueueList_DeepCopy_def TemporalWorker_DeepCopy_def TemporalWorkerList_DeepCopy_def
      checked_object_def unchecked_object_def DeepCopy_of_def)

end
