(* ===== verification/Test_Doubles.thy ===== *)
theory Test_Doubles
  imports Kafka_Client
begin

text \<open>
  The interface \<^verbatim>\<open>TopicAdmin\<close> of \<^verbatim>\<open>internal/operator/admin.go\<close> with its two implementations, the
  Kafka client \<^verbatim>\<open>kafka.Admin\<close> and the in-memory \<^verbatim>\<open>fakeAdmin\<close> of \<^verbatim>\<open>fake_admin.go\<close>, and
  \<^verbatim>\<open>fakeTemporal\<close> of \<^verbatim>\<open>fake_temporal.go\<close>. The locale \<open>topic_admin\<close> is what the operator relies on; it
  is interpreted on both implementations, so that the double may stand in for Kafka. The
  methods of the doubles hold a mutex throughout and are therefore single steps.
\<close>

section \<open>The interface\<close>

record 'a TopicAdmin =
  ta_CreateTopic :: "string \<Rightarrow> TopicConfig \<Rightarrow> 'a \<Rightarrow> unit res \<times> 'a"
  ta_DeleteTopic :: "string \<Rightarrow> 'a \<Rightarrow> unit res \<times> 'a"
  ta_LogEndOffsetSum :: "string \<Rightarrow> 'a \<Rightarrow> int res \<times> 'a"
  ta_ConsumerLag :: "string \<Rightarrow> string \<Rightarrow> 'a \<Rightarrow> int res \<times> 'a"
  ta_ReplicaBrokerIDs :: "string \<Rightarrow> 'a \<Rightarrow> int list res \<times> 'a"

definition kafka_TopicAdmin :: "'k kafka_api \<Rightarrow> 'k TopicAdmin" where
  "kafka_TopicAdmin K = \<lparr>
     ta_CreateTopic = CreateTopic K, ta_DeleteTopic = DeleteTopic K, ta_LogEndOffsetSum = LogEndOffsetSum K,
     ta_ConsumerLag = ConsumerLag K, ta_ReplicaBrokerIDs = ReplicaBrokerIDs K\<rparr>"

section \<open>fakeAdmin\<close>

text \<open>Reading an absent key of a Go map gives the zero value.\<close>

definition map_at :: "('k \<rightharpoonup> int) \<Rightarrow> 'k \<Rightarrow> int" where
  "map_at m key = (case m key of Some v \<Rightarrow> v | None \<Rightarrow> 0)"

record fakeAdmin =
  fa_topics :: "string \<rightharpoonup> TopicConfig"
  fa_offsetSums :: "string \<rightharpoonup> int"
  fa_lag :: "string \<rightharpoonup> int"

definition newFakeAdmin :: fakeAdmin where
  "newFakeAdmin = \<lparr>fa_topics = Map.empty, fa_offsetSums = Map.empty, fa_lag = Map.empty\<rparr>"

definition fake_CreateTopic :: "string \<Rightarrow> TopicConfig \<Rightarrow> fakeAdmin \<Rightarrow> unit res \<times> fakeAdmin" where
  "fake_CreateTopic topic cfg f = (Inr (), f\<lparr>fa_topics := (fa_topics f)(topic \<mapsto> cfg)\<rparr>)"

definition fake_DeleteTopic :: "string \<Rightarrow> fakeAdmin \<Rightarrow> unit res \<times> fakeAdmin" where
  "fake_DeleteTopic topic f = (Inr (), f\<lparr>fa_topics := (fa_topics f)(topic := None)\<rparr>)"

definition fake_LogEndOffsetSum :: "string \<Rightarrow> fakeAdmin \<Rightarrow> int res \<times> fakeAdmin" where
  "fake_LogEndOffsetSum topic f = (Inr (map_at (fa_offsetSums f) topic), f)"

definition fake_ConsumerLag :: "string \<Rightarrow> string \<Rightarrow> fakeAdmin \<Rightarrow> int res \<times> fakeAdmin" where
  "fake_ConsumerLag grp topic f = (Inr (map_at (fa_lag f) (grp @ ''/'' @ topic)), f)"

definition fake_ReplicaBrokerIDs :: "string \<Rightarrow> fakeAdmin \<Rightarrow> int list res \<times> fakeAdmin" where
  "fake_ReplicaBrokerIDs topic f = (Inr (if fa_topics f topic = None then [] else [0]), f)"

definition setOffsetSum :: "string \<Rightarrow> int \<Rightarrow> fakeAdmin \<Rightarrow> fakeAdmin" where
  "setOffsetSum topic v f = f\<lparr>fa_offsetSums := (fa_offsetSums f)(topic \<mapsto> v)\<rparr>"

definition setLag :: "string \<Rightarrow> string \<Rightarrow> int \<Rightarrow> fakeAdmin \<Rightarrow> fakeAdmin" where
  "setLag grp topic v f = f\<lparr>fa_lag := (fa_lag f)(grp @ ''/'' @ topic \<mapsto> v)\<rparr>"

definition hasTopic :: "string \<Rightarrow> fakeAdmin \<Rightarrow> bool" where
  "hasTopic topic f = (fa_topics f topic \<noteq> None)"

definition fake_TopicAdmin :: "fakeAdmin TopicAdmin" where
  "fake_TopicAdmin = \<lparr>
     ta_CreateTopic = fake_CreateTopic, ta_DeleteTopic = fake_DeleteTopic, ta_LogEndOffsetSum = fake_LogEndOffsetSum,
     ta_ConsumerLag = fake_ConsumerLag, ta_ReplicaBrokerIDs = fake_ReplicaBrokerIDs\<rparr>"

section \<open>fakeTemporal\<close>

record fakeTemporal =
  ft_registered :: "string \<rightharpoonup> int"
  ft_err :: "go_error option"

definition newFakeTemporal :: fakeTemporal where
  "newFakeTemporal = \<lparr>ft_registered = Map.empty, ft_err = None\<rparr>"

definition ft_count :: "string \<Rightarrow> fakeTemporal \<Rightarrow> int" where
  "ft_count namespace f = map_at (ft_registered f) namespace"

definition fake_RegisterNamespace :: "string \<Rightarrow> fakeTemporal \<Rightarrow> unit res \<times> fakeTemporal" where
  "fake_RegisterNamespace namespace f =
     (case ft_err f of
        Some err \<Rightarrow> (Inl err, f)
      | None \<Rightarrow> (Inr (), f\<lparr>ft_registered := (ft_registered f)(namespace \<mapsto> map_at (ft_registered f) namespace + 1)\<rparr>))"

definition ft_setErr :: "go_error option \<Rightarrow> fakeTemporal \<Rightarrow> fakeTemporal" where
  "ft_setErr err f = f\<lparr>ft_err := err\<rparr>"

section \<open>What the operator relies on\<close>

datatype admin_call = Create string TopicConfig | Delete string | ReadLag string string

definition admin_step :: "'a TopicAdmin \<Rightarrow> admin_call \<Rightarrow> 'a \<Rightarrow> unit res \<times> 'a" where
  "admin_step A c s =
     (case c of
        Create topic cfg \<Rightarrow> ta_CreateTopic A topic cfg s
      | Delete topic \<Rightarrow> ta_DeleteTopic A topic s
      | ReadLag grp topic \<Rightarrow> on_ok (ta_ConsumerLag A grp topic s) id (\<lambda>_ s. (Inr (), s)))"

fun admin_calls :: "'a TopicAdmin \<Rightarrow> admin_call list \<Rightarrow> 'a \<Rightarrow> unit res \<times> 'a" where
  "admin_calls A [] s = (Inr (), s)"
| "admin_calls A (c # cs) s = on_ok (admin_step A c s) id (\<lambda>_ s. admin_calls A cs s)"

fun topics_after :: "admin_call list \<Rightarrow> string set \<Rightarrow> string set" where
  "topics_after [] T = T"
| "topics_after (Create topic cfg # cs) T = topics_after cs (insert topic T)"
| "topics_after (Delete topic # cs) T = topics_after cs (T - {topic})"
| "topics_after (ReadLag grp topic # cs) T = topics_after cs T"

locale topic_admin =
  fixes A :: "'a TopicAdmin" and topics :: "'a \<Rightarrow> string set" and lag :: "'a \<Rightarrow> string \<Rightarrow> string \<Rightarrow> int"
  assumes create: "ta_CreateTopic A t cfg s = (Inr (), s') \<Longrightarrow> topics s' = insert t (topics s)"
    and delete: "ta_DeleteTopic A t s = (Inr (), s') \<Longrightarrow> topics s' = topics s - {t}"
    and delete_lag: "ta_DeleteTopic A t s = (Inr (), s') \<Longrightarrow> t' \<noteq> t \<Longrightarrow> lag s' g t' = lag s g t'"
    and read_lag: "ta_ConsumerLag A g t s = (Inr l, s') \<Longrightarrow> l = lag s g t \<and> topics s' = topics s \<and> lag s' = lag s"
begin

lemma step_topics: "admin_step A c s = (Inr (), s') \<Longrightarrow> topics_after (c # cs) (topics s) = topics_after cs (topics s')"
  by (cases c) (auto simp: admin_step_def create delete dest: read_lag elim!: on_okE)

lemma calls_topics: "admin_calls A cs s = (Inr (), s') \<Longrightarrow> topics s' = topics_after cs (topics s)"
proof (induction cs arbitrary: s)
  case (Cons c cs)
  then obtain s1 where "admin_step A c s = (Inr (), s1)" "admin_calls A cs s1 = (Inr (), s')"
    by (auto elim!: on_okE)
  then show ?case using Cons.IH step_topics by simp
qed simp

end

sublocale topic_store \<subseteq> adm: topic_admin "kafka_TopicAdmin K" topics lag
  by unfold_locales (auto simp: kafka_TopicAdmin_def dest: CreateTopic_stored DeleteTopic_stored ConsumerLag_reads)

definition fake_lag :: "fakeAdmin \<Rightarrow> string \<Rightarrow> string \<Rightarrow> int" where
  "fake_lag f grp topic = map_at (fa_lag f) (grp @ ''/'' @ topic)"

interpretation fake: topic_admin fake_TopicAdmin "\<lambda>f. {t. hasTopic t f}" fake_lag
  by unfold_locales
    (auto simp: fake_TopicAdmin_def fake_CreateTopic_def fake_DeleteTopic_def fake_ConsumerLag_def hasTopic_def fake_lag_def)

lemma fake_calls_succeed: "fst (admin_calls fake_TopicAdmin cs f) = Inr ()"
proof (induction cs arbitrary: f)
  case (Cons c cs)
  obtain f' where "admin_step fake_TopicAdmin c f = (Inr (), f')"
    by (cases c) (auto simp: admin_step_def fake_TopicAdmin_def fake_CreateTopic_def fake_DeleteTopic_def fake_ConsumerLag_def)
  then show ?case by (simp add: Cons.IH)
qed simp

text \<open>
  The double stands in for any implementation: a sequence of calls that succeeds there succeeds
  on the double, and the topics agree afterwards if they agreed before.
\<close>

theorem fake_stands_in:
  assumes "topic_admin A topics lag" and "admin_calls A cs s = (Inr (), s')" and "topics s = {t. hasTopic t f}"
  shows "\<exists>f'. admin_calls fake_TopicAdmin cs f = (Inr (), f') \<and> topics s' = {t. hasTopic t f'}"
proof -
  obtain f' where f': "admin_calls fake_TopicAdmin cs f = (Inr (), f')"
    using fake_calls_succeed [of cs f] by (cases "admin_calls fake_TopicAdmin cs f") auto
  moreover have "topics s' = {t. hasTopic t f'}"
    using topic_admin.calls_topics [OF assms(1,2)] fake.calls_topics [OF f'] assms(3) by simp
  ultimately show ?thesis by blast
qed

lemmas fake_stands_in_for_reference = fake_stands_in [OF mem_topics.adm.topic_admin_axioms]

text \<open>Lags of two topics do not mix, as topic names have no slash.\<close>

lemma lag_key_injective:
  assumes "CHR ''/'' \<notin> set t" and "CHR ''/'' \<notin> set t'" and "g @ ''/'' @ t = g' @ ''/'' @ t'"
  shows "g = g' \<and> t = t'"
proof -
  have take: "takeWhile (\<lambda>c. c \<noteq> CHR ''/'') (b @ CHR ''/'' # a) = b" if "CHR ''/'' \<notin> set b" for a b :: string
    using that by (induction b) auto
  have "rev t @ CHR ''/'' # rev g = rev t' @ CHR ''/'' # rev g'" using arg_cong [OF assms(3), of rev] by simp
  with take [of "rev t" "rev g"] take [of "rev t'" "rev g'"] assms(1,2) have "rev t = rev t'" by simp
  with assms(3) show ?thesis by simp
qed

lemma setLag_read:
  assumes "CHR ''/'' \<notin> set t" and "CHR ''/'' \<notin> set t'"
  shows "fst (fake_ConsumerLag g' t' (setLag g t v f)) =
    Inr (if g' = g \<and> t' = t then v else fake_lag f g' t')"
  using lag_key_injective [OF assms(2,1), of g' g]
  by (auto simp: fake_ConsumerLag_def setLag_def fake_lag_def map_at_def)

lemma fake_register_counts:
  "ft_err f = None \<Longrightarrow> ft_count ns' (snd (fake_RegisterNamespace ns f)) = ft_count ns' f + (if ns' = ns then 1 else 0)"
  "ft_err f = Some e \<Longrightarrow> fake_RegisterNamespace ns f = (Inl e, f)"
  by (simp_all add: fake_RegisterNamespace_def ft_count_def map_at_def)

end
