(* ===== verification/Spec2Isabelle.thy ===== *)
theory Spec2Isabelle
  imports Operator_Effects Server_Main Deep_Copy Test_Doubles
begin

text \<open>
  \<^bold>\<open>A verification of kmsvc\<close>: message queues with the semantics of SQS on top of Kafka.

  \<^bold>\<open>The program.\<close> Two processes share a Redis server and a Kafka cluster. The operator
  (\<^verbatim>\<open>cmd/queue-operator\<close>, \<^verbatim>\<open>internal/operator\<close>) is the control plane: it reconciles the custom resource
  \<^verbatim>\<open>Queue\<close>, splits and drains the shards of a queue (each a Kafka topic owning a range of hash
  values), and publishes configuration and shard map to Redis; a second controller keeps a
  Deployment for each \<^verbatim>\<open>TemporalWorker\<close>. The server (\<^verbatim>\<open>cmd/server\<close>, \<^verbatim>\<open>internal/api\<close>, \<^verbatim>\<open>internal/core\<close>) is
  the message plane: it reads that map, produces messages to the shard of their key, hands them
  out under a visibility timeout kept in Redis, commits offsets as messages are deleted, and
  runs a reaper per queue that redelivers or dead-letters what was not deleted in time.

  \<^bold>\<open>The theories\<close>, in the order of their dependencies.

  \<^item> \<open>Kmsvc_Prelude\<close>: error values and their wrapping, early returns (\<open>on_ok\<close>), and what the program
    uses of Go's \<^verbatim>\<open>strconv\<close>, \<^verbatim>\<open>strings\<close> and \<^verbatim>\<open>time\<close>.
  \<^item> \<open>Kafka_Topology\<close> (\<^verbatim>\<open>kafka/topology.go\<close>): topic names, \<^verbatim>\<open>murmur2\<close> on 32-bit words, shard and partition
    selection. The hash equals a reference on blocks, and active shards that tile the key space
    give every key exactly one owner.
  \<^item> \<open>Go_Json\<close>: \<^verbatim>\<open>encoding/json\<close> for the shard map, with its round trip.
  \<^item> \<open>Kafka_Client\<close> (\<^verbatim>\<open>kafka/admin.go\<close>, \<^verbatim>\<open>produce.go\<close>, \<^verbatim>\<open>consume.go\<close>): the wrappers around the Kafka client.
  \<^item> \<open>Redis_Keys\<close> (\<^verbatim>\<open>redis/keys.go\<close>): key names, and that different keys have different names.
  \<^item> \<open>Redis_Server\<close>: the contract of the Redis commands.
  \<^item> \<open>Inflight_Store\<close> (\<^verbatim>\<open>redis/inflight.go\<close>, \<^verbatim>\<open>watermark.go\<close>, \<^verbatim>\<open>dedup.go\<close>, \<^verbatim>\<open>reaper.go\<close>, \<^verbatim>\<open>lua/*.lua\<close>): what \<open>Ack\<close>,
    \<open>Reap\<close> and the record operations do to every key of the server.
  \<^item> \<open>Queue_Meta\<close> (\<^verbatim>\<open>redis/queuemeta.go\<close>, \<^verbatim>\<open>shardmap.go\<close>): publication, and that what is published is read.
  \<^item> \<open>Message_Plane\<close> (\<^verbatim>\<open>core/queue/send_message.go\<close>, \<^verbatim>\<open>shard_router.go\<close>): sending, its effect on Redis and
    Kafka, and deduplication.
  \<^item> \<open>Message_Receipt\<close> (\<^verbatim>\<open>core/queue/receive_message.go\<close>, \<^verbatim>\<open>fifo.go\<close>, \<^verbatim>\<open>delete_message.go\<close>,
    \<^verbatim>\<open>change_visibility.go\<close>): receiving returns, is bounded and tracks what it hands out; a commit
    never passes a pending offset.
  \<^item> \<open>Reaper_Sweep\<close> (\<^verbatim>\<open>core/reaper/reaper.go\<close>): a sweep clears the expired entries, dead letters arrive.
  \<^item> \<open>Kube_Api\<close> (\<^verbatim>\<open>apis/kmsvc/v1/*_types.go\<close>): the custom resources and the calls to Kubernetes.
  \<^item> \<open>Deep_Copy\<close> (\<^verbatim>\<open>temporalworker_types.go\<close>, \<^verbatim>\<open>zz_generated.deepcopy.go\<close>): the copy methods over a heap of
    cells; what a copy shares with its original.
  \<^item> \<open>Shard_Lifecycle\<close> (\<^verbatim>\<open>operator/shard_split.go\<close>, \<^verbatim>\<open>shard_drain.go\<close>): the abstract life cycle \<open>shard_step\<close>
    of the shards of a queue, and that splitting and draining refine it.
  \<^item> \<open>Zone_Locator\<close> (\<^verbatim>\<open>operator/zone_locator.go\<close>): the zones of the brokers, through a cache.
  \<^item> \<open>Queue_Controller\<close> (\<^verbatim>\<open>operator/queue_controller.go\<close>, \<^verbatim>\<open>temporal/client.go\<close>): the whole reconcile, and the
    invariant of \<open>cluster_run\<close>, the runs of a cluster in which reconciles of any queues, failed
    ones included, interleave with edits by users.
  \<^item> \<open>Operator_Effects\<close>: what a successful reconcile, a drain and a deletion leave behind in
    Kubernetes, Redis and Kafka.
  \<^item> \<open>Worker_Controller\<close> (\<^verbatim>\<open>operator/temporal_worker_controller.go\<close>): the Deployment of a worker.
  \<^item> \<open>Test_Doubles\<close> (\<^verbatim>\<open>operator/admin.go\<close>, \<^verbatim>\<open>fake_admin.go\<close>, \<^verbatim>\<open>fake_temporal.go\<close>): the interface of the topic
    administration, shown for the Kafka client and for its in-memory double.
  \<^item> \<open>Api_Auth\<close> (\<^verbatim>\<open>auth/*.go\<close>, \<^verbatim>\<open>api/interceptors/auth.go\<close>): key discovery and cache, validator, interceptors;
    a handler behind them sees only verified tokens.
  \<^item> \<open>Consumer_Registry\<close> (\<^verbatim>\<open>api/handlers/consumer_registry.go\<close>): one consumer per queue, subscribed to all
    its live shards, in every sequence of calls (\<open>registry_run\<close>).
  \<^item> \<open>Api_Handlers\<close> (\<^verbatim>\<open>api/handlers/queue_service.go\<close>): the methods of the service and their error codes.
  \<^item> \<open>Server_Config\<close> (\<^verbatim>\<open>config/config.go\<close>, parts of both commands): settings, construction of the
    services, and the discovery that starts one reaper per queue.
  \<^item> \<open>Server_Main\<close> (both commands, client constructors): the order in which connections are opened
    and the deferred closes.

  This theory composes the two planes: a message sent after a successful reconcile is produced
  to a shard that the stored status of the queue calls active.

  \<^bold>\<open>State and errors.\<close> An operation is a function on the state of what it calls, of type
  \<open>'s \<Rightarrow> 'a res \<times> 's\<close>; \<open>Inl\<close> is the error the Go function returns, with the state as it then
  is. The world of the message plane has the states of Redis, Kafka and the process
  environment (clock, random numbers, context); the world of the operator adds Kubernetes and
  the caches the reconciler keeps.

  \<^bold>\<open>Parameters.\<close> Code outside the repository is an argument of the definitions, a record of the
  calls the program makes over an opaque state, and what is documented of it is a locale. Each
  locale is interpreted on an executable reference implementation, on which the witnesses of
  the theorems are computed.

  \<^item> Redis: \<open>redis_server\<close>, each command according to its documentation on whatever the server holds when
    the command arrives, and \<open>redis_quiet\<close>, in which no other client writes between the commands
    of a call while time may pass; interpreted on \<open>mem_redis\<close>.
  \<^item> Clock and polling: \<open>go_clock\<close> and its extension \<open>clocked\<close>; the message plane: \<open>message_plane\<close>.
  \<^item> Kafka: \<open>topic_store\<close> for topics and lags, from which \<open>topic_admin\<close> follows (interpreted on the
    test double as well), \<open>consumer_clients\<close> for group members; interpreted on \<open>mem_kafka\<close>.
  \<^item> Kubernetes: \<open>kube_store\<close>, \<open>placement\<close>, \<open>worker_store\<close>; interpreted on \<open>mem_kube\<close>.
    \<open>queue_operator\<close> and \<open>drain_view\<close> combine them with Redis, Kafka and the clock.
  \<^item> JWT library and HTTP: \<open>jwt_library\<close>. Opening and closing connections: \<open>connections\<close>.
  \<^item> \<open>deep_copier\<close> is an interface inside the program, the contract of a copy method, interpreted
    on the methods of the workers.

  \<^bold>\<open>Bounds.\<close> Hash values are words of 32 bits, wrapping as in Go; \<^verbatim>\<open>int32\<close> and \<^verbatim>\<open>int64\<close> values are integers
  with the wrap-around or the range check written out where the code can leave the range. The
  rates of the split decision follow the rounding of \<^verbatim>\<open>float64\<close>. Queues have fewer than \<open>2 ^ 60\<close>
  shards, so that shard numbers stay within \<^verbatim>\<open>int\<close>. The JSON reader has fuel \<open>2 * length s + 2\<close>:
  of two successive calls one consumes a byte. The long poll and the ticker loop of the reaper
  are partial functions; for the long poll it is proved that it returns.

  \<^bold>\<open>Faults.\<close> Some theorems show that the code loses messages or is stuck in circumstances it
  should handle: a retry after a failed produce is taken for a duplicate; polled records beyond
  the limit are dropped and committed past; a failed send to the dead-letter queue loses the
  message; a message whose visibility was extended beyond the expiry of its record is lost; a split is published
  before the topics of its children exist and can delete unread records of its parent; the
  first split is one-sided; a namespace label with an underscore is never reconciled.

  \<^bold>\<open>Not modelled.\<close> Listening on sockets, signals and graceful shutdown (one call of the platform
  in \<open>Server_Main\<close>), logging, the registration of types with the Kubernetes scheme
  (\<^verbatim>\<open>groupversion_info.go\<close>), the generated protocol code (another module), and the concurrency inside one call: a
  section under a mutex is one step, and the effects of a service call are stated for a Redis that
  only it changes. Interleavings are modelled between calls (reconciles and edits, calls to the registry,
  ticks of the reaper discovery). Scripts, charts and manifests are no part of the model.
\<close>

section \<open>Control plane and message plane together\<close>

lemma send_after_publish:
  assumes "message_plane S ks clock" and "published (ks (w_redis w)) n meta (published_shards ss)"
    and "shards_wf n fifo ss" and "meta_in_range meta"
    and "SendMessage S win inp w = (Inr out, v)" and "smi_QueueName inp = n" and "smi_MessageDeduplicationID inp = ''''"
  shows "\<exists>s part. s \<in> set ss \<and> ss_Phase s = ShardPhaseActive \<and> 0 \<le> part \<and>
    part < (if qm_PartitionsPerShard meta \<le> 0 then DefaultPartitionCount else qm_PartitionsPerShard meta) \<and>
    ProduceSync (Kafka S) (w_kafka w) (ss_Topic s) part (if qm_FIFO meta then Some (smi_MessageGroupID inp) else None)
      (smi_Body inp) = (Inr (smo_SequenceNumber out), w_kafka v)"
proof -
  have p: "published (ks (w_redis w)) (smi_QueueName inp) meta (published_shards ss)" using assms(2,6) by simp
  from message_plane.SendMessage_ok [OF assms(1), OF assms(5) p] assms(7) obtain key shard where
    sel: "SelectShard (ActiveShards (published_shards ss)) key = Some shard"
    and prod: "ProduceSync (Kafka S) (w_kafka w) (sh_Topic shard) (PartitionWithinShard key (qm_PartitionsPerShard meta))
      (if qm_FIFO meta then Some (smi_MessageGroupID inp) else None) (smi_Body inp) = (Inr (smo_SequenceNumber out), w_kafka v)"
    by auto
  from published_route [OF assms(3), of key] sel obtain s where s: "s \<in> set ss" "ss_Phase s = ShardPhaseActive" "shard = status_shard s"
    by auto
  have "qm_PartitionsPerShard meta < 2 ^ 31" using assms(4) by (simp add: meta_in_range_def int_in_bits_def)
  from PartitionWithinShard_eq [OF this, of key] prod s show ?thesis
    by (intro exI [of _ s] exI [of _ "PartitionWithinShard key (qm_PartitionsPerShard meta)"])
       (auto simp: status_shard_def DefaultPartitionCount_def)
qed

text \<open>
  C2. The two planes agree. After a successful reconcile of a live queue, every successful send to it
  (without a deduplication id) has produced exactly one record, to the topic of a shard that
  is active in the stored status of the queue, on a partition that the topic was asked to have.
\<close>

theorem reconcile_then_send:
  assumes "queue_operator R ks clock queues"
    and "Reconcile R ns n w = (Inr (), w')" and "queues (o_kube w) (ns, n) = Some q" and "\<not> deleting q"
    and "status_inv q" and "int (length (q_Shards q)) < 2 ^ 60"
    and "ascii n" and "om_CreationTimestamp (q_Meta q) \<noteq> zero_time" and "meta_in_range (queue_meta q)"
    and "int_in_bits 64 (Unix (om_CreationTimestamp (q_Meta q)))"
    and "deadline (ks (w_redis (o_world w)) (QueueMetaKey n)) = None"
    and "SendMessage (qr_sys R) win inp (o_world w') = (Inr out, v)"
    and "smi_QueueName inp = n" and "smi_MessageDeduplicationID inp = ''''"
  shows "\<exists>q' s part. queues (o_kube w') (ns, n) = Some q' \<and> s \<in> set (q_Shards q') \<and> ss_Phase s = ShardPhaseActive \<and> 0 \<le> part \<and>
    part < (if qs_PartitionsPerShard (q_Spec q) \<le> 0 then DefaultPartitionCount else qs_PartitionsPerShard (q_Spec q)) \<and>
    ProduceSync (Kafka (qr_sys R)) (w_kafka (o_world w')) (ss_Topic s) part
      (if qs_FIFOQueue (q_Spec q) then Some (smi_MessageGroupID inp) else None) (smi_Body inp) =
      (Inr (smo_SequenceNumber out), w_kafka v)"
proof -
  let ?m = "(queue_meta q)\<lparr>qm_CreatedAt := Unix (om_CreationTimestamp (q_Meta q)) * Second\<rparr>"
  from queue_operator.Reconcile_ready [OF assms(1-11)] obtain q' where q': "queues (o_kube w') (ns, n) = Some q'"
    and wf: "shards_wf n (qs_FIFOQueue (q_Spec q)) (q_Shards q')"
    and pub: "published (ks (w_redis (o_world w'))) n ?m (published_shards (q_Shards q'))" by blast
  have mp: "message_plane (qr_sys R) ks clock"
    using assms(1) by (simp add: queue_operator_def message_plane_def)
  have m: "meta_in_range ?m" using assms(9) by (simp add: meta_in_range_def)
  have f: "qm_PartitionsPerShard ?m = qs_PartitionsPerShard (q_Spec q)" "qm_FIFO ?m = qs_FIFOQueue (q_Spec q)"
    by (simp_all add: queue_meta_def Let_def)
  from send_after_publish [OF mp pub wf m assms(12-14)] q' show ?thesis unfolding f by blast
qed

definition demo_order :: SendMessageInput where
  "demo_order = \<lparr>smi_QueueName = ''orders'', smi_Body = ''hello'', smi_MessageGroupID = ''g'', smi_MessageDeduplicationID = ''''\<rparr>"

theorem reconcile_then_send_witness:
  "\<exists>s \<in> set demo_halves. ss_Phase s = ShardPhaseActive \<and> (\<exists>part.
     ProduceSync mem_kafka (w_kafka (o_world (snd (Reconcile demo_reconciler ''sqs'' ''orders'' demo_busy)))) (ss_Topic s) part
       (Some ''g'') ''hello'' =
     (Inr 0, w_kafka (snd (SendMessage mem_sys 0 demo_order (o_world (snd (Reconcile demo_reconciler ''sqs'' ''orders'' demo_busy)))))))"
proof -
  let ?w = "snd (Reconcile demo_reconciler ''sqs'' ''orders'' demo_busy)"
  have r: "fst (Reconcile demo_reconciler ''sqs'' ''orders'' demo_busy) = Inr ()" by code_simp
  have q: "mem_queues (o_kube ?w) (''sqs'', ''orders'') = Some demo_ready" by code_simp
  have S: "qr_sys demo_reconciler = mem_sys" by (simp add: demo_reconciler_def)
  have o: "fst (SendMessage (qr_sys demo_reconciler) 0 demo_order (o_world ?w)) = Inr \<lparr>smo_MessageID = ''id-0'', smo_SequenceNumber = 0\<rparr>" by code_simp
  have h: "\<not> deleting demo_queue" "ascii ''orders''" "om_CreationTimestamp (q_Meta demo_queue) \<noteq> zero_time"
    "meta_in_range (queue_meta demo_queue)" "int_in_bits 64 (Unix (om_CreationTimestamp (q_Meta demo_queue)))"
    "deadline (mem_ks (w_redis (o_world demo_busy)) (QueueMetaKey ''orders'')) = None"
    "smi_QueueName demo_order = ''orders''" "smi_MessageDeduplicationID demo_order = ''''"
    "smi_MessageGroupID demo_order = ''g''" "smi_Body demo_order = ''hello''" "qs_FIFOQueue (q_Spec demo_queue)" by code_simp+
  have i: "status_inv demo_queue" "int (length (q_Shards demo_queue)) < 2 ^ 60"
    using demo_wf by (simp_all add: status_inv_def demo_queue_sel)
  have "q_Shards demo_ready = demo_halves" "Kafka mem_sys = mem_kafka" by (simp_all add: demo_ready_def mem_sys_def)
  with reconcile_then_send [OF op.queue_operator_axioms, OF run_eqI [OF r] demo_busy_queue(1) h(1) i h(2-6) run_eqI [OF o] h(7,8)] q h(9-11) S
  show ?thesis by auto
qed

end
